(* ===== verification/Prelude.thy ===== *)
theory Prelude
  imports
    Main
    "HOL-Library.Word"
    "HOL-Library.Char_ord"
    "HOL-Library.List_Lexorder"
begin

text \<open>
  Shared vocabulary of the development: fixed-width machine integers and their big- and
  little-endian byte images, the three-valued result of a Rust computation (a value, an
  \<open>Err\<close> with its displayed message, or a panic), bounds-checked indexing and slicing, the
  UTF-8 validator behind \<open>std::str::from_utf8\<close>, and the decimal and hexadecimal number
  formatting and parsing that the sources use through \<open>format!\<close> and \<open>str::parse\<close>.

  A Rust \<open>String\<close> or \<open>&str\<close> is an Isabelle \<open>string\<close> whose characters are the bytes of its
  UTF-8 image, so \<open>length\<close> is Rust's \<open>len()\<close>. A byte buffer is a list of 8-bit words.
  Lengths, offsets and counts (\<open>usize\<close>) are \<open>nat\<close>: every one of them is bounded by a
  buffer length plus a 32-bit quantity, which a 64-bit \<open>usize\<close> holds.
\<close>

named_theorems byte_simps \<open>rewriting of byte images of machine integers\<close>
named_theorems rust_simps \<open>unfolding of indexing, slicing and sequencing\<close>

subsection \<open>Machine integers\<close>

type_synonym u8 = "8 word"
type_synonym u16 = "16 word"
type_synonym u32 = "32 word"
type_synonym u64 = "64 word"
type_synonym i64 = "64 word" \<comment> \<open>two's complement, read with \<open>sint\<close>\<close>
type_synonym f64 = "64 word" \<comment> \<open>the IEEE 754 bit pattern\<close>
type_synonym bytes = "u8 list"

primrec le_bytes :: "nat \<Rightarrow> nat \<Rightarrow> bytes" where
  "le_bytes 0 x = []"
| "le_bytes (Suc n) x = word_of_nat (x mod 256) # le_bytes n (x div 256)"

primrec nat_of_le :: "bytes \<Rightarrow> nat" where
  "nat_of_le [] = 0"
| "nat_of_le (b # bs) = unat b + 256 * nat_of_le bs"

definition be_bytes :: "nat \<Rightarrow> nat \<Rightarrow> bytes" where
  "be_bytes n x = rev (le_bytes n x)"

definition nat_of_be :: "bytes \<Rightarrow> nat" where
  "nat_of_be bs = nat_of_le (rev bs)"

definition u16_to_be_bytes :: "u16 \<Rightarrow> bytes" where
  "u16_to_be_bytes w = be_bytes 2 (unat w)"

definition u32_to_be_bytes :: "u32 \<Rightarrow> bytes" where
  "u32_to_be_bytes w = be_bytes 4 (unat w)"

definition u64_to_be_bytes :: "u64 \<Rightarrow> bytes" where
  "u64_to_be_bytes w = be_bytes 8 (unat w)"

definition u16_to_le_bytes :: "u16 \<Rightarrow> bytes" where
  "u16_to_le_bytes w = le_bytes 2 (unat w)"

definition u32_to_le_bytes :: "u32 \<Rightarrow> bytes" where
  "u32_to_le_bytes w = le_bytes 4 (unat w)"

definition u64_to_le_bytes :: "u64 \<Rightarrow> bytes" where
  "u64_to_le_bytes w = le_bytes 8 (unat w)"

definition u16_from_be_bytes :: "bytes \<Rightarrow> u16" where
  "u16_from_be_bytes bs = word_of_nat (nat_of_be bs)"

definition u32_from_be_bytes :: "bytes \<Rightarrow> u32" where
  "u32_from_be_bytes bs = word_of_nat (nat_of_be bs)"

definition u64_from_be_bytes :: "bytes \<Rightarrow> u64" where
  "u64_from_be_bytes bs = word_of_nat (nat_of_be bs)"

definition u16_from_le_bytes :: "bytes \<Rightarrow> u16" where
  "u16_from_le_bytes bs = word_of_nat (nat_of_le bs)"

definition u32_from_le_bytes :: "bytes \<Rightarrow> u32" where
  "u32_from_le_bytes bs = word_of_nat (nat_of_le bs)"

definition u64_from_le_bytes :: "bytes \<Rightarrow> u64" where
  "u64_from_le_bytes bs = word_of_nat (nat_of_le bs)"

lemma length_le_bytes [simp]: "length (le_bytes n x) = n"
  by (induction n arbitrary: x) auto

lemma length_be_bytes [simp]: "length (be_bytes n x) = n"
  by (simp add: be_bytes_def)

lemma unat_u8_mod: "unat (word_of_nat (x mod 256) :: u8) = x mod 256"
  by (simp add: unat_of_nat)

lemma nat_of_le_bytes: "nat_of_le (le_bytes n x) = x mod 256 ^ n"
proof (induction n arbitrary: x)
  case 0
  then show ?case by simp
next
  case (Suc n)
  have "nat_of_le (le_bytes (Suc n) x) = x mod 256 + 256 * ((x div 256) mod 256 ^ n)"
    by (simp add: Suc.IH unat_u8_mod)
  also have "\<dots> = x mod (256 * 256 ^ n)"
    by (simp add: mod_mult2_eq)
  finally show ?case by simp
qed

lemma nat_of_be_bytes: "nat_of_be (be_bytes n x) = x mod 256 ^ n"
  by (simp add: nat_of_be_def be_bytes_def nat_of_le_bytes)

lemma nat_of_le_bound: "nat_of_le bs < 256 ^ length bs"
proof (induction bs)
  case Nil
  then show ?case by simp
next
  case (Cons b bs)
  have "unat b < 256" using unsigned_less [of b] by simp
  with Cons.IH show ?case by simp
qed

lemma le_bytes_nat_of_le: "le_bytes (length bs) (nat_of_le bs) = bs"
proof (induction bs)
  case Nil
  then show ?case by simp
next
  case (Cons b bs)
  have "unat b < 256" using unsigned_less [of b] by simp
  with Cons.IH show ?case by simp
qed

lemma to_bytes_length [byte_simps, simp]:
  "length (u16_to_be_bytes w16) = 2" "length (u32_to_be_bytes w32) = 4"
  "length (u64_to_be_bytes w64) = 8" "length (u16_to_le_bytes w16) = 2"
  "length (u32_to_le_bytes w32) = 4" "length (u64_to_le_bytes w64) = 8"
  by (simp_all add: u16_to_be_bytes_def u32_to_be_bytes_def u64_to_be_bytes_def
      u16_to_le_bytes_def u32_to_le_bytes_def u64_to_le_bytes_def)

lemma unat_less_pow: "unat (w :: 'a::len word) < 2 ^ LENGTH('a)"
  by (rule unsigned_less)

lemma from_to_be_bytes [byte_simps, simp]:
  "u16_from_be_bytes (u16_to_be_bytes w16) = w16"
  "u32_from_be_bytes (u32_to_be_bytes w32) = w32"
  "u64_from_be_bytes (u64_to_be_bytes w64) = w64"
  using unat_less_pow [of w16] unat_less_pow [of w32] unat_less_pow [of w64]
  by (simp_all add: u16_from_be_bytes_def u16_to_be_bytes_def u32_from_be_bytes_def
      u32_to_be_bytes_def u64_from_be_bytes_def u64_to_be_bytes_def nat_of_be_bytes)

lemma from_to_le_bytes [byte_simps, simp]:
  "u16_from_le_bytes (u16_to_le_bytes w16) = w16"
  "u32_from_le_bytes (u32_to_le_bytes w32) = w32"
  "u64_from_le_bytes (u64_to_le_bytes w64) = w64"
  using unat_less_pow [of w16] unat_less_pow [of w32] unat_less_pow [of w64]
  by (simp_all add: u16_from_le_bytes_def u16_to_le_bytes_def u32_from_le_bytes_def
      u32_to_le_bytes_def u64_from_le_bytes_def u64_to_le_bytes_def nat_of_le_bytes)

lemma unat_word_of_nat_small: "n < 2 ^ LENGTH('a::len) \<Longrightarrow> unat (word_of_nat n :: 'a word) = n"
  by (simp add: unat_of_nat)

subsection \<open>Results of Rust computations\<close>

datatype 'a rust = Ok 'a | Err string | Panic

definition rbind :: "'a rust \<Rightarrow> ('a \<Rightarrow> 'b rust) \<Rightarrow> 'b rust" where
  "rbind m f = (case m of Ok x \<Rightarrow> f x | Err e \<Rightarrow> Err e | Panic \<Rightarrow> Panic)"

lemma rbind_simps [simp]:
  "rbind (Ok x) f = f x" "rbind (Err e) f = Err e" "rbind Panic f = Panic"
  by (simp_all add: rbind_def)

lemma rbind_cong [fundef_cong]:
  "m = m' \<Longrightarrow> (\<And>x. m' = Ok x \<Longrightarrow> f x = g x) \<Longrightarrow> rbind m f = rbind m' g"
  by (simp add: rbind_def split: rust.split)

lemma rbind_eq_Ok: "rbind m f = Ok y \<longleftrightarrow> (\<exists>x. m = Ok x \<and> f x = Ok y)"
  by (simp add: rbind_def split: rust.split)

lemma rbind_eq_Panic: "rbind m f = Panic \<longleftrightarrow> m = Panic \<or> (\<exists>x. m = Ok x \<and> f x = Panic)"
  by (simp add: rbind_def split: rust.split)

lemma rbind_eq_Err: "rbind m f = Err e \<longleftrightarrow> m = Err e \<or> (\<exists>x. m = Ok x \<and> f x = Err e)"
  by (simp add: rbind_def split: rust.split)

lemma rbind_no_panic:
  "m \<noteq> Panic \<Longrightarrow> (\<And>x. m = Ok x \<Longrightarrow> f x \<noteq> Panic) \<Longrightarrow> rbind m f \<noteq> Panic"
  by (auto simp: rbind_eq_Panic)

definition rs_index :: "'a list \<Rightarrow> nat \<Rightarrow> 'a rust" where
  "rs_index xs i = (if i < length xs then Ok (xs ! i) else Panic)"

definition rs_slice :: "'a list \<Rightarrow> nat \<Rightarrow> nat \<Rightarrow> 'a list rust" where
  "rs_slice xs a b = (if a \<le> b \<and> b \<le> length xs then Ok (take (b - a) (drop a xs)) else Panic)"

definition rs_slice_from :: "'a list \<Rightarrow> nat \<Rightarrow> 'a list rust" where
  "rs_slice_from xs a = (if a \<le> length xs then Ok (drop a xs) else Panic)"

lemma rs_index_Ok [rust_simps]: "i < length xs \<Longrightarrow> rs_index xs i = Ok (xs ! i)"
  by (simp add: rs_index_def)

lemma rs_slice_Ok [rust_simps]:
  "a \<le> b \<Longrightarrow> b \<le> length xs \<Longrightarrow> rs_slice xs a b = Ok (take (b - a) (drop a xs))"
  by (simp add: rs_slice_def)

lemma rs_slice_from_Ok [rust_simps]: "a \<le> length xs \<Longrightarrow> rs_slice_from xs a = Ok (drop a xs)"
  by (simp add: rs_slice_from_def)

lemma rs_slice_length: "rs_slice xs a b = Ok ys \<Longrightarrow> length ys = b - a"
  by (auto simp: rs_slice_def split: if_splits)

text \<open>Overwriting a range of a buffer: \<open>buf[a..a + src.len()].copy_from_slice(src)\<close>.\<close>

definition rs_copy_at :: "'a list \<Rightarrow> nat \<Rightarrow> 'a list \<Rightarrow> 'a list rust" where
  "rs_copy_at xs a src =
     (if a + length src \<le> length xs
      then Ok (take a xs @ src @ drop (a + length src) xs) else Panic)"

lemma rs_copy_at_length: "rs_copy_at xs a src = Ok ys \<Longrightarrow> length ys = length xs"
  by (auto simp: rs_copy_at_def split: if_splits)

lemma nth_copy_at:
  "rs_copy_at xs a src = Ok ys \<Longrightarrow> i < length xs \<Longrightarrow>
   ys ! i = (if a \<le> i \<and> i < a + length src then src ! (i - a) else xs ! i)"
  by (auto simp: rs_copy_at_def nth_append min_def split: if_splits)

subsection \<open>Strings and UTF-8\<close>

definition byte_of_char :: "char \<Rightarrow> u8" where
  "byte_of_char c = word_of_nat (of_char c)"

definition char_of_byte :: "u8 \<Rightarrow> char" where
  "char_of_byte b = char_of (unat b)"

definition as_bytes :: "string \<Rightarrow> bytes" where
  "as_bytes s = map byte_of_char s"

definition string_of_bytes :: "bytes \<Rightarrow> string" where
  "string_of_bytes bs = map char_of_byte bs"

lemma char_of_byte_of_char [simp]: "char_of_byte (byte_of_char c) = c"
proof -
  have "(of_char c :: nat) < 256" by (metis nat_of_char_less_256)
  then show ?thesis by (simp add: char_of_byte_def byte_of_char_def unat_of_nat)
qed

lemma byte_of_char_of_byte [simp]: "byte_of_char (char_of_byte b) = b"
proof -
  have "unat b < 256" using unsigned_less [of b] by simp
  then show ?thesis by (simp add: char_of_byte_def byte_of_char_def)
qed

lemma as_bytes_simps [simp]:
  "as_bytes [] = []" "as_bytes (c # s) = byte_of_char c # as_bytes s"
  "as_bytes (s @ t) = as_bytes s @ as_bytes t" "length (as_bytes s) = length s"
  by (simp_all add: as_bytes_def)

lemma string_of_as_bytes [simp]: "string_of_bytes (as_bytes s) = s"
  by (induction s) (simp_all add: string_of_bytes_def)

lemma as_bytes_of_string [simp]: "as_bytes (string_of_bytes bs) = bs"
  by (induction bs) (simp_all add: string_of_bytes_def)

lemma as_bytes_inject [simp]: "as_bytes s = as_bytes t \<longleftrightarrow> s = t"
  by (metis string_of_as_bytes)

lemma length_string_of_bytes [simp]: "length (string_of_bytes bs) = length bs"
  by (simp add: string_of_bytes_def)

text \<open>
  One step of \<open>core::str::validations::run_utf8_validation\<close>: the width of the character at
  the head, or the \<open>error_len\<close> that \<open>Utf8Error\<close> reports (\<open>None\<close> for a truncated sequence).
\<close>

datatype utf8_step = Valid nat | Invalid "nat option"

definition utf8_cont :: "u8 \<Rightarrow> bool" where
  "utf8_cont b \<longleftrightarrow> 128 \<le> unat b \<and> unat b \<le> 191"

definition utf8_second3 :: "u8 \<Rightarrow> u8 \<Rightarrow> bool" where
  "utf8_second3 b0 b1 \<longleftrightarrow>
     (unat b0 = 0xE0 \<and> 0xA0 \<le> unat b1 \<and> unat b1 \<le> 0xBF)
   \<or> (0xE1 \<le> unat b0 \<and> unat b0 \<le> 0xEC \<and> utf8_cont b1)
   \<or> (unat b0 = 0xED \<and> 0x80 \<le> unat b1 \<and> unat b1 \<le> 0x9F)
   \<or> (0xEE \<le> unat b0 \<and> unat b0 \<le> 0xEF \<and> utf8_cont b1)"

definition utf8_second4 :: "u8 \<Rightarrow> u8 \<Rightarrow> bool" where
  "utf8_second4 b0 b1 \<longleftrightarrow>
     (unat b0 = 0xF0 \<and> 0x90 \<le> unat b1 \<and> unat b1 \<le> 0xBF)
   \<or> (0xF1 \<le> unat b0 \<and> unat b0 \<le> 0xF3 \<and> utf8_cont b1)
   \<or> (unat b0 = 0xF4 \<and> 0x80 \<le> unat b1 \<and> unat b1 \<le> 0x8F)"

definition utf8_char :: "u8 \<Rightarrow> bytes \<Rightarrow> utf8_step" where
  "utf8_char b0 rest =
     (if unat b0 < 0x80 then Valid 1
      else if 0xC2 \<le> unat b0 \<and> unat b0 \<le> 0xDF then
        (case rest of [] \<Rightarrow> Invalid None
         | b1 # _ \<Rightarrow> if utf8_cont b1 then Valid 2 else Invalid (Some 1))
      else if 0xE0 \<le> unat b0 \<and> unat b0 \<le> 0xEF then
        (case rest of [] \<Rightarrow> Invalid None
         | b1 # r1 \<Rightarrow> if \<not> utf8_second3 b0 b1 then Invalid (Some 1) else
           (case r1 of [] \<Rightarrow> Invalid None
            | b2 # _ \<Rightarrow> if utf8_cont b2 then Valid 3 else Invalid (Some 2)))
      else if 0xF0 \<le> unat b0 \<and> unat b0 \<le> 0xF4 then
        (case rest of [] \<Rightarrow> Invalid None
         | b1 # r1 \<Rightarrow> if \<not> utf8_second4 b0 b1 then Invalid (Some 1) else
           (case r1 of [] \<Rightarrow> Invalid None
            | b2 # r2 \<Rightarrow> if \<not> utf8_cont b2 then Invalid (Some 2) else
              (case r2 of [] \<Rightarrow> Invalid None
               | b3 # _ \<Rightarrow> if utf8_cont b3 then Valid 4 else Invalid (Some 3))))
      else Invalid (Some 1))"

fun run_utf8_validation :: "nat \<Rightarrow> bytes \<Rightarrow> (nat \<times> nat option) option" where
  "run_utf8_validation i [] = None"
| "run_utf8_validation i (b # bs) =
     (case utf8_char b bs of
        Valid n \<Rightarrow> run_utf8_validation (i + n) (drop (n - 1) bs)
      | Invalid e \<Rightarrow> Some (i, e))"

definition valid_utf8 :: "bytes \<Rightarrow> bool" where
  "valid_utf8 bs \<longleftrightarrow> run_utf8_validation 0 bs = None"

text \<open>A Rust string: its bytes are valid UTF-8.\<close>

definition rust_str :: "string \<Rightarrow> bool" where
  "rust_str s \<longleftrightarrow> valid_utf8 (as_bytes s)"

subsection \<open>Formatting and parsing of numbers\<close>

definition digit_char :: "nat \<Rightarrow> char" where
  "digit_char d = char_of (48 + d)"

fun dec_of_nat :: "nat \<Rightarrow> string" where
  "dec_of_nat n = (if n < 10 then [digit_char n] else dec_of_nat (n div 10) @ [digit_char (n mod 10)])"

declare dec_of_nat.simps [simp del]

definition hex_digit :: "nat \<Rightarrow> char" where
  "hex_digit d = (''0123456789abcdef'' ! d)"

text \<open>The format \<open>{:02x}\<close> of a byte.\<close>

definition hex02 :: "u8 \<Rightarrow> string" where
  "hex02 b = [hex_digit (unat b div 16), hex_digit (unat b mod 16)]"

definition utf8_error_display :: "nat \<Rightarrow> nat option \<Rightarrow> string" where
  "utf8_error_display valid_up_to error_len =
     (case error_len of
        Some n \<Rightarrow> ''invalid utf-8 sequence of '' @ dec_of_nat n @ '' bytes from index ''
                  @ dec_of_nat valid_up_to
      | None \<Rightarrow> ''incomplete utf-8 byte sequence from index '' @ dec_of_nat valid_up_to)"

definition str_from_utf8 :: "bytes \<Rightarrow> string rust" where
  "str_from_utf8 bs =
     (case run_utf8_validation 0 bs of
        None \<Rightarrow> Ok (string_of_bytes bs)
      | Some (i, e) \<Rightarrow> Err (utf8_error_display i e))"

text \<open>\<open>str::parse\<close> for the unsigned integer type of a given width.\<close>

definition is_digit_char :: "char \<Rightarrow> bool" where
  "is_digit_char c \<longleftrightarrow> 48 \<le> (of_char c :: nat) \<and> (of_char c :: nat) \<le> 57"

definition digits_value :: "string \<Rightarrow> nat" where
  "digits_value s = foldl (\<lambda>acc c. 10 * acc + ((of_char c :: nat) - 48)) 0 s"

definition parse_uint :: "nat \<Rightarrow> string \<Rightarrow> nat option" where
  "parse_uint width s =
     (let t = (case s of c # r \<Rightarrow> if c = CHR ''+'' \<and> r \<noteq> [] then r else s | [] \<Rightarrow> s)
      in if t \<noteq> [] \<and> list_all is_digit_char t \<and> digits_value t < 2 ^ width
         then Some (digits_value t) else None)"

subsection \<open>Facts on UTF-8\<close>

lemma utf8_char_bounds: "utf8_char b bs = Valid n \<Longrightarrow> 1 \<le> n \<and> n \<le> Suc (length bs)"
  by (auto simp: utf8_char_def split: if_splits list.splits)

lemma utf8_char_append: "utf8_char b bs = Valid n \<Longrightarrow> utf8_char b (bs @ cs) = Valid n"
  by (auto simp: utf8_char_def split: if_splits list.splits)

lemma utf8_validation_append:
  "run_utf8_validation i as = None \<Longrightarrow>
   run_utf8_validation i (as @ bs) = run_utf8_validation (i + length as) bs"
proof (induction i as rule: run_utf8_validation.induct)
  case (1 i)
  then show ?case by simp
next
  case (2 i a as)
  then obtain n where n: "utf8_char a as = Valid n"
    by (auto split: utf8_step.splits)
  with utf8_char_bounds [OF n] 2 utf8_char_append [OF n, of bs] show ?case
    by simp
qed

lemma utf8_validation_shift:
  "run_utf8_validation (i + k) bs = map_option (\<lambda>(j, e). (j + k, e)) (run_utf8_validation i bs)"
proof (induction i bs rule: run_utf8_validation.induct)
  case (1 i)
  then show ?case by simp
next
  case (2 i b bs)
  show ?case
  proof (cases "utf8_char b bs")
    case (Valid n)
    with 2 [OF Valid] show ?thesis by (simp add: algebra_simps)
  next
    case (Invalid e)
    then show ?thesis by simp
  qed
qed

lemma utf8_validation_None_any: "run_utf8_validation 0 bs = None \<Longrightarrow> run_utf8_validation i bs = None"
  using utf8_validation_shift [of 0 i bs] by simp

lemma valid_utf8_append: "valid_utf8 as \<Longrightarrow> valid_utf8 bs \<Longrightarrow> valid_utf8 (as @ bs)"
  by (simp add: valid_utf8_def utf8_validation_append utf8_validation_None_any)

lemma rust_str_append [intro]: "rust_str s \<Longrightarrow> rust_str t \<Longrightarrow> rust_str (s @ t)"
  by (simp add: rust_str_def valid_utf8_append)

lemma valid_utf8_Nil [simp]: "valid_utf8 []"
  by (simp add: valid_utf8_def)

lemma rust_str_Nil [simp]: "rust_str []"
  by (simp add: rust_str_def)

lemma valid_utf8_ascii_Cons: "unat b < 128 \<Longrightarrow> valid_utf8 bs \<Longrightarrow> valid_utf8 (b # bs)"
  by (simp add: valid_utf8_def utf8_char_def utf8_validation_None_any)

lemma rust_str_ascii_Cons: "(of_char c :: nat) < 128 \<Longrightarrow> rust_str s \<Longrightarrow> rust_str (c # s)"
  by (simp add: rust_str_def byte_of_char_def valid_utf8_ascii_Cons unat_of_nat)

lemma rust_str_ascii: "list_all (\<lambda>c. (of_char c :: nat) < 128) s \<Longrightarrow> rust_str s"
  by (induction s) (simp_all add: rust_str_ascii_Cons)

lemma str_from_utf8_as_bytes [simp]: "rust_str s \<Longrightarrow> str_from_utf8 (as_bytes s) = Ok s"
  by (simp add: str_from_utf8_def rust_str_def valid_utf8_def)

lemma str_from_utf8_Ok: "str_from_utf8 bs = Ok s \<longleftrightarrow> valid_utf8 bs \<and> s = string_of_bytes bs"
  by (auto simp: str_from_utf8_def valid_utf8_def split: option.splits)

lemma str_from_utf8_no_panic [simp]: "str_from_utf8 bs \<noteq> Panic"
  by (auto simp: str_from_utf8_def split: option.splits)

lemma str_from_utf8_rust_str: "str_from_utf8 bs = Ok s \<Longrightarrow> rust_str s \<and> as_bytes s = bs"
  by (simp add: str_from_utf8_Ok rust_str_def)

subsection \<open>Facts on number formatting\<close>

lemma digit_char_code: "d < 10 \<Longrightarrow> (of_char (digit_char d) :: nat) = 48 + d"
  by (simp add: digit_char_def)

lemma is_digit_digit_char: "d < 10 \<Longrightarrow> is_digit_char (digit_char d)"
  by (simp add: is_digit_char_def digit_char_code)

lemma dec_of_nat_nonempty [simp]: "dec_of_nat n \<noteq> []"
  by (subst dec_of_nat.simps) simp

lemma dec_of_nat_digits: "list_all is_digit_char (dec_of_nat n)"
proof (induction n rule: dec_of_nat.induct)
  case (1 n)
  show ?case
    by (subst dec_of_nat.simps) (use 1 in \<open>simp add: is_digit_digit_char\<close>)
qed

lemma digits_value_snoc:
  "digits_value (s @ [c]) = 10 * digits_value s + ((of_char c :: nat) - 48)"
  by (simp add: digits_value_def)

lemma digits_value_dec [simp]: "digits_value (dec_of_nat n) = n"
proof (induction n rule: dec_of_nat.induct)
  case (1 n)
  show ?case
  proof (cases "n < 10")
    case True
    then show ?thesis
      by (subst dec_of_nat.simps) (simp add: digits_value_def digit_char_code)
  next
    case False
    with 1 have "digits_value (dec_of_nat (n div 10)) = n div 10" by simp
    with False show ?thesis
      by (subst dec_of_nat.simps) (simp add: digits_value_snoc digit_char_code)
  qed
qed

lemma dec_of_nat_no_plus: "hd (dec_of_nat n) \<noteq> CHR ''+''"
proof
  assume "hd (dec_of_nat n) = CHR ''+''"
  moreover have "hd (dec_of_nat n) \<in> set (dec_of_nat n)" by simp
  ultimately have "is_digit_char CHR ''+''"
    using dec_of_nat_digits [of n] by (auto simp: list_all_iff)
  then show False by (simp add: is_digit_char_def)
qed

text \<open>What \<open>to_string\<close> prints, \<open>parse\<close> reads back.\<close>

lemma parse_uint_dec [simp]: "n < 2 ^ width \<Longrightarrow> parse_uint width (dec_of_nat n) = Some n"
proof -
  assume n: "n < 2 ^ width"
  obtain c r where cr: "dec_of_nat n = c # r" by (cases "dec_of_nat n") auto
  have "c \<noteq> CHR ''+''" using dec_of_nat_no_plus [of n] cr by simp
  moreover have "list_all is_digit_char (c # r)" using dec_of_nat_digits [of n] cr by simp
  moreover have "digits_value (c # r) = n" using digits_value_dec [of n] cr by simp
  ultimately show ?thesis using n by (simp add: parse_uint_def cr)
qed

lemma dec_of_nat_inject [simp]: "dec_of_nat m = dec_of_nat n \<longleftrightarrow> m = n"
  by (metis digits_value_dec)

lemma rust_str_dec [simp]: "rust_str (dec_of_nat n)"
  using dec_of_nat_digits [of n]
  by (intro rust_str_ascii) (fastforce simp: list_all_iff is_digit_char_def)

lemma parse_uint_bound: "parse_uint width s = Some n \<Longrightarrow> n < 2 ^ width"
  by (auto simp: parse_uint_def Let_def split: if_splits)

lemma take_drop_split: "a \<le> b \<Longrightarrow> take (b - a) (drop a xs) @ drop b xs = drop a xs"
  by (metis append_take_drop_id drop_drop le_add_diff_inverse2)

end
