(* ===== verification/Json_Value.thy ===== *)
theory Json_Value
  imports Prelude
begin

text \<open>
  The data type \<open>serde_json::Value\<close> that every part of the server pattern-matches on, with
  the documented accessors the sources call. The crate is used without its
  \<open>preserve_order\<close> and \<open>arbitrary_precision\<close> features (see the manifests), so an object is a
  map ordered by key and a number is an unsigned, a negative or a finite floating value.
  The crate's text parser and printer are not modelled; the definitions that need them take
  them as arguments.
\<close>

datatype number = PosInt u64 | NegInt i64 | Float f64

datatype "value" =
    Null
  | Bool bool
  | Number number
  | String string
  | Array "value list"
  | Object "(string \<times> value) list"

type_synonym jmap = "(string \<times> value) list"

subsection \<open>Numbers\<close>

definition i64_neg :: "i64 \<Rightarrow> bool" where
  "i64_neg i \<longleftrightarrow> 2 ^ 63 \<le> unat i"

definition f64_finite :: "f64 \<Rightarrow> bool" where
  "f64_finite f \<longleftrightarrow> (unat f div 2 ^ 52) mod 2048 \<noteq> 2047"

fun bit_width :: "nat \<Rightarrow> nat" where
  "bit_width n = (if n = 0 then 0 else Suc (bit_width (n div 2)))"

declare bit_width.simps [simp del]

text \<open>The cast \<open>n as f64\<close> of an unsigned integer: round to nearest, ties to even.\<close>

definition f64_of_nat :: "nat \<Rightarrow> nat" where
  "f64_of_nat n =
     (if n = 0 then 0 else
      let e = bit_width n - 1;
          m = (if e \<le> 52 then n * 2 ^ (52 - e)
               else let sh = e - 52; q = n div 2 ^ sh; r = n mod 2 ^ sh; half = 2 ^ (sh - 1)
                    in if half < r \<or> (r = half \<and> odd q) then q + 1 else q)
      in (e + 1023) * 2 ^ 52 + (m - 2 ^ 52))"

definition u64_as_f64 :: "u64 \<Rightarrow> f64" where
  "u64_as_f64 n = word_of_nat (f64_of_nat (unat n))"

definition i64_as_f64 :: "i64 \<Rightarrow> f64" where
  "i64_as_f64 i = (if i64_neg i then word_of_nat (2 ^ 63 + f64_of_nat (unat (- i)))
                   else u64_as_f64 i)"

fun number_as_i64 :: "number \<Rightarrow> i64 option" where
  "number_as_i64 (PosInt n) = (if unat n < 2 ^ 63 then Some n else None)"
| "number_as_i64 (NegInt i) = Some i"
| "number_as_i64 (Float f) = None"

fun number_as_u64 :: "number \<Rightarrow> u64 option" where
  "number_as_u64 (PosInt n) = Some n"
| "number_as_u64 (NegInt i) = None"
| "number_as_u64 (Float f) = None"

fun number_as_f64 :: "number \<Rightarrow> f64 option" where
  "number_as_f64 (PosInt n) = Some (u64_as_f64 n)"
| "number_as_f64 (NegInt i) = Some (i64_as_f64 i)"
| "number_as_f64 (Float f) = Some f"

text \<open>The macro \<open>json!\<close> on a number: a non-finite float becomes \<open>null\<close>.\<close>

definition json_i64 :: "i64 \<Rightarrow> value" where
  "json_i64 i = Number (if i64_neg i then NegInt i else PosInt i)"

definition json_u64 :: "u64 \<Rightarrow> value" where
  "json_u64 n = Number (PosInt n)"

definition json_f64 :: "f64 \<Rightarrow> value" where
  "json_f64 f = (if f64_finite f then Number (Float f) else Null)"

subsection \<open>Objects\<close>

fun jmap_insert :: "string \<Rightarrow> value \<Rightarrow> jmap \<Rightarrow> jmap" where
  "jmap_insert k v [] = [(k, v)]"
| "jmap_insert k v ((a, b) # m) =
     (if k < a then (k, v) # (a, b) # m
      else if k = a then (k, v) # m
      else (a, b) # jmap_insert k v m)"

definition jmap_sorted :: "jmap \<Rightarrow> bool" where
  "jmap_sorted m \<longleftrightarrow> sorted_wrt (<) (map fst m)"

text \<open>The macro \<open>json!({...})\<close>: the entries are inserted in the order written.\<close>

definition json_obj :: "(string \<times> value) list \<Rightarrow> value" where
  "json_obj kvs = Object (foldl (\<lambda>m (k, v). jmap_insert k v m) [] kvs)"

fun value_get :: "value \<Rightarrow> string \<Rightarrow> value option" where
  "value_get (Object m) k = map_of m k"
| "value_get _ k = None"

text \<open>Indexing \<open>v["key"]\<close>: null for a missing key or a value that is no object.\<close>

definition value_index :: "value \<Rightarrow> string \<Rightarrow> value" where
  "value_index v k = (case value_get v k of Some x \<Rightarrow> x | None \<Rightarrow> Null)"

text \<open>Assignment \<open>v["key"] = x\<close>: null turns into an object, a non-object panics.\<close>

fun value_set :: "value \<Rightarrow> string \<Rightarrow> value \<Rightarrow> value rust" where
  "value_set (Object m) k x = Ok (Object (jmap_insert k x m))"
| "value_set Null k x = Ok (Object [(k, x)])"
| "value_set _ k x = Panic"

fun as_str :: "value \<Rightarrow> string option" where
  "as_str (String s) = Some s"
| "as_str _ = None"

fun as_u64 :: "value \<Rightarrow> u64 option" where
  "as_u64 (Number n) = number_as_u64 n"
| "as_u64 _ = None"

fun as_f64 :: "value \<Rightarrow> f64 option" where
  "as_f64 (Number n) = number_as_f64 n"
| "as_f64 _ = None"

definition is_null :: "value \<Rightarrow> bool" where
  "is_null v \<longleftrightarrow> v = Null"

definition is_array :: "value \<Rightarrow> bool" where
  "is_array v \<longleftrightarrow> (case v of Array _ \<Rightarrow> True | _ \<Rightarrow> False)"

definition str_or :: "value \<Rightarrow> string \<Rightarrow> string" where
  "str_or v d = (case as_str v of Some s \<Rightarrow> s | None \<Rightarrow> d)"

subsection \<open>The invariant of the type\<close>

fun number_ok :: "number \<Rightarrow> bool" where
  "number_ok (PosInt n) = True"
| "number_ok (NegInt i) = i64_neg i"
| "number_ok (Float f) = f64_finite f"

fun value_ok :: "value \<Rightarrow> bool" and values_ok :: "value list \<Rightarrow> bool"
  and entries_ok :: "jmap \<Rightarrow> bool" where
  "value_ok Null = True"
| "value_ok (Bool b) = True"
| "value_ok (Number n) = number_ok n"
| "value_ok (String s) = rust_str s"
| "value_ok (Array xs) = values_ok xs"
| "value_ok (Object m) = (jmap_sorted m \<and> entries_ok m)"
| "values_ok [] = True"
| "values_ok (x # xs) = (value_ok x \<and> values_ok xs)"
| "entries_ok [] = True"
| "entries_ok ((k, v) # m) = (rust_str k \<and> value_ok v \<and> entries_ok m)"

text \<open>Nesting depth below the root, as the TLV walkers count it.\<close>

fun value_depth :: "value \<Rightarrow> nat" and values_depth :: "value list \<Rightarrow> nat"
  and entries_depth :: "jmap \<Rightarrow> nat" where
  "value_depth (Array xs) = values_depth xs"
| "value_depth (Object m) = entries_depth m"
| "value_depth _ = 0"
| "values_depth [] = 0"
| "values_depth (x # xs) = max (Suc (value_depth x)) (values_depth xs)"
| "entries_depth [] = 0"
| "entries_depth ((k, v) # m) = max (Suc (value_depth v)) (entries_depth m)"

subsection \<open>Facts on maps\<close>

lemma map_of_jmap_insert [simp]: "map_of (jmap_insert k v m) = (map_of m)(k \<mapsto> v)"
  by (induction k v m rule: jmap_insert.induct) auto

lemma jmap_insert_keys [simp]: "fst ` set (jmap_insert k v m) = insert k (fst ` set m)"
  by (induction k v m rule: jmap_insert.induct) auto

lemma jmap_insert_sorted: "jmap_sorted m \<Longrightarrow> jmap_sorted (jmap_insert k v m)"
proof (induction k v m rule: jmap_insert.induct)
  case (1 k v)
  then show ?case by (simp add: jmap_sorted_def)
next
  case (2 k v a b m)
  have keys: "set (map fst (jmap_insert k v m)) = insert k (fst ` set m)"
    by simp
  from 2 show ?case
    by (auto simp: jmap_sorted_def keys not_less order.strict_iff_order intro: order_trans)
qed

lemma jmap_sorted_snoc:
  "jmap_sorted (m @ [(k, v)]) \<longleftrightarrow> jmap_sorted m \<and> (\<forall>a \<in> fst ` set m. a < k)"
  by (simp add: jmap_sorted_def sorted_wrt_append)

lemma jmap_insert_last: "\<forall>a \<in> fst ` set m. a < k \<Longrightarrow> jmap_insert k v m = m @ [(k, v)]"
  by (induction k v m rule: jmap_insert.induct) (auto dest: less_not_sym)

lemma jmap_sorted_Nil [simp]: "jmap_sorted []"
  by (simp add: jmap_sorted_def)

lemma json_obj_sorted: "jmap_sorted (foldl (\<lambda>m (k, v). jmap_insert k v m) m0 kvs)"
  if "jmap_sorted m0"
  using that by (induction kvs arbitrary: m0) (auto intro: jmap_insert_sorted)

lemma entries_ok_insert: "entries_ok (jmap_insert k v m)"
  if "entries_ok m" "rust_str k" "value_ok v"
  using that by (induction k v m rule: jmap_insert.induct) auto

lemma entries_ok_append [simp]: "entries_ok (m @ n) \<longleftrightarrow> entries_ok m \<and> entries_ok n"
  by (induction m) auto

lemma values_ok_append [simp]: "values_ok (xs @ ys) \<longleftrightarrow> values_ok xs \<and> values_ok ys"
  by (induction xs) auto

lemma value_ok_json_numbers [simp]: "value_ok (json_i64 i)" "value_ok (json_u64 n)" "value_ok (json_f64 f)"
  by (simp_all add: json_i64_def json_u64_def json_f64_def)

lemma number_as_f64_total: "number_as_f64 n \<noteq> None"
  by (cases n) simp_all

text \<open>
  Looking a key up in an object built by \<open>json!\<close>: the last entry written for the key wins.
\<close>

lemma map_of_foldl_insert:
  "map_of (foldl (\<lambda>m (k, v). jmap_insert k v m) m0 kvs) k =
     (case map_of (rev kvs) k of Some v \<Rightarrow> Some v | None \<Rightarrow> map_of m0 k)"
  by (induction kvs arbitrary: m0) (auto split: option.splits)

lemma value_get_json_obj [simp]: "value_get (json_obj kvs) k = map_of (rev kvs) k"
  by (simp add: json_obj_def map_of_foldl_insert split: option.splits)

lemma value_index_json_obj [simp]:
  "value_index (json_obj kvs) k = (case map_of (rev kvs) k of Some x \<Rightarrow> x | None \<Rightarrow> Null)"
  by (simp add: value_index_def)

end
