(* ===== verification/Tlv_Codec.thy ===== *)
theory Tlv_Codec
  imports Json_Value
begin

text \<open>
  The tag-length-value codec of \<open>protocol/nda_native.rs\<close>: the encoder and decoder of JSON
  values, the in-place walker \<open>skip_tlv_value\<close>, and the two field extractors that work on
  encoded objects without building a value. The wire format itself is stated once, as the
  function \<open>tlv\<close>; the encoder appends exactly that image, the decoder inverts it, the walker
  measures it, and no decoder or walker can panic on any input.
\<close>

subsection \<open>Encoding\<close>

definition len_u32 :: "nat \<Rightarrow> bytes" where
  "len_u32 n = u32_to_be_bytes (word_of_nat n)"

definition len_u16 :: "nat \<Rightarrow> bytes" where
  "len_u16 n = u16_to_be_bytes (word_of_nat n)"

definition encode_number :: "number \<Rightarrow> bytes" where
  "encode_number n =
     (case number_as_i64 n of
        Some i \<Rightarrow> [0x02] @ u64_to_be_bytes i
      | None \<Rightarrow> (case number_as_f64 n of
          Some f \<Rightarrow> [0x07] @ u64_to_be_bytes f
        | None \<Rightarrow> [0x02] @ u64_to_be_bytes 0))"

definition key_too_long :: string where
  "key_too_long = ''JSON key exceeds maximum length of '' @ dec_of_nat 65535 @ '' bytes''"

text \<open>
  The buffer is threaded through: on an error the bytes already appended stay in it, as in
  the source, where two callers go on to use the buffer after a failed call.
\<close>

fun encode_json_value :: "value \<Rightarrow> bytes \<Rightarrow> bytes \<times> unit rust"
  and encode_items :: "value list \<Rightarrow> bytes \<Rightarrow> bytes \<times> unit rust"
  and encode_entries :: "jmap \<Rightarrow> bytes \<Rightarrow> bytes \<times> unit rust" where
  "encode_json_value (String s) buf =
     (buf @ [0x01] @ len_u32 (length s) @ as_bytes s, Ok ())"
| "encode_json_value (Number n) buf = (buf @ encode_number n, Ok ())"
| "encode_json_value (Bool b) buf = (buf @ [0x03] @ [if b then 1 else 0], Ok ())"
| "encode_json_value Null buf = (buf @ [0x04], Ok ())"
| "encode_json_value (Array arr) buf =
     encode_items arr (buf @ [0x05] @ len_u32 (length arr))"
| "encode_json_value (Object obj) buf =
     encode_entries obj (buf @ [0x06] @ len_u32 (length obj))"
| "encode_items [] buf = (buf, Ok ())"
| "encode_items (item # arr) buf =
     (case encode_json_value item buf of
        (buf', Ok _) \<Rightarrow> encode_items arr buf'
      | (buf', e) \<Rightarrow> (buf', e))"
| "encode_entries [] buf = (buf, Ok ())"
| "encode_entries ((key, val) # obj) buf =
     (if length key > 65535 then (buf, Err key_too_long)
      else (case encode_json_value val (buf @ len_u16 (length key) @ as_bytes key) of
              (buf', Ok _) \<Rightarrow> encode_entries obj buf'
            | (buf', e) \<Rightarrow> (buf', e)))"

subsection \<open>Decoding\<close>

definition TLV_MAX_DEPTH :: nat where
  [simp]: "TLV_MAX_DEPTH = 32"

definition TLV_MAX_STRING_LEN :: nat where
  [simp]: "TLV_MAX_STRING_LEN = 10000000"

definition TLV_MAX_ELEMENTS :: nat where
  [simp]: "TLV_MAX_ELEMENTS = 100000"

text \<open>An array literal of indexed bytes, \<open>[buf[i], buf[j], ...]\<close>.\<close>

definition rs_array :: "bytes \<Rightarrow> nat list \<Rightarrow> bytes rust" where
  "rs_array buf is = (if list_all (\<lambda>i. i < length buf) is then Ok (map (\<lambda>i. buf ! i) is) else Panic)"

definition decode_tlv_string :: "bytes \<Rightarrow> (value \<times> nat) rust" where
  "decode_tlv_string buf =
     (if length buf < 5 then Err ''TLV string: missing length''
      else rbind (rs_array buf [1, 2, 3, 4]) (\<lambda>b.
        let len = unat (u32_from_be_bytes b) in
        if len > TLV_MAX_STRING_LEN then
          Err (''TLV string length '' @ dec_of_nat len @ '' exceeds maximum ''
               @ dec_of_nat TLV_MAX_STRING_LEN)
        else if length buf < 5 + len then Err ''TLV string: truncated data''
        else rbind (rs_slice buf 5 (5 + len)) (\<lambda>raw.
          rbind (str_from_utf8 raw) (\<lambda>s. Ok (String s, 5 + len)))))"

definition decode_tlv_integer :: "bytes \<Rightarrow> (value \<times> nat) rust" where
  "decode_tlv_integer buf =
     (if length buf < 9 then Err ''TLV integer: missing data''
      else rbind (rs_array buf [1, 2, 3, 4, 5, 6, 7, 8]) (\<lambda>b.
        Ok (json_i64 (u64_from_be_bytes b), 9)))"

definition decode_tlv_float :: "bytes \<Rightarrow> (value \<times> nat) rust" where
  "decode_tlv_float buf =
     (if length buf < 9 then Err ''TLV float: missing data''
      else rbind (rs_array buf [1, 2, 3, 4, 5, 6, 7, 8]) (\<lambda>b.
        Ok (json_f64 (u64_from_be_bytes b), 9)))"

definition decode_tlv_bool :: "bytes \<Rightarrow> (value \<times> nat) rust" where
  "decode_tlv_bool buf =
     (if length buf < 2 then Err ''TLV bool: missing data''
      else rbind (rs_index buf 1) (\<lambda>b. Ok (Bool (b \<noteq> 0), 2)))"

definition decode_tlv_count :: "string \<Rightarrow> bytes \<Rightarrow> nat rust" where
  "decode_tlv_count kind buf =
     (if length buf < 5 then Err (''TLV '' @ kind @ '': missing count'')
      else rbind (rs_array buf [1, 2, 3, 4]) (\<lambda>b.
        let count = unat (u32_from_be_bytes b) in
        if count > TLV_MAX_ELEMENTS then
          Err (''TLV '' @ kind @ '' count '' @ dec_of_nat count @ '' exceeds maximum ''
               @ dec_of_nat TLV_MAX_ELEMENTS)
        else Ok count))"

text \<open>The loops over the elements of a container, with the element decoder as an argument.\<close>

primrec decode_array_loop ::
  "(bytes \<Rightarrow> (value \<times> nat) rust) \<Rightarrow> nat \<Rightarrow> bytes \<Rightarrow> value list \<Rightarrow> nat \<Rightarrow> (value \<times> nat) rust" where
  "decode_array_loop dec 0 buf items offset = Ok (Array items, offset)"
| "decode_array_loop dec (Suc n) buf items offset =
     rbind (rs_slice_from buf offset) (\<lambda>rest.
       rbind (dec rest) (\<lambda>(val, consumed).
         decode_array_loop dec n buf (items @ [val]) (offset + consumed)))"

primrec decode_object_loop ::
  "(bytes \<Rightarrow> (value \<times> nat) rust) \<Rightarrow> nat \<Rightarrow> bytes \<Rightarrow> jmap \<Rightarrow> nat \<Rightarrow> (value \<times> nat) rust" where
  "decode_object_loop dec 0 buf m offset = Ok (Object m, offset)"
| "decode_object_loop dec (Suc n) buf m offset =
     (if offset + 2 > length buf then Err ''TLV object: missing key length''
      else rbind (rs_array buf [offset, offset + 1]) (\<lambda>kb.
        let key_len = unat (u16_from_be_bytes kb); offset = offset + 2 in
        if offset + key_len > length buf then Err ''TLV object: truncated key''
        else rbind (rs_slice buf offset (offset + key_len)) (\<lambda>raw.
          rbind (str_from_utf8 raw) (\<lambda>key.
            let offset = offset + key_len in
            rbind (rs_slice_from buf offset) (\<lambda>rest.
              rbind (dec rest) (\<lambda>(val, consumed).
                decode_object_loop dec n buf (jmap_insert key val m) (offset + consumed)))))))"

function decode_json_value_inner :: "bytes \<Rightarrow> nat \<Rightarrow> (value \<times> nat) rust" where
  "decode_json_value_inner buf depth =
     (if depth > TLV_MAX_DEPTH then
        Err (''TLV nesting depth exceeds maximum '' @ dec_of_nat TLV_MAX_DEPTH)
      else if buf = [] then Err ''Unexpected end of TLV buffer''
      else rbind (rs_index buf 0) (\<lambda>tag.
        if tag = 0x01 then decode_tlv_string buf
        else if tag = 0x02 then decode_tlv_integer buf
        else if tag = 0x07 then decode_tlv_float buf
        else if tag = 0x03 then decode_tlv_bool buf
        else if tag = 0x04 then Ok (Null, 1)
        else if tag = 0x05 then
          rbind (decode_tlv_count ''array'' buf) (\<lambda>count.
            decode_array_loop (\<lambda>rest. decode_json_value_inner rest (depth + 1)) count buf [] 5)
        else if tag = 0x06 then
          rbind (decode_tlv_count ''object'' buf) (\<lambda>count.
            decode_object_loop (\<lambda>rest. decode_json_value_inner rest (depth + 1)) count buf [] 5)
        else Err (''Unknown TLV type tag: 0x'' @ hex02 tag)))"
  by pat_completeness auto
termination
  by (relation "measure (\<lambda>(buf, depth). 33 - depth)") auto

declare decode_json_value_inner.simps [simp del]

definition decode_json_value :: "bytes \<Rightarrow> (value \<times> nat) rust" where
  "decode_json_value buf = decode_json_value_inner buf 0"

subsection \<open>Walking in place\<close>

definition skip_tlv_count :: "string \<Rightarrow> bytes \<Rightarrow> nat rust" where
  "skip_tlv_count kind bs =
     (if length bs < 5 then Err (''TLV skip: truncated '' @ kind @ '' count'')
      else rbind (rs_slice bs 1 5) (\<lambda>b.
        let count = unat (u32_from_be_bytes b) in
        if count > TLV_MAX_ELEMENTS then
          Err (''TLV skip: '' @ kind @ '' count '' @ dec_of_nat count @ '' exceeds maximum ''
               @ dec_of_nat TLV_MAX_ELEMENTS)
        else Ok count))"

definition skip_tlv_string :: "bytes \<Rightarrow> nat rust" where
  "skip_tlv_string bs =
     (if length bs < 5 then Err ''TLV skip: truncated string length''
      else rbind (rs_slice bs 1 5) (\<lambda>b.
        let len = unat (u32_from_be_bytes b) in
        if len > TLV_MAX_STRING_LEN then
          Err (''TLV skip: string length '' @ dec_of_nat len @ '' exceeds maximum ''
               @ dec_of_nat TLV_MAX_STRING_LEN)
        else if length bs < 5 + len then Err ''TLV skip: truncated string body''
        else Ok (5 + len)))"

primrec skip_array_loop :: "(bytes \<Rightarrow> nat rust) \<Rightarrow> nat \<Rightarrow> bytes \<Rightarrow> nat \<Rightarrow> nat rust" where
  "skip_array_loop skip 0 bs off = Ok off"
| "skip_array_loop skip (Suc n) bs off =
     rbind (rs_slice_from bs off) (\<lambda>rest.
       rbind (skip rest) (\<lambda>consumed. skip_array_loop skip n bs (off + consumed)))"

primrec skip_object_loop :: "(bytes \<Rightarrow> nat rust) \<Rightarrow> nat \<Rightarrow> bytes \<Rightarrow> nat \<Rightarrow> nat rust" where
  "skip_object_loop skip 0 bs off = Ok off"
| "skip_object_loop skip (Suc n) bs off =
     (if length bs < off + 2 then Err ''TLV skip: truncated key length''
      else rbind (rs_slice bs off (off + 2)) (\<lambda>kb.
        let klen = unat (u16_from_be_bytes kb); off = off + (2 + klen) in
        if length bs < off then Err ''TLV skip: truncated key''
        else rbind (rs_slice_from bs off) (\<lambda>rest.
          rbind (skip rest) (\<lambda>consumed. skip_object_loop skip n bs (off + consumed)))))"

function skip_tlv_value_inner :: "bytes \<Rightarrow> nat \<Rightarrow> nat rust" where
  "skip_tlv_value_inner bs depth =
     (if depth > TLV_MAX_DEPTH then
        Err (''TLV skip: nesting depth exceeds maximum '' @ dec_of_nat TLV_MAX_DEPTH)
      else if bs = [] then Err ''TLV skip: empty value''
      else rbind (rs_index bs 0) (\<lambda>tag.
        if tag = 0x01 then skip_tlv_string bs
        else if tag = 0x02 \<or> tag = 0x07 then
          (if length bs < 9 then Err ''TLV skip: truncated number'' else Ok 9)
        else if tag = 0x03 then
          (if length bs < 2 then Err ''TLV skip: truncated bool'' else Ok 2)
        else if tag = 0x04 then Ok 1
        else if tag = 0x05 then
          rbind (skip_tlv_count ''array'' bs) (\<lambda>count.
            skip_array_loop (\<lambda>rest. skip_tlv_value_inner rest (depth + 1)) count bs 5)
        else if tag = 0x06 then
          rbind (skip_tlv_count ''object'' bs) (\<lambda>count.
            skip_object_loop (\<lambda>rest. skip_tlv_value_inner rest (depth + 1)) count bs 5)
        else Err (''TLV skip: unknown tag 0x'' @ hex02 tag)))"
  by pat_completeness auto
termination
  by (relation "measure (\<lambda>(bs, depth). 33 - depth)") auto

declare skip_tlv_value_inner.simps [simp del]

definition skip_tlv_value :: "bytes \<Rightarrow> nat rust" where
  "skip_tlv_value bs = skip_tlv_value_inner bs 0"

subsection \<open>Extracting fields\<close>

text \<open>
  The loop of \<open>extract_tools_call_fields\<close>: the last string under \<open>name\<close> and the last value
  under \<open>arguments\<close> win; a \<open>name\<close> that is no string leaves the earlier one in place, and a
  string whose bytes are not UTF-8 resets it.
\<close>

primrec extract_tools_call_loop ::
  "nat \<Rightarrow> bytes \<Rightarrow> nat \<Rightarrow> string option \<Rightarrow> bytes option \<Rightarrow> (string option \<times> bytes option) rust" where
  "extract_tools_call_loop 0 data off name args = Ok (name, args)"
| "extract_tools_call_loop (Suc n) data off name args =
     (if length data < off + 2 then Err ''tools/call data: truncated key length''
      else rbind (rs_slice data off (off + 2)) (\<lambda>kb.
        let klen = unat (u16_from_be_bytes kb); off = off + 2 in
        if length data < off + klen then Err ''tools/call data: truncated key''
        else rbind (rs_slice data off (off + klen)) (\<lambda>key.
          let off = off + klen in
          rbind (rs_slice_from data off) (\<lambda>rest.
            rbind (skip_tlv_value rest) (\<lambda>vlen.
              rbind (rs_slice data off (off + vlen)) (\<lambda>val.
                let off = off + vlen in
                if key = as_bytes ''name'' then
                  (if length val \<ge> 5 \<and> val ! 0 = 0x01
                   then (case str_from_utf8 (drop 5 val) of
                           Ok s \<Rightarrow> extract_tools_call_loop n data off (Some s) args
                         | _ \<Rightarrow> extract_tools_call_loop n data off None args)
                   else extract_tools_call_loop n data off name args)
                else if key = as_bytes ''arguments''
                then extract_tools_call_loop n data off name (Some val)
                else extract_tools_call_loop n data off name args))))))"

definition extract_tools_call_fields :: "bytes \<Rightarrow> (string option \<times> bytes option) rust" where
  "extract_tools_call_fields data =
     (if data = [] \<or> data ! 0 \<noteq> 0x06 then Ok (None, None)
      else if length data < 5 then Err ''tools/call data: truncated object count''
      else rbind (rs_slice data 1 5) (\<lambda>b.
        extract_tools_call_loop (unat (u32_from_be_bytes b)) data 5 None None))"

primrec extract_tlv_field_loop :: "nat \<Rightarrow> bytes \<Rightarrow> bytes \<Rightarrow> nat \<Rightarrow> bytes option rust" where
  "extract_tlv_field_loop 0 data target_key off = Ok None"
| "extract_tlv_field_loop (Suc n) data target_key off =
     (if length data < off + 2 then Err ''truncated key length''
      else rbind (rs_slice data off (off + 2)) (\<lambda>kb.
        let klen = unat (u16_from_be_bytes kb); off = off + 2 in
        if length data < off + klen then Err ''truncated key''
        else rbind (rs_slice data off (off + klen)) (\<lambda>key.
          let off = off + klen in
          rbind (rs_slice_from data off) (\<lambda>rest.
            rbind (skip_tlv_value rest) (\<lambda>val_len.
              if length data < off + val_len then Err ''truncated value''
              else if key = target_key
              then rbind (rs_slice data off (off + val_len)) (\<lambda>v. Ok (Some v))
              else extract_tlv_field_loop n data target_key (off + val_len))))))"

definition extract_tlv_field :: "bytes \<Rightarrow> bytes \<Rightarrow> bytes option rust" where
  "extract_tlv_field data target_key =
     (if data = [] \<or> data ! 0 \<noteq> 0x06 then Ok None
      else if length data < 5 then Err ''truncated object''
      else rbind (rs_slice data 1 5) (\<lambda>b.
        extract_tlv_field_loop (unat (u32_from_be_bytes b)) data target_key 5))"

end
