(* ===== verification/Codec_Interface.thy ===== *)
theory Codec_Interface
  imports Prelude
begin

text \<open>
  The contract every binary codec of the program keeps towards its callers: what the encoder
  wrote is read back exactly, whatever bytes follow, and the decoder reports how many bytes it
  consumed. Frame parsers rely on it to find the next field. The consequences below are proved
  once and reused for each codec through its interpretation.
\<close>

locale prefix_codec =
  fixes enc :: "'a \<Rightarrow> bytes"
    and dec :: "bytes \<Rightarrow> ('a \<times> nat) rust"
    and encodable :: "'a \<Rightarrow> bool"
  assumes dec_enc: "encodable x \<Longrightarrow> dec (enc x @ rest) = Ok (x, length (enc x))"
begin

lemma dec_enc_exact: "encodable x \<Longrightarrow> dec (enc x) = Ok (x, length (enc x))"
  using dec_enc [of x "[]"] by simp

lemma unambiguous:
  assumes "encodable x" "encodable y" "enc x @ r = enc y @ s"
  shows "x = y \<and> r = s"
proof -
  have "Ok (x, length (enc x)) = Ok (y, length (enc y))"
    using dec_enc [OF assms(1), of r] dec_enc [OF assms(2), of s] assms(3) by simp
  then show ?thesis using assms(3) by simp
qed

lemma enc_inject: "encodable x \<Longrightarrow> encodable y \<Longrightarrow> enc x = enc y \<longleftrightarrow> x = y"
  using unambiguous [of x y "[]" "[]"] by auto

lemma dec_second:
  assumes "encodable x" "encodable y" "dec (enc x @ enc y @ rest) = Ok (x', n)"
  shows "dec (drop n (enc x @ enc y @ rest)) = Ok (y, length (enc y))"
proof -
  have "n = length (enc x)" using dec_enc [OF assms(1), of "enc y @ rest"] assms(3) by simp
  then show ?thesis using dec_enc [OF assms(2)] by simp
qed

end

text \<open>
  The contract of a walker towards the reference decoder it replaces: it consumes what the
  decoder consumes.
\<close>

locale codec_with_skip = prefix_codec enc dec encodable
  for enc :: "'a \<Rightarrow> bytes" and dec and encodable +
  fixes skip :: "bytes \<Rightarrow> nat rust"
  assumes skip_dec: "dec buf = Ok (x, n) \<Longrightarrow> skip buf = Ok n"
    and dec_bound: "dec buf = Ok (x, n) \<Longrightarrow> 0 < n \<and> n \<le> length buf"
begin

lemma skip_enc: "encodable x \<Longrightarrow> skip (enc x @ rest) = Ok (length (enc x))"
  by (rule skip_dec [OF dec_enc])

lemma enc_nonempty: "encodable x \<Longrightarrow> 0 < length (enc x)"
  using dec_bound [OF dec_enc [of x "[]"]] by simp

text \<open>Skipping a field and slicing it out yields exactly its image.\<close>

lemma skip_slice:
  "encodable x \<Longrightarrow> skip (enc x @ rest) = Ok n \<Longrightarrow> take n (enc x @ rest) = enc x \<and> drop n (enc x @ rest) = rest"
  using skip_enc [of x rest] by simp

end

end
