(* ===== verification/Tlv_Laws.thy ===== *)
theory Tlv_Laws
  imports Tlv_Codec Codec_Interface
begin

text \<open>
  Correctness of the TLV codec. \<open>tlv\<close> is the wire format as a function of the value;
  \<open>tlv_fits\<close> collects the limits within which the format can carry a value.
\<close>

subsection \<open>The wire format\<close>

fun tlv :: "value \<Rightarrow> bytes" and tlv_items :: "value list \<Rightarrow> bytes"
  and tlv_entries :: "jmap \<Rightarrow> bytes" where
  "tlv (String s) = [0x01] @ len_u32 (length s) @ as_bytes s"
| "tlv (Number n) = encode_number n"
| "tlv (Bool b) = [0x03, if b then 1 else 0]"
| "tlv Null = [0x04]"
| "tlv (Array xs) = [0x05] @ len_u32 (length xs) @ tlv_items xs"
| "tlv (Object m) = [0x06] @ len_u32 (length m) @ tlv_entries m"
| "tlv_items [] = []"
| "tlv_items (x # xs) = tlv x @ tlv_items xs"
| "tlv_entries [] = []"
| "tlv_entries ((k, v) # m) = len_u16 (length k) @ as_bytes k @ tlv v @ tlv_entries m"

fun keys_fit :: "value \<Rightarrow> bool" and keys_fit_items :: "value list \<Rightarrow> bool"
  and keys_fit_entries :: "jmap \<Rightarrow> bool" where
  "keys_fit (Array xs) = keys_fit_items xs"
| "keys_fit (Object m) = keys_fit_entries m"
| "keys_fit _ = True"
| "keys_fit_items [] = True"
| "keys_fit_items (x # xs) = (keys_fit x \<and> keys_fit_items xs)"
| "keys_fit_entries [] = True"
| "keys_fit_entries ((k, v) # m) = (length k \<le> 65535 \<and> keys_fit v \<and> keys_fit_entries m)"

fun tlv_fits :: "value \<Rightarrow> bool" and tlv_fits_items :: "value list \<Rightarrow> bool"
  and tlv_fits_entries :: "jmap \<Rightarrow> bool" where
  "tlv_fits (String s) = (length s \<le> TLV_MAX_STRING_LEN)"
| "tlv_fits (Number (PosInt n)) = (unat n < 2 ^ 63)"
| "tlv_fits (Array xs) = (length xs \<le> TLV_MAX_ELEMENTS \<and> tlv_fits_items xs)"
| "tlv_fits (Object m) = (length m \<le> TLV_MAX_ELEMENTS \<and> tlv_fits_entries m)"
| "tlv_fits _ = True"
| "tlv_fits_items [] = True"
| "tlv_fits_items (x # xs) = (tlv_fits x \<and> tlv_fits_items xs)"
| "tlv_fits_entries [] = True"
| "tlv_fits_entries ((k, v) # m) = (length k \<le> 65535 \<and> tlv_fits v \<and> tlv_fits_entries m)"

text \<open>A value the codec carries: within its limits, and nested at most 32 levels deep.\<close>

definition tlv_encodable :: "value \<Rightarrow> bool" where
  "tlv_encodable v \<longleftrightarrow> value_ok v \<and> tlv_fits v \<and> value_depth v \<le> TLV_MAX_DEPTH"

subsection \<open>The encoder\<close>

lemma tlv_fits_keys_fit:
  "tlv_fits v \<Longrightarrow> keys_fit v"
  "tlv_fits_items xs \<Longrightarrow> keys_fit_items xs"
  "tlv_fits_entries m \<Longrightarrow> keys_fit_entries m"
  by (induction v and xs and m rule: tlv_fits_tlv_fits_items_tlv_fits_entries.induct) auto

lemma encode_fits:
  "keys_fit v \<Longrightarrow> encode_json_value v buf = (buf @ tlv v, Ok ())"
  "keys_fit_items xs \<Longrightarrow> encode_items xs buf = (buf @ tlv_items xs, Ok ())"
  "keys_fit_entries m \<Longrightarrow> encode_entries m buf = (buf @ tlv_entries m, Ok ())"
  by (induction v buf and xs buf and m buf
      rule: encode_json_value_encode_items_encode_entries.induct) auto

lemma encode_overlong:
  "\<not> keys_fit v \<Longrightarrow> \<exists>p. encode_json_value v buf = (buf @ p, Err key_too_long)"
  "\<not> keys_fit_items xs \<Longrightarrow> \<exists>p. encode_items xs buf = (buf @ p, Err key_too_long)"
  "\<not> keys_fit_entries m \<Longrightarrow> \<exists>p. encode_entries m buf = (buf @ p, Err key_too_long)"
proof (induction v buf and xs buf and m buf
    rule: encode_json_value_encode_items_encode_entries.induct)
  case (8 item arr buf)
  show ?case
  proof (cases "keys_fit item")
    case True
    with 8 show ?thesis by (force simp: encode_fits)
  next
    case False
    with 8(1) show ?thesis by auto
  qed
next
  case (10 key val obj buf)
  show ?case
  proof (cases "length key > 65535 \<or> \<not> keys_fit val")
    case True
    with 10(1) show ?thesis by auto
  next
    case False
    with 10 show ?thesis by (force simp: encode_fits)
  qed
qed auto

subsection \<open>Reading lengths back\<close>

lemma list4: "length bs = 4 \<Longrightarrow> \<exists>a b c d. bs = [a, b, c, d]"
  by (auto simp: length_Suc_conv numeral_eq_Suc)

lemma rs_array_len [rust_simps]:
  "length l = 4 \<Longrightarrow> rs_array (t # l @ r) [Suc 0, 2, 3, 4] = Ok l"
  by (drule list4) (auto simp: rs_array_def)

lemma rs_array_len8 [rust_simps]:
  "length l = 8 \<Longrightarrow> rs_array (t # l @ r) [Suc 0, 2, 3, 4, 5, 6, 7, 8] = Ok l"
  by (auto simp: rs_array_def length_Suc_conv numeral_eq_Suc)

lemma len_u32_length [simp]: "length (len_u32 n) = 4"
  by (simp add: len_u32_def)

lemma len_u16_length [simp]: "length (len_u16 n) = 2"
  by (simp add: len_u16_def)

lemma len_u32_read [simp]: "n < 2 ^ 32 \<Longrightarrow> unat (u32_from_be_bytes (len_u32 n)) = n"
  by (simp add: len_u32_def unat_of_nat)

lemma len_u16_read [simp]: "n < 2 ^ 16 \<Longrightarrow> unat (u16_from_be_bytes (len_u16 n)) = n"
  by (simp add: len_u16_def unat_of_nat)

lemma rs_array_pair [rust_simps]:
  assumes "length l = 2"
  shows "rs_array (pre @ l @ r) [length pre, Suc (length pre)] = Ok l"
proof -
  obtain a b where "l = [a, b]" using assms by (auto simp: length_Suc_conv numeral_eq_Suc)
  then show ?thesis by (simp add: rs_array_def nth_append)
qed

lemma rs_slice_mid [rust_simps]:
  "length l = n \<Longrightarrow> rs_slice (pre @ l @ r) (length pre) (length pre + n) = Ok l"
  by (simp add: rs_slice_def)

lemma rs_slice_from_mid [rust_simps]: "rs_slice_from (pre @ r) (length pre) = Ok r"
  by (simp add: rs_slice_from_def)

subsection \<open>Decoding inverts the wire format\<close>

lemma decode_string_tlv:
  assumes "rust_str s" "length s \<le> TLV_MAX_STRING_LEN"
  shows "decode_tlv_string (0x01 # len_u32 (length s) @ as_bytes s @ rest) = Ok (String s, 5 + length s)"
proof -
  have len: "unat (u32_from_be_bytes (len_u32 (length s))) = length s"
    using assms(2) by simp
  have sl: "rs_slice ((0x01 # len_u32 (length s)) @ as_bytes s @ rest) 5 (5 + length s) = Ok (as_bytes s)"
    using rs_slice_mid [of "as_bytes s" "length s" "0x01 # len_u32 (length s)" rest] by simp
  from len sl assms show ?thesis
    by (simp add: decode_tlv_string_def rs_array_len)
qed

lemma decode_count_tlv:
  "n \<le> TLV_MAX_ELEMENTS \<Longrightarrow> decode_tlv_count kind (t # len_u32 n @ rest) = Ok n"
  by (simp add: decode_tlv_count_def rs_array_len)

lemma decode_array_loop_tlv:
  assumes "\<And>x rest. x \<in> set xs \<Longrightarrow> dec (tlv x @ rest) = Ok (x, length (tlv x))"
  shows "decode_array_loop dec (length xs) (pre @ tlv_items xs @ rest) items (length pre)
           = Ok (Array (items @ xs), length pre + length (tlv_items xs))"
  using assms
proof (induction xs arbitrary: pre items)
  case Nil
  then show ?case by simp
next
  case (Cons x xs)
  have x: "dec (tlv x @ tlv_items xs @ rest) = Ok (x, length (tlv x))"
    by (rule Cons.prems) simp
  have "decode_array_loop dec (length xs) ((pre @ tlv x) @ tlv_items xs @ rest) (items @ [x])
          (length (pre @ tlv x))
        = Ok (Array ((items @ [x]) @ xs), length (pre @ tlv x) + length (tlv_items xs))"
    by (rule Cons.IH) (simp add: Cons.prems)
  then show ?case by (simp add: rs_slice_from_mid x)
qed

lemma decode_object_loop_tlv:
  assumes "\<And>k v rest. (k, v) \<in> set obj \<Longrightarrow> dec (tlv v @ rest) = Ok (v, length (tlv v))"
    and "\<And>k v. (k, v) \<in> set obj \<Longrightarrow> rust_str k \<and> length k \<le> 65535"
    and "jmap_sorted (m @ obj)"
  shows "decode_object_loop dec (length obj) (pre @ tlv_entries obj @ rest) m (length pre)
           = Ok (Object (m @ obj), length pre + length (tlv_entries obj))"
  using assms
proof (induction obj arbitrary: pre m)
  case Nil
  then show ?case by simp
next
  case (Cons kv obj)
  obtain k v where kv: "kv = (k, v)" by (cases kv)
  let ?tail = "tlv v @ tlv_entries obj @ rest"
  let ?pre1 = "pre @ len_u16 (length k)"
  have v: "dec ?tail = Ok (v, length (tlv v))"
    by (rule Cons.prems(1) [of k]) (simp add: kv)
  have k: "rust_str k" "length k \<le> 65535" using Cons.prems(2) [of k v] by (auto simp: kv)
  have ins: "jmap_insert k v m = m @ [(k, v)]"
    using Cons.prems(3) by (intro jmap_insert_last) (auto simp: kv jmap_sorted_def sorted_wrt_append)
  have arr: "rs_array (pre @ len_u16 (length k) @ as_bytes k @ ?tail) [length pre, Suc (length pre)]
      = Ok (len_u16 (length k))"
    by (rule rs_array_pair) simp
  have sl: "rs_slice (pre @ len_u16 (length k) @ as_bytes k @ ?tail) (length pre + 2)
      (length pre + 2 + length k) = Ok (as_bytes k)"
    using rs_slice_mid [of "as_bytes k" "length k" ?pre1 ?tail] by simp
  have fr: "rs_slice_from (pre @ len_u16 (length k) @ as_bytes k @ ?tail) (length pre + 2 + length k)
      = Ok ?tail"
    using rs_slice_from_mid [of "?pre1 @ as_bytes k" ?tail] by simp
  have "decode_object_loop dec (length obj)
          ((?pre1 @ as_bytes k @ tlv v) @ tlv_entries obj @ rest) (m @ [(k, v)])
          (length (?pre1 @ as_bytes k @ tlv v))
        = Ok (Object ((m @ [(k, v)]) @ obj),
              length (?pre1 @ as_bytes k @ tlv v) + length (tlv_entries obj))"
  proof (rule Cons.IH)
    show "jmap_sorted ((m @ [(k, v)]) @ obj)" using Cons.prems(3) by (simp add: kv)
  next
    fix k' v' r assume "(k', v') \<in> set obj"
    then show "dec (tlv v' @ r) = Ok (v', length (tlv v'))" by (intro Cons.prems(1) [of k']) simp
  next
    fix k' v' assume "(k', v') \<in> set obj"
    then show "rust_str k' \<and> length k' \<le> 65535" by (intro Cons.prems(2) [of k' v']) simp
  qed
  then show ?case
    using arr sl fr v k ins by (simp add: kv add.assoc Let_def)
qed

lemma value_depth_items: "x \<in> set xs \<Longrightarrow> Suc (value_depth x) \<le> values_depth xs"
  by (induction xs) auto

lemma value_depth_entries: "(k, v) \<in> set m \<Longrightarrow> Suc (value_depth v) \<le> entries_depth m"
  by (induction m) auto

lemma values_ok_all: "values_ok xs \<longleftrightarrow> (\<forall>x \<in> set xs. value_ok x)"
  by (induction xs) auto

lemma entries_ok_all: "entries_ok m \<longleftrightarrow> (\<forall>(k, v) \<in> set m. rust_str k \<and> value_ok v)"
  by (induction m) auto

lemma tlv_fits_items_all: "tlv_fits_items xs \<longleftrightarrow> (\<forall>x \<in> set xs. tlv_fits x)"
  by (induction xs) auto

lemma tlv_fits_entries_all:
  "tlv_fits_entries m \<longleftrightarrow> (\<forall>(k, v) \<in> set m. length k \<le> 65535 \<and> tlv_fits v)"
  by (induction m) auto

lemma decode_number_tlv:
  assumes "number_ok n" "tlv_fits (Number n)" "depth \<le> 32"
  shows "decode_json_value_inner (encode_number n @ rest) depth
           = Ok (Number n, length (encode_number n))"
proof (cases n)
  case (PosInt w)
  with assms show ?thesis
    by (subst decode_json_value_inner.simps)
      (simp add: encode_number_def rs_index_def decode_tlv_integer_def rs_array_len8
        json_i64_def i64_neg_def)
next
  case (NegInt w)
  with assms show ?thesis
    by (subst decode_json_value_inner.simps)
      (simp add: encode_number_def rs_index_def decode_tlv_integer_def rs_array_len8 json_i64_def)
next
  case (Float w)
  with assms show ?thesis
    by (subst decode_json_value_inner.simps)
      (simp add: encode_number_def rs_index_def decode_tlv_float_def rs_array_len8 json_f64_def)
qed

lemma decode_inner_tlv:
  "value_ok v \<Longrightarrow> tlv_fits v \<Longrightarrow> depth + value_depth v \<le> 32 \<Longrightarrow>
   decode_json_value_inner (tlv v @ rest) depth = Ok (v, length (tlv v))"
proof (induction v arbitrary: depth rest)
  case Null
  then show ?case by (subst decode_json_value_inner.simps) (simp add: rs_index_def)
next
  case (Bool b)
  then show ?case
    by (subst decode_json_value_inner.simps) (simp add: rs_index_def decode_tlv_bool_def)
next
  case (Number n)
  then show ?case using decode_number_tlv [of n depth rest] by simp
next
  case (String s)
  then show ?case
    using decode_string_tlv [of s rest]
    by (subst decode_json_value_inner.simps) (simp add: rs_index_def)
next
  case (Array xs)
  let ?dec = "\<lambda>r. decode_json_value_inner r (depth + 1)"
  let ?pre = "0x05 # len_u32 (length xs)"
  have "decode_array_loop ?dec (length xs) (?pre @ tlv_items xs @ rest) [] (length ?pre)
      = Ok (Array ([] @ xs), length ?pre + length (tlv_items xs))"
  proof (rule decode_array_loop_tlv)
    fix x r assume x: "x \<in> set xs"
    with Array.prems value_depth_items [OF x] show "?dec (tlv x @ r) = Ok (x, length (tlv x))"
      by (intro Array.IH) (auto simp: values_ok_all tlv_fits_items_all)
  qed
  with Array.prems show ?case
    by (subst decode_json_value_inner.simps) (simp add: rs_index_def decode_count_tlv)
next
  case (Object m)
  let ?dec = "\<lambda>r. decode_json_value_inner r (depth + 1)"
  let ?pre = "0x06 # len_u32 (length m)"
  have "decode_object_loop ?dec (length m) (?pre @ tlv_entries m @ rest) [] (length ?pre)
      = Ok (Object ([] @ m), length ?pre + length (tlv_entries m))"
  proof (rule decode_object_loop_tlv)
    fix k v r assume kv: "(k, v) \<in> set m"
    with Object.prems value_depth_entries [OF kv] show "?dec (tlv v @ r) = Ok (v, length (tlv v))"
      by (intro Object.IH [of "(k, v)"]) (auto simp: entries_ok_all tlv_fits_entries_all)
  next
    fix k v assume "(k, v) \<in> set m"
    with Object.prems show "rust_str k \<and> length k \<le> 65535"
      by (auto simp: entries_ok_all tlv_fits_entries_all)
  next
    show "jmap_sorted ([] @ m)" using Object.prems by simp
  qed
  with Object.prems show ?case
    by (subst decode_json_value_inner.simps) (simp add: rs_index_def decode_count_tlv)
qed

subsection \<open>Consumption, absence of panics, and what the decoder may produce\<close>

text \<open>
  What a walker's answer may be: an error, or a positive number of bytes within the buffer.
\<close>

definition decodes_within :: "bytes \<Rightarrow> ('a \<times> nat) rust \<Rightarrow> bool" where
  "decodes_within buf r \<longleftrightarrow>
     (case r of Ok (v, n) \<Rightarrow> 0 < n \<and> n \<le> length buf | Err e \<Rightarrow> True | Panic \<Rightarrow> False)"

definition skips_within :: "bytes \<Rightarrow> nat rust \<Rightarrow> bool" where
  "skips_within buf r \<longleftrightarrow>
     (case r of Ok n \<Rightarrow> 0 < n \<and> n \<le> length buf | Err e \<Rightarrow> True | Panic \<Rightarrow> False)"

lemma within_simps [simp]:
  "decodes_within buf (Ok (v, n)) \<longleftrightarrow> 0 < n \<and> n \<le> length buf"
  "decodes_within buf (Err e)" "\<not> decodes_within buf Panic"
  "skips_within buf (Ok n) \<longleftrightarrow> 0 < n \<and> n \<le> length buf"
  "skips_within buf (Err e)" "\<not> skips_within buf Panic"
  by (simp_all add: decodes_within_def skips_within_def)

lemma rs_array_no_panic [simp]: "list_all (\<lambda>i. i < length buf) is \<Longrightarrow> rs_array buf is \<noteq> Panic"
  by (simp add: rs_array_def)

lemma decode_string_within: "decodes_within buf (decode_tlv_string buf)"
  by (auto simp: decode_tlv_string_def rs_array_def rs_slice_def Let_def decodes_within_def rbind_def
      split: rust.splits)

lemma decode_scalar_within:
  "decodes_within buf (decode_tlv_integer buf)" "decodes_within buf (decode_tlv_float buf)"
  "decodes_within buf (decode_tlv_bool buf)"
  by (auto simp: decode_tlv_integer_def decode_tlv_float_def decode_tlv_bool_def rs_array_def
      rs_index_def)

lemma decode_count_cases:
  "decode_tlv_count kind buf = Ok c \<Longrightarrow> 5 \<le> length buf \<and> c \<le> TLV_MAX_ELEMENTS"
  "decode_tlv_count kind buf \<noteq> Panic"
  by (auto simp: decode_tlv_count_def rs_array_def Let_def split: if_splits)

lemma decode_array_loop_within:
  assumes "\<And>rest. decodes_within rest (dec rest)" "0 < off" "off \<le> length buf"
  shows "decodes_within buf (decode_array_loop dec n buf items off)"
  using assms(2,3)
proof (induction n arbitrary: items off)
  case 0
  then show ?case by simp
next
  case (Suc n)
  show ?case
  proof (cases "dec (drop off buf)")
    case (Ok r)
    obtain v c where r: "r = (v, c)" by (cases r)
    have "off + c \<le> length buf" "0 < off + c"
      using assms(1) [of "drop off buf"] Ok Suc.prems by (auto simp: r)
    with Suc.IH [of "off + c" "items @ [v]"] Suc.prems Ok show ?thesis
      by (simp add: r rs_slice_from_def)
  next
    case (Err e)
    with Suc.prems show ?thesis by (simp add: rs_slice_from_def)
  next
    case Panic
    with assms(1) [of "drop off buf"] show ?thesis by simp
  qed
qed

lemma decode_object_loop_step:
  assumes "off + 2 \<le> length buf" "off + 2 + kl \<le> length buf"
    and "kl = unat (u16_from_be_bytes [buf ! off, buf ! (off + 1)])"
  shows "decode_object_loop dec (Suc n) buf m off =
    rbind (str_from_utf8 (take kl (drop (off + 2) buf))) (\<lambda>key.
      rbind (dec (drop (off + 2 + kl) buf)) (\<lambda>(v, c).
        decode_object_loop dec n buf (jmap_insert key v m) (off + 2 + kl + c)))"
  using assms by (simp add: rs_array_def rs_slice_def rs_slice_from_def Let_def)

lemma decode_object_loop_stop:
  assumes "\<not> off + 2 \<le> length buf \<or>
     \<not> off + 2 + unat (u16_from_be_bytes [buf ! off, buf ! (off + 1)]) \<le> length buf"
  shows "\<exists>e. decode_object_loop dec (Suc n) buf m off = Err e"
  using assms by (auto simp: rs_array_def Let_def)

lemma decode_object_loop_within:
  assumes "\<And>rest. decodes_within rest (dec rest)" "0 < off" "off \<le> length buf"
  shows "decodes_within buf (decode_object_loop dec n buf m off)"
  using assms(2,3)
proof (induction n arbitrary: m off)
  case 0
  then show ?case by simp
next
  case (Suc n)
  let ?kl = "unat (u16_from_be_bytes [buf ! off, buf ! (off + 1)])"
  show ?case
  proof (cases "off + 2 \<le> length buf \<and> off + 2 + ?kl \<le> length buf")
    case False
    then show ?thesis using decode_object_loop_stop [of off buf dec n m] by auto
  next
    case True
    let ?rest = "drop (off + 2 + ?kl) buf"
    have w: "decodes_within ?rest (dec ?rest)" by (rule assms(1))
    have "decodes_within buf (decode_object_loop dec n buf m' (off + 2 + ?kl + c))"
      if "dec ?rest = Ok (v, c)" for v c m'
      using w that True Suc.prems by (intro Suc.IH) auto
    with w show ?thesis
      using True str_from_utf8_no_panic [of "take ?kl (drop (off + 2) buf)"]
      by (auto simp: decode_object_loop_step [OF _ _ refl] rbind_def simp del: decode_object_loop.simps
          split: rust.splits)
  qed
qed

text \<open>
  The recursion of the walkers runs on the depth, upwards to the limit: a property holds at
  every depth if it holds wherever it holds one level further down.
\<close>

lemma depth_induct [case_names level]:
  assumes "\<And>depth. (depth \<le> 32 \<Longrightarrow> P (Suc depth)) \<Longrightarrow> P depth"
  shows "P (depth :: nat)"
proof (induction "33 - depth" arbitrary: depth)
  case 0
  then show ?case using assms [of depth] by simp
next
  case (Suc n)
  then show ?case using assms [of depth] by simp
qed

lemma decode_inner_within: "decodes_within buf (decode_json_value_inner buf depth)"
proof (induction depth arbitrary: buf rule: depth_induct)
  case (level depth)
  show ?case
  proof (cases "depth \<le> 32 \<and> buf \<noteq> []")
    case False
    then show ?thesis by (subst decode_json_value_inner.simps) auto
  next
    case True
    let ?dec = "\<lambda>rest. decode_json_value_inner rest (depth + 1)"
    have arr: "decodes_within buf (rbind (decode_tlv_count ''array'' buf)
        (\<lambda>count. decode_array_loop ?dec count buf [] 5))"
      using decode_count_cases [of "''array''" buf] True level
      by (auto simp: rbind_def split: rust.split intro!: decode_array_loop_within)
    have obj: "decodes_within buf (rbind (decode_tlv_count ''object'' buf)
        (\<lambda>count. decode_object_loop ?dec count buf [] 5))"
      using decode_count_cases [of "''object''" buf] True level
      by (auto simp: rbind_def split: rust.split intro!: decode_object_loop_within)
    from True arr obj show ?thesis
      by (subst decode_json_value_inner.simps)
        (simp add: rs_index_def decode_string_within decode_scalar_within Suc_le_eq)
  qed
qed

lemma decode_inner_bound:
  "decode_json_value_inner buf depth = Ok (v, n) \<Longrightarrow> 0 < n \<and> n \<le> length buf"
  using decode_inner_within [of buf depth] by simp

lemma decode_inner_no_panic [simp]: "decode_json_value_inner buf depth \<noteq> Panic"
  using decode_inner_within [of buf depth] by auto

subsection \<open>The in-place walker\<close>

lemma skip_count_cases:
  "skip_tlv_count kind buf = Ok c \<Longrightarrow> 5 \<le> length buf"
  "skip_tlv_count kind buf \<noteq> Panic"
  by (auto simp: skip_tlv_count_def rs_slice_def Let_def split: if_splits)

lemma skip_string_within: "skips_within buf (skip_tlv_string buf)"
  by (auto simp: skip_tlv_string_def rs_slice_def Let_def)

lemma skip_array_loop_within:
  assumes "\<And>rest. skips_within rest (skip rest)" "0 < off" "off \<le> length buf"
  shows "skips_within buf (skip_array_loop skip n buf off)"
  using assms(2,3)
proof (induction n arbitrary: off)
  case 0
  then show ?case by simp
next
  case (Suc n)
  have w: "skips_within (drop off buf) (skip (drop off buf))" by (rule assms(1))
  have "skips_within buf (skip_array_loop skip n buf (off + c))"
    if "skip (drop off buf) = Ok c" for c
    using w that Suc.prems by (intro Suc.IH) auto
  with w Suc.prems show ?case
    by (auto simp: rs_slice_from_def rbind_def split: rust.splits)
qed

lemma skip_object_loop_step:
  assumes "off + 2 \<le> length buf" "off + 2 + kl \<le> length buf"
    and "kl = unat (u16_from_be_bytes [buf ! off, buf ! (off + 1)])"
  shows "skip_object_loop skip (Suc n) buf off =
    rbind (skip (drop (off + 2 + kl) buf)) (\<lambda>c. skip_object_loop skip n buf (off + 2 + kl + c))"
proof -
  have "take 2 (drop off buf) = [buf ! off, buf ! (off + 1)]"
    using assms(1) by (simp add: numeral_2_eq_2 Cons_nth_drop_Suc [symmetric] take_Suc_conv_app_nth)
  with assms show ?thesis by (simp add: rs_slice_def rs_slice_from_def Let_def add.assoc)
qed

lemma skip_object_loop_stop:
  assumes "\<not> off + 2 \<le> length buf \<or>
     \<not> off + 2 + unat (u16_from_be_bytes [buf ! off, buf ! (off + 1)]) \<le> length buf"
  shows "\<exists>e. skip_object_loop skip (Suc n) buf off = Err e"
proof (cases "off + 2 \<le> length buf")
  case True
  then have "take 2 (drop off buf) = [buf ! off, buf ! (off + 1)]"
    by (simp add: numeral_2_eq_2 Cons_nth_drop_Suc [symmetric] take_Suc_conv_app_nth)
  with assms True show ?thesis by (auto simp: rs_slice_def Let_def)
qed auto

lemma skip_object_loop_within:
  assumes "\<And>rest. skips_within rest (skip rest)" "0 < off" "off \<le> length buf"
  shows "skips_within buf (skip_object_loop skip n buf off)"
  using assms(2,3)
proof (induction n arbitrary: off)
  case 0
  then show ?case by simp
next
  case (Suc n)
  let ?kl = "unat (u16_from_be_bytes [buf ! off, buf ! (off + 1)])"
  show ?case
  proof (cases "off + 2 \<le> length buf \<and> off + 2 + ?kl \<le> length buf")
    case False
    then show ?thesis using skip_object_loop_stop [of off buf skip n] by auto
  next
    case True
    let ?rest = "drop (off + 2 + ?kl) buf"
    have w: "skips_within ?rest (skip ?rest)" by (rule assms(1))
    have "skips_within buf (skip_object_loop skip n buf (off + 2 + ?kl + c))"
      if "skip ?rest = Ok c" for c
      using w that True Suc.prems by (intro Suc.IH) auto
    with w True show ?thesis
      by (auto simp: skip_object_loop_step [OF _ _ refl] rbind_def simp del: skip_object_loop.simps
          split: rust.splits)
  qed
qed

lemma skip_inner_within: "skips_within buf (skip_tlv_value_inner buf depth)"
proof (induction depth arbitrary: buf rule: depth_induct)
  case (level depth)
  show ?case
  proof (cases "depth \<le> 32 \<and> buf \<noteq> []")
    case False
    then show ?thesis by (subst skip_tlv_value_inner.simps) auto
  next
    case True
    let ?skip = "\<lambda>rest. skip_tlv_value_inner rest (depth + 1)"
    have arr: "skips_within buf (rbind (skip_tlv_count ''array'' buf)
        (\<lambda>count. skip_array_loop ?skip count buf 5))"
      using skip_count_cases [of "''array''" buf] True level
      by (auto simp: rbind_def split: rust.split intro!: skip_array_loop_within)
    have obj: "skips_within buf (rbind (skip_tlv_count ''object'' buf)
        (\<lambda>count. skip_object_loop ?skip count buf 5))"
      using skip_count_cases [of "''object''" buf] True level
      by (auto simp: rbind_def split: rust.split intro!: skip_object_loop_within)
    from True arr obj show ?thesis
      by (subst skip_tlv_value_inner.simps)
        (simp add: rs_index_def skip_string_within Suc_le_eq)
  qed
qed

text \<open>
  The walker against the decoder: it accepts with the same length whatever the decoder
  accepts, and whatever else it accepts the decoder refuses for one reason only, a string or
  key whose bytes are not UTF-8.
\<close>

definition walks_like :: "nat rust \<Rightarrow> ('a \<times> nat) rust \<Rightarrow> bool" where
  "walks_like s d \<longleftrightarrow>
     (case s of
        Ok n \<Rightarrow> (\<exists>v. d = Ok (v, n)) \<or> (\<exists>i e. d = Err (utf8_error_display i e))
      | Err _ \<Rightarrow> (\<exists>e. d = Err e)
      | Panic \<Rightarrow> False)"

lemma walks_like_simps [simp]:
  "walks_like (Ok n) d \<longleftrightarrow> (\<exists>v. d = Ok (v, n)) \<or> (\<exists>i e. d = Err (utf8_error_display i e))"
  "walks_like (Err x) d \<longleftrightarrow> (\<exists>e. d = Err e)"
  "walks_like Panic d \<longleftrightarrow> False"
  by (simp_all add: walks_like_def)

lemma walks_like_utf8: "s \<noteq> Panic \<Longrightarrow> walks_like s (Err (utf8_error_display i e))"
  by (cases s) auto

lemma str_from_utf8_Err: "str_from_utf8 bs = Err x \<Longrightarrow> \<exists>i e. x = utf8_error_display i e"
  by (auto simp: str_from_utf8_def split: option.splits)

lemma skips_within_no_panic: "skips_within buf r \<Longrightarrow> r \<noteq> Panic"
  by auto

lemma array_loops_agree:
  assumes "\<And>rest. walks_like (skip rest) (dec rest)"
    and "\<And>rest. skips_within rest (skip rest)" "0 < off" "off \<le> length buf"
  shows "walks_like (skip_array_loop skip n buf off) (decode_array_loop dec n buf items off)"
  using assms(3,4)
proof (induction n arbitrary: items off)
  case 0
  then show ?case by simp
next
  case (Suc n)
  let ?rest = "drop off buf"
  show ?case
  proof (cases "skip ?rest")
    case (Ok c)
    have bound: "0 < off + c" "off + c \<le> length buf"
      using assms(2) [of ?rest] Ok Suc.prems by auto
    have np: "skip_array_loop skip n buf (off + c) \<noteq> Panic"
      by (rule skips_within_no_panic [OF skip_array_loop_within [OF assms(2) bound]])
    from assms(1) [of ?rest] Ok consider v where "dec ?rest = Ok (v, c)"
      | i e where "dec ?rest = Err (utf8_error_display i e)" by auto
    then show ?thesis
      using Suc.IH [OF bound] Suc.prems Ok walks_like_utf8 [OF np]
      by cases (simp_all add: rs_slice_from_def)
  next
    case (Err x)
    with assms(1) [of ?rest] Suc.prems show ?thesis by (auto simp: rs_slice_from_def)
  next
    case Panic
    with assms(1) [of ?rest] show ?thesis by simp
  qed
qed

lemma object_loops_agree:
  assumes "\<And>rest. walks_like (skip rest) (dec rest)"
    and "\<And>rest. skips_within rest (skip rest)" "0 < off" "off \<le> length buf"
  shows "walks_like (skip_object_loop skip n buf off) (decode_object_loop dec n buf m off)"
  using assms(3,4)
proof (induction n arbitrary: m off)
  case 0
  then show ?case by simp
next
  case (Suc n)
  let ?kl = "unat (u16_from_be_bytes [buf ! off, buf ! (off + 1)])"
  show ?case
  proof (cases "off + 2 \<le> length buf \<and> off + 2 + ?kl \<le> length buf")
    case False
    then show ?thesis
      using skip_object_loop_stop [of off buf skip n] decode_object_loop_stop [of off buf dec n m]
      by auto
  next
    case True
    let ?rest = "drop (off + 2 + ?kl) buf" and ?key = "take ?kl (drop (off + 2) buf)"
    have np: "skip_object_loop skip (Suc n) buf off \<noteq> Panic"
      by (rule skips_within_no_panic [OF skip_object_loop_within [OF assms(2) Suc.prems]])
    note steps = skip_object_loop_step [OF conjunct1 [OF True] conjunct2 [OF True] refl]
      decode_object_loop_step [OF conjunct1 [OF True] conjunct2 [OF True] refl]
    show ?thesis
    proof (cases "str_from_utf8 ?key")
      case (Err x)
      then obtain i e where "x = utf8_error_display i e" using str_from_utf8_Err by blast
      with Err walks_like_utf8 [OF np] show ?thesis
        by (simp add: steps del: skip_object_loop.simps decode_object_loop.simps)
    next
      case Panic
      then show ?thesis by simp
    next
      case key: (Ok k)
      show ?thesis
      proof (cases "skip ?rest")
        case (Ok c)
        have bound: "0 < off + 2 + ?kl + c" "off + 2 + ?kl + c \<le> length buf"
          using assms(2) [of ?rest] Ok True by auto
        have np': "skip_object_loop skip n buf (off + 2 + ?kl + c) \<noteq> Panic"
          by (rule skips_within_no_panic [OF skip_object_loop_within [OF assms(2) bound]])
        from assms(1) [of ?rest] Ok consider v where "dec ?rest = Ok (v, c)"
          | i e where "dec ?rest = Err (utf8_error_display i e)" by auto
        then show ?thesis
          using Suc.IH [OF bound] Ok key walks_like_utf8 [OF np']
          by cases (simp_all add: steps del: skip_object_loop.simps decode_object_loop.simps)
      next
        case (Err x)
        with assms(1) [of ?rest] key show ?thesis
          by (auto simp: steps simp del: skip_object_loop.simps decode_object_loop.simps)
      next
        case Panic
        with assms(1) [of ?rest] show ?thesis by simp
      qed
    qed
  qed
qed

lemma slice_1_5: "5 \<le> length buf \<Longrightarrow> take 4 (drop 1 buf) = map (\<lambda>i. buf ! i) [1, 2, 3, 4]"
  by (intro nth_equalityI) (auto simp: less_Suc_eq numeral_eq_Suc)

lemma counts_agree:
  "5 \<le> length buf \<Longrightarrow> (\<exists>e. skip_tlv_count kind buf = Err e) \<and> (\<exists>e. decode_tlv_count kind buf = Err e)
     \<or> (\<exists>c. skip_tlv_count kind buf = Ok c \<and> decode_tlv_count kind buf = Ok c)"
  using slice_1_5 [of buf]
  by (auto simp: skip_tlv_count_def decode_tlv_count_def rs_slice_def rs_array_def Let_def)

lemma counts_short:
  "length buf < 5 \<Longrightarrow> (\<exists>e. skip_tlv_count kind buf = Err e) \<and> (\<exists>e. decode_tlv_count kind buf = Err e)"
  by (simp add: skip_tlv_count_def decode_tlv_count_def)

lemma strings_agree: "walks_like (skip_tlv_string buf) (decode_tlv_string buf)"
proof (cases "5 \<le> length buf")
  case False
  then show ?thesis by (simp add: skip_tlv_string_def decode_tlv_string_def)
next
  case True
  let ?len = "unat (u32_from_be_bytes (map (\<lambda>i. buf ! i) [1, 2, 3, 4]))"
  let ?raw = "take ?len (drop 5 buf)"
  show ?thesis
  proof (cases "str_from_utf8 ?raw")
    case (Err x)
    with str_from_utf8_Err [OF Err] True slice_1_5 [OF True] show ?thesis
      by (auto simp: skip_tlv_string_def decode_tlv_string_def rs_slice_def rs_array_def Let_def)
  qed (use True slice_1_5 [OF True] in
      \<open>auto simp: skip_tlv_string_def decode_tlv_string_def rs_slice_def rs_array_def Let_def\<close>)
qed

lemma skip_inner_agrees: "walks_like (skip_tlv_value_inner buf depth) (decode_json_value_inner buf depth)"
proof (induction depth arbitrary: buf rule: depth_induct)
  case (level depth)
  show ?case
  proof (cases "depth \<le> 32 \<and> buf \<noteq> []")
    case False
    then show ?thesis
      by (subst decode_json_value_inner.simps, subst skip_tlv_value_inner.simps) auto
  next
    case True
    let ?dec = "\<lambda>rest. decode_json_value_inner rest (depth + 1)"
    let ?skip = "\<lambda>rest. skip_tlv_value_inner rest (depth + 1)"
    have arr: "walks_like (rbind (skip_tlv_count ''array'' buf) (\<lambda>c. skip_array_loop ?skip c buf 5))
       (rbind (decode_tlv_count ''array'' buf) (\<lambda>c. decode_array_loop ?dec c buf [] 5))"
      using counts_agree [of buf "''array''"] counts_short [of buf "''array''"] level True
      by (cases "5 \<le> length buf") (auto intro!: array_loops_agree skip_inner_within simp: not_le)
    have obj: "walks_like (rbind (skip_tlv_count ''object'' buf) (\<lambda>c. skip_object_loop ?skip c buf 5))
       (rbind (decode_tlv_count ''object'' buf) (\<lambda>c. decode_object_loop ?dec c buf [] 5))"
      using counts_agree [of buf "''object''"] counts_short [of buf "''object''"] level True
      by (cases "5 \<le> length buf") (auto intro!: object_loops_agree skip_inner_within simp: not_le)
    from True arr obj show ?thesis
      by (subst decode_json_value_inner.simps, subst skip_tlv_value_inner.simps)
        (simp add: rs_index_def strings_agree decode_tlv_integer_def decode_tlv_float_def
          decode_tlv_bool_def rs_array_def)
  qed
qed

lemma skip_agrees: "walks_like (skip_tlv_value buf) (decode_json_value buf)"
  by (simp add: skip_tlv_value_def decode_json_value_def skip_inner_agrees)

subsection \<open>What the decoder produces\<close>

text \<open>A decoded value keeps the invariant of the type and every limit of the format.\<close>

definition decodes_good :: "nat \<Rightarrow> (value \<times> nat) rust \<Rightarrow> bool" where
  "decodes_good levels r \<longleftrightarrow>
     (\<forall>v n. r = Ok (v, n) \<longrightarrow> value_ok v \<and> tlv_fits v \<and> value_depth v < levels)"

lemma decodes_goodD:
  "decodes_good l r \<Longrightarrow> r = Ok (v, n) \<Longrightarrow> value_ok v \<and> tlv_fits v \<and> value_depth v < l"
  by (simp add: decodes_good_def)

lemma decodes_good_simps [simp]:
  "decodes_good l (Ok (v, n)) \<longleftrightarrow> value_ok v \<and> tlv_fits v \<and> value_depth v < l"
  "decodes_good l (Err e)" "decodes_good l Panic"
  by (simp_all add: decodes_good_def)

lemma tlv_fits_items_append [simp]: "tlv_fits_items (xs @ ys) \<longleftrightarrow> tlv_fits_items xs \<and> tlv_fits_items ys"
  by (induction xs) auto

lemma values_depth_append [simp]: "values_depth (xs @ ys) = max (values_depth xs) (values_depth ys)"
  by (induction xs) auto

lemma decode_array_loop_good:
  assumes "\<And>rest. decodes_good l (dec rest)" "values_ok items" "tlv_fits_items items"
    "values_depth items \<le> l" "length items + n \<le> TLV_MAX_ELEMENTS"
  shows "decodes_good (Suc l) (decode_array_loop dec n buf items off)"
  using assms(2-)
proof (induction n arbitrary: items off)
  case 0
  then show ?case by simp
next
  case (Suc n)
  have "decodes_good (Suc l) (decode_array_loop dec n buf (items @ [v]) (off + c))"
    if "dec rest = Ok (v, c)" for v c rest
    using decodes_goodD [OF assms(1) that] Suc.prems by (intro Suc.IH) auto
  then show ?case by (auto simp: rbind_def rs_slice_from_def split: rust.splits)
qed

lemma length_jmap_insert: "length (jmap_insert k v m) \<le> Suc (length m)"
  by (induction k v m rule: jmap_insert.induct) auto

lemma tlv_fits_entries_insert:
  "tlv_fits_entries m \<Longrightarrow> length k \<le> 65535 \<Longrightarrow> tlv_fits v \<Longrightarrow> tlv_fits_entries (jmap_insert k v m)"
  by (induction k v m rule: jmap_insert.induct) auto

lemma entries_depth_insert:
  "entries_depth m \<le> l \<Longrightarrow> Suc (value_depth v) \<le> l \<Longrightarrow> entries_depth (jmap_insert k v m) \<le> l"
  by (induction k v m rule: jmap_insert.induct) auto

lemma unat_u16_bound: "unat (w :: u16) \<le> 65535"
  using unat_less_pow [of w] by simp

lemma decode_object_loop_good:
  assumes "\<And>rest. decodes_good l (dec rest)" "value_ok (Object m)" "tlv_fits_entries m"
    "entries_depth m \<le> l" "length m + n \<le> TLV_MAX_ELEMENTS"
  shows "decodes_good (Suc l) (decode_object_loop dec n buf m off)"
  using assms(2-)
proof (induction n arbitrary: m off)
  case 0
  then show ?case by simp
next
  case (Suc n)
  let ?kl = "unat (u16_from_be_bytes [buf ! off, buf ! (off + 1)])"
  show ?case
  proof (cases "off + 2 \<le> length buf \<and> off + 2 + ?kl \<le> length buf")
    case False
    then show ?thesis using decode_object_loop_stop [of off buf dec n m] by auto
  next
    case True
    have "decodes_good (Suc l) (decode_object_loop dec n buf (jmap_insert k v m) off')"
      if "str_from_utf8 (take ?kl (drop (off + 2) buf)) = Ok k" "dec rest = Ok (v, c)" for k v c rest off'
    proof -
      have "rust_str k" "length k \<le> 65535"
        using that(1) unat_u16_bound by (auto simp: str_from_utf8_Ok rust_str_def min_le_iff_disj)
      with decodes_goodD [OF assms(1) that(2)] Suc.prems length_jmap_insert [of k v m] show ?thesis
        by (intro Suc.IH) (auto intro: jmap_insert_sorted entries_ok_insert tlv_fits_entries_insert
            entries_depth_insert)
    qed
    then show ?thesis
      by (auto simp: decode_object_loop_step [OF conjunct1 [OF True] conjunct2 [OF True] refl]
          rbind_def simp del: decode_object_loop.simps split: rust.splits)
  qed
qed

lemma decode_scalar_good:
  "decodes_good (Suc l) (decode_tlv_integer buf)" "decodes_good (Suc l) (decode_tlv_float buf)"
  "decodes_good (Suc l) (decode_tlv_bool buf)"
  by (auto simp: decodes_good_def decode_tlv_integer_def decode_tlv_float_def decode_tlv_bool_def
      rbind_eq_Ok rs_array_def rs_index_def json_i64_def json_f64_def i64_neg_def split: if_splits)

lemma decode_string_good: "decodes_good (Suc l) (decode_tlv_string buf)"
  by (auto simp: decodes_good_def decode_tlv_string_def rbind_eq_Ok rs_slice_def Let_def
      str_from_utf8_Ok rust_str_def split: if_splits)

lemma decode_inner_good: "decodes_good (33 - depth) (decode_json_value_inner buf depth)"
proof (induction depth arbitrary: buf rule: depth_induct)
  case (level depth)
  show ?case
  proof (cases "depth \<le> 32 \<and> buf \<noteq> []")
    case False
    then show ?thesis by (subst decode_json_value_inner.simps) auto
  next
    case True
    let ?dec = "\<lambda>rest. decode_json_value_inner rest (depth + 1)"
    have l: "33 - depth = Suc (32 - depth)" using True by arith
    have IH: "decodes_good (32 - depth) (?dec rest)" for rest using level True by simp
    have arr: "decodes_good (33 - depth) (rbind (decode_tlv_count ''array'' buf)
        (\<lambda>count. decode_array_loop ?dec count buf [] 5))"
      using decode_count_cases [of "''array''" buf] decode_array_loop_good [of "32 - depth" ?dec, OF IH]
      by (auto simp: l rbind_def split: rust.split)
    have obj: "decodes_good (33 - depth) (rbind (decode_tlv_count ''object'' buf)
        (\<lambda>count. decode_object_loop ?dec count buf [] 5))"
      using decode_count_cases [of "''object''" buf] decode_object_loop_good [of "32 - depth" ?dec, OF IH]
      by (auto simp: l rbind_def split: rust.split)
    from True arr obj show ?thesis
      by (subst decode_json_value_inner.simps)
        (simp add: rs_index_def decode_string_good decode_scalar_good l)
  qed
qed

lemma decode_encodable: "decode_json_value buf = Ok (v, n) \<Longrightarrow> tlv_encodable v"
  using decodes_goodD [OF decode_inner_good, of buf 0 v n]
  by (simp add: decode_json_value_def tlv_encodable_def)

subsection \<open>The codec keeps its contract\<close>

lemma decode_tlv: "tlv_encodable v \<Longrightarrow> decode_json_value (tlv v @ rest) = Ok (v, length (tlv v))"
  by (simp add: decode_json_value_def tlv_encodable_def decode_inner_tlv)

interpretation server_tlv: codec_with_skip tlv decode_json_value tlv_encodable skip_tlv_value
proof
  fix buf x n assume d: "decode_json_value buf = Ok (x, n)"
  show "skip_tlv_value buf = Ok n"
    using skip_agrees [of buf] d by (cases "skip_tlv_value buf") auto
  show "0 < n \<and> n \<le> length buf"
    using decode_inner_bound d by (simp add: decode_json_value_def)
qed (rule decode_tlv)

lemma encode_tlv: "tlv_encodable v \<Longrightarrow> encode_json_value v buf = (buf @ tlv v, Ok ())"
  by (simp add: tlv_encodable_def encode_fits tlv_fits_keys_fit)

subsection \<open>Field extraction\<close>

lemma tlv_string_tag: "tlv v ! 0 = 0x01 \<longleftrightarrow> (\<exists>s. v = String s)"
  by (cases v) (auto simp: encode_number_def split: option.splits)

lemma tlv_string_body: "length (tlv (String s)) \<ge> 5" "drop 5 (tlv (String s)) = as_bytes s"
proof -
  have "drop 5 (([0x01] @ len_u32 (length s)) @ as_bytes s) = as_bytes s"
    by (subst drop_append) simp
  then show "drop 5 (tlv (String s)) = as_bytes s" by simp
qed simp

text \<open>One entry of an encoded object, read by an extraction loop.\<close>

lemma entry_read:
  assumes "length k \<le> 65535" "tlv_encodable v"
    and "data = pre @ len_u16 (length k) @ as_bytes k @ tlv v @ tail"
  shows "\<not> length data < length pre + 2"
    "rs_slice data (length pre) (length pre + 2) = Ok (len_u16 (length k))"
    "unat (u16_from_be_bytes (len_u16 (length k))) = length k"
    "\<not> length data < length pre + 2 + length k"
    "rs_slice data (length pre + 2) (length pre + 2 + length k) = Ok (as_bytes k)"
    "rs_slice_from data (length pre + 2 + length k) = Ok (tlv v @ tail)"
    "skip_tlv_value (tlv v @ tail) = Ok (length (tlv v))"
    "\<not> length data < length pre + 2 + length k + length (tlv v)"
    "rs_slice data (length pre + 2 + length k) (length pre + 2 + length k + length (tlv v)) = Ok (tlv v)"
proof -
  show "rs_slice data (length pre + 2) (length pre + 2 + length k) = Ok (as_bytes k)"
    using rs_slice_mid [of "as_bytes k" "length k" "pre @ len_u16 (length k)" "tlv v @ tail"] assms
    by simp
  show "rs_slice data (length pre + 2 + length k) (length pre + 2 + length k + length (tlv v)) = Ok (tlv v)"
    using rs_slice_mid [of "tlv v" "length (tlv v)" "pre @ len_u16 (length k) @ as_bytes k" tail] assms
    by (simp add: add.assoc)
  show "rs_slice_from data (length pre + 2 + length k) = Ok (tlv v @ tail)"
    using rs_slice_from_mid [of "pre @ len_u16 (length k) @ as_bytes k" "tlv v @ tail"] assms
    by (simp add: add.assoc)
  show "rs_slice data (length pre) (length pre + 2) = Ok (len_u16 (length k))"
    using rs_slice_mid [of "len_u16 (length k)" 2 pre "as_bytes k @ tlv v @ tail"] assms by simp
qed (use assms in \<open>simp_all add: server_tlv.skip_enc\<close>)

definition named_string :: "value option \<Rightarrow> string option \<Rightarrow> string option" where
  "named_string v d = (case v of Some (String s) \<Rightarrow> Some s | _ \<Rightarrow> d)"

definition encoded_field :: "value option \<Rightarrow> bytes option \<Rightarrow> bytes option" where
  "encoded_field v d = (case v of Some x \<Rightarrow> Some (tlv x) | None \<Rightarrow> d)"

lemma tlv_encodable_entry:
  assumes "tlv_encodable (Object m)" "(k, v) \<in> set m"
  shows "tlv_encodable v \<and> rust_str k \<and> length k \<le> 65535"
  using assms value_depth_entries [OF assms(2)]
  by (auto simp: tlv_encodable_def entries_ok_all tlv_fits_entries_all)

lemma extract_tools_call_loop_tlv:
  assumes "list_all (\<lambda>(k, v). tlv_encodable v \<and> length k \<le> 65535) obj"
    and "distinct (map fst obj)"
  shows "extract_tools_call_loop (length obj) (pre @ tlv_entries obj @ rest) (length pre) nm ar
    = Ok (named_string (map_of obj ''name'') nm, encoded_field (map_of obj ''arguments'') ar)"
  using assms
proof (induction obj arbitrary: pre nm ar)
  case Nil
  then show ?case by (simp add: named_string_def encoded_field_def)
next
  case (Cons kv obj)
  obtain k v where kv: "kv = (k, v)" by (cases kv)
  let ?data = "pre @ len_u16 (length k) @ as_bytes k @ tlv v @ tlv_entries obj @ rest"
  let ?pre' = "pre @ len_u16 (length k) @ as_bytes k @ tlv v"
  have e: "tlv_encodable v" "length k \<le> 65535" using Cons.prems(1) by (auto simp: kv)
  note read = entry_read [where pre = pre and tail = "tlv_entries obj @ rest", OF e(2) e(1) refl]
  have off: "length ?pre' = length pre + 2 + length k + length (tlv v)" by simp
  have IH: "extract_tools_call_loop (length obj) ?data (length pre + 2 + length k + length (tlv v)) nm' ar'
      = Ok (named_string (map_of obj ''name'') nm', encoded_field (map_of obj ''arguments'') ar')" for nm' ar'
    using Cons.IH [of ?pre' nm' ar'] Cons.prems by (simp add: off add.assoc)
  have none: "map_of obj k = None"
    using Cons.prems(2) by (auto simp: kv map_of_eq_None_iff)
  have str: "str_from_utf8 (as_bytes s) = Ok s" if "v = String s" for s
    using e(1) that by (simp add: tlv_encodable_def)
  consider (name) s where "k = ''name''" "v = String s" | (odd_name) "k = ''name''" "tlv v ! 0 \<noteq> 0x01"
    | (args) "k = ''arguments''" | (other) "k \<noteq> ''name''" "k \<noteq> ''arguments''"
    using tlv_string_tag [of v] by blast
  then show ?case
  proof cases
    case name
    have "(''name'' :: string) \<noteq> ''arguments''" by simp
    with name read IH none str tlv_string_body [of s] tlv_string_tag [of v] show ?thesis
      by (simp add: kv Let_def named_string_def del: tlv.simps(1) as_bytes_simps)
  next
    case odd_name
    with tlv_string_tag [of v] have "named_string (Some v) nm = nm"
      by (cases v) (auto simp: named_string_def)
    with odd_name read IH none show ?thesis
      by (simp add: kv Let_def named_string_def del: as_bytes_simps)
  next
    case args
    with read IH none show ?thesis
      by (simp add: kv Let_def encoded_field_def del: as_bytes_simps(1,2,3))
  next
    case other
    with read IH show ?thesis by (simp add: kv Let_def del: as_bytes_simps(1,2,3))
  qed
qed

lemma extract_tools_call_tlv:
  assumes "tlv_encodable (Object m)"
  shows "extract_tools_call_fields (tlv (Object m) @ rest)
    = Ok (named_string (map_of m ''name'') None, encoded_field (map_of m ''arguments'') None)"
proof -
  let ?pre = "[0x06] @ len_u32 (length m)"
  have count: "length m \<le> 100000" using assms by (simp add: tlv_encodable_def)
  have dist: "distinct (map fst m)"
    using assms by (auto simp: tlv_encodable_def jmap_sorted_def strict_sorted_iff)
  have "extract_tools_call_loop (length m) (?pre @ tlv_entries m @ rest) (length ?pre) None None
    = Ok (named_string (map_of m ''name'') None, encoded_field (map_of m ''arguments'') None)"
    using tlv_encodable_entry [OF assms] dist
    by (intro extract_tools_call_loop_tlv) (auto simp: list_all_iff)
  moreover have "rs_slice (tlv (Object m) @ rest) 1 5 = Ok (len_u32 (length m))"
    using rs_slice_mid [of "len_u32 (length m)" 4 "[0x06]" "tlv_entries m @ rest"] by simp
  ultimately show ?thesis
    using count by (simp add: extract_tools_call_fields_def)
qed

lemma extract_tlv_field_loop_tlv:
  assumes "list_all (\<lambda>(k, v). tlv_encodable v \<and> length k \<le> 65535) obj"
  shows "extract_tlv_field_loop (length obj) (pre @ tlv_entries obj @ rest) (as_bytes key) (length pre)
    = Ok (map_option tlv (map_of obj key))"
  using assms
proof (induction obj arbitrary: pre)
  case Nil
  then show ?case by simp
next
  case (Cons kv obj)
  obtain k v where kv: "kv = (k, v)" by (cases kv)
  let ?data = "pre @ len_u16 (length k) @ as_bytes k @ tlv v @ tlv_entries obj @ rest"
  let ?pre' = "pre @ len_u16 (length k) @ as_bytes k @ tlv v"
  have e: "tlv_encodable v" "length k \<le> 65535" using Cons.prems by (auto simp: kv)
  note read = entry_read [where pre = pre and tail = "tlv_entries obj @ rest", OF e(2) e(1) refl]
  have off: "length ?pre' = length pre + 2 + length k + length (tlv v)" by simp
  have IH: "extract_tlv_field_loop (length obj) ?data (as_bytes key)
      (length pre + 2 + length k + length (tlv v)) = Ok (map_option tlv (map_of obj key))"
    using Cons.IH [of ?pre'] Cons.prems by (simp add: off add.assoc)
  show ?case
  proof (cases "k = key")
    case True
    then show ?thesis using read by (simp add: kv Let_def)
  next
    case False
    then show ?thesis using read IH by (simp add: kv Let_def)
  qed
qed

lemma extract_tlv_field_tlv:
  assumes "tlv_encodable (Object m)"
  shows "extract_tlv_field (tlv (Object m) @ rest) (as_bytes key) = Ok (map_option tlv (map_of m key))"
proof -
  let ?pre = "[0x06] @ len_u32 (length m)"
  have count: "length m \<le> 100000" using assms by (simp add: tlv_encodable_def)
  have "extract_tlv_field_loop (length m) (?pre @ tlv_entries m @ rest) (as_bytes key) (length ?pre)
    = Ok (map_option tlv (map_of m key))"
    using tlv_encodable_entry [OF assms]
    by (intro extract_tlv_field_loop_tlv) (auto simp: list_all_iff)
  moreover have "rs_slice (tlv (Object m) @ rest) 1 5 = Ok (len_u32 (length m))"
    using rs_slice_mid [of "len_u32 (length m)" 4 "[0x06]" "tlv_entries m @ rest"] by simp
  ultimately show ?thesis
    using count by (simp add: extract_tlv_field_def)
qed

text \<open>
  On arbitrary bytes the extraction loops never index out of range, and they stop within the
  data although the announced count is not limited: each entry takes at least three bytes.
\<close>

lemma skip_value_within: "skips_within buf (skip_tlv_value buf)"
  by (simp add: skip_tlv_value_def skip_inner_within)

lemma extract_tools_call_loop_step:
  assumes "kl = unat (u16_from_be_bytes (take 2 (drop off data)))" "off + 2 + kl \<le> length data"
    and "skip_tlv_value (drop (off + 2 + kl) data) = Ok vl"
  shows "off + 2 + kl + vl \<le> length data \<and> 0 < vl \<and>
    (\<exists>nm' ar'. extract_tools_call_loop (Suc n) data off nm ar
       = extract_tools_call_loop n data (off + 2 + kl + vl) nm' ar')"
proof -
  have vl: "0 < vl" "off + 2 + kl + vl \<le> length data"
    using skip_value_within [of "drop (off + 2 + kl) data"] assms by auto
  then show ?thesis
    using assms by (auto simp: rs_slice_def rs_slice_from_def Let_def split: rust.split)
qed

lemma extract_tools_call_loop_stop:
  assumes "kl = unat (u16_from_be_bytes (take 2 (drop off data)))"
    and "\<not> off + 2 + kl \<le> length data \<or> (\<exists>e. skip_tlv_value (drop (off + 2 + kl) data) = Err e)"
  shows "\<exists>e. extract_tools_call_loop (Suc n) data off nm ar = Err e"
  using assms by (auto simp: rs_slice_def rs_slice_from_def Let_def)

lemma extract_tools_call_loop_total:
  assumes "off \<le> length data"
  shows "case extract_tools_call_loop n data off nm ar of
      Ok r \<Rightarrow> off + 3 * n \<le> length data | Err e \<Rightarrow> True | Panic \<Rightarrow> False"
  using assms
proof (induction n arbitrary: off nm ar)
  case 0
  then show ?case by simp
next
  case (Suc n)
  define kl where "kl = unat (u16_from_be_bytes (take 2 (drop off data)))"
  let ?rest = "drop (off + 2 + kl) data"
  show ?case
  proof (cases "\<not> off + 2 + kl \<le> length data \<or> (\<exists>e. skip_tlv_value ?rest = Err e)")
    case True
    then show ?thesis
      using extract_tools_call_loop_stop [OF kl_def, of n nm ar] by (auto simp del: extract_tools_call_loop.simps)
  next
    case False
    then obtain vl where vl: "skip_tlv_value ?rest = Ok vl"
      using skip_value_within [of ?rest] by (cases "skip_tlv_value ?rest") auto
    with False extract_tools_call_loop_step [OF kl_def _ vl, of n nm ar]
    obtain nm' ar' where b: "off + 2 + kl + vl \<le> length data" "0 < vl"
      and step: "extract_tools_call_loop (Suc n) data off nm ar
        = extract_tools_call_loop n data (off + 2 + kl + vl) nm' ar'" by auto
    show ?thesis
      using Suc.IH [OF b(1), of nm' ar'] b
      by (auto simp: step simp del: extract_tools_call_loop.simps split: rust.splits)
  qed
qed

lemma extract_tools_call_no_panic [simp]: "extract_tools_call_fields data \<noteq> Panic"
proof -
  have "extract_tools_call_loop n data 5 nm ar \<noteq> Panic" if "\<not> length data < 5" for n nm ar
    using extract_tools_call_loop_total [of 5 data n nm ar] that by (auto split: rust.splits)
  then show ?thesis by (simp add: extract_tools_call_fields_def rs_slice_def)
qed

subsection \<open>Decoding depends only on the bytes consumed\<close>

lemma take_eq_mono: "take m xs = take m ys \<Longrightarrow> n \<le> m \<Longrightarrow> take n xs = take n ys"
  by (metis min.absorb1 take_take)

lemma take_eq_drop: "take m xs = take m ys \<Longrightarrow> a + c \<le> m \<Longrightarrow> take c (drop a xs) = take c (drop a ys)"
  by (metis add.commute take_drop take_eq_mono)

lemma take_eq_nth: "take m xs = take m ys \<Longrightarrow> i < m \<Longrightarrow> xs ! i = ys ! i"
  by (metis nth_take)

definition reads_prefix :: "(bytes \<Rightarrow> ('a \<times> nat) rust) \<Rightarrow> bool" where
  "reads_prefix dec \<longleftrightarrow> (\<forall>buf buf' v n.
     dec buf = Ok (v, n) \<longrightarrow> n \<le> length buf' \<longrightarrow> take n buf' = take n buf \<longrightarrow> dec buf' = Ok (v, n))"

lemma reads_prefixD:
  "reads_prefix dec \<Longrightarrow> dec buf = Ok (v, n) \<Longrightarrow> n \<le> length buf' \<Longrightarrow> take n buf' = take n buf \<Longrightarrow>
   dec buf' = Ok (v, n)"
  unfolding reads_prefix_def by blast

lemma reads_prefix_array_loop:
  assumes dec: "reads_prefix dec" "\<And>rest. decodes_within rest (dec rest)"
  shows "decode_array_loop dec k buf items off = Ok (v, n) \<Longrightarrow> off \<le> n \<and>
    (n \<le> length buf' \<longrightarrow> take n buf' = take n buf \<longrightarrow> decode_array_loop dec k buf' items off = Ok (v, n))"
proof (induction k arbitrary: items off)
  case 0
  then show ?case by simp
next
  case (Suc k)
  then obtain x c where off: "off \<le> length buf" and x: "dec (drop off buf) = Ok (x, c)"
    and rec: "decode_array_loop dec k buf (items @ [x]) (off + c) = Ok (v, n)"
    by (auto simp: rbind_eq_Ok rs_slice_from_def split: if_splits)
  note IH = Suc.IH [OF rec]
  have "decode_array_loop dec (Suc k) buf' items off = Ok (v, n)"
    if n: "n \<le> length buf'" "take n buf' = take n buf"
  proof -
    have "dec (drop off buf') = Ok (x, c)"
      by (intro reads_prefixD [OF dec(1) x] take_eq_drop [OF n(2)]) (use IH n in auto)
    with IH n show ?thesis by (simp add: rs_slice_from_def)
  qed
  with IH show ?case by simp
qed

lemma reads_prefix_object_loop:
  assumes dec: "reads_prefix dec" "\<And>rest. decodes_within rest (dec rest)"
  shows "decode_object_loop dec k buf m off = Ok (v, n) \<Longrightarrow> off \<le> n \<and>
    (n \<le> length buf' \<longrightarrow> take n buf' = take n buf \<longrightarrow> decode_object_loop dec k buf' m off = Ok (v, n))"
proof (induction k arbitrary: m off)
  case 0
  then show ?case by simp
next
  case (Suc k)
  define kl where "kl = unat (u16_from_be_bytes [buf ! off, buf ! (off + 1)])"
  have fit: "off + 2 \<le> length buf" "off + 2 + kl \<le> length buf"
    using decode_object_loop_stop [of off buf dec k m] Suc.prems by (auto simp: kl_def simp del: decode_object_loop.simps)
  from Suc.prems obtain key x c where key: "str_from_utf8 (take kl (drop (off + 2) buf)) = Ok key"
    and x: "dec (drop (off + 2 + kl) buf) = Ok (x, c)"
    and rec: "decode_object_loop dec k buf (jmap_insert key x m) (off + 2 + kl + c) = Ok (v, n)"
    by (auto simp: rbind_eq_Ok decode_object_loop_step [OF fit kl_def] simp del: decode_object_loop.simps)
  note IH = Suc.IH [OF rec]
  have "decode_object_loop dec (Suc k) buf' m off = Ok (v, n)"
    if n: "n \<le> length buf'" "take n buf' = take n buf"
  proof -
    have kl': "kl = unat (u16_from_be_bytes [buf' ! off, buf' ! (off + 1)])"
      using take_eq_nth [OF n(2), of off] take_eq_nth [OF n(2), of "off + 1"] IH by (simp add: kl_def)
    have fit': "off + 2 \<le> length buf'" "off + 2 + kl \<le> length buf'" using IH n by auto
    have "take kl (drop (off + 2) buf') = take kl (drop (off + 2) buf)"
      using IH by (intro take_eq_drop [OF n(2)]) simp
    moreover have "dec (drop (off + 2 + kl) buf') = Ok (x, c)"
      by (intro reads_prefixD [OF dec(1) x] take_eq_drop [OF n(2)]) (use IH n in auto)
    ultimately show ?thesis using key IH n
      by (simp add: decode_object_loop_step [OF fit' kl'] del: decode_object_loop.simps)
  qed
  with IH show ?case by simp
qed

lemma take_eq_array: "take m buf' = take m buf \<Longrightarrow> m \<le> length buf' \<Longrightarrow> m \<le> length buf \<Longrightarrow>
   list_all (\<lambda>i. i < m) ix \<Longrightarrow> rs_array buf' ix = rs_array buf ix"
  by (auto simp: rs_array_def list_all_iff dest: take_eq_nth)

lemma reads_prefix_fixed:
  assumes "dec = (\<lambda>buf. if length buf < k then Err e else rbind (rs_array buf ix) (\<lambda>b. Ok (f b, k)))"
    and "list_all (\<lambda>i. i < k) ix"
  shows "reads_prefix dec"
  unfolding reads_prefix_def
proof (intro allI impI)
  fix buf buf' v n
  assume d: "dec buf = Ok (v, n)" and l: "n \<le> length buf'" and t: "take n buf' = take n buf"
  from d have n: "n = k" "k \<le> length buf" by (auto simp: assms(1) rbind_eq_Ok split: if_splits)
  with take_eq_array [OF t, of ix] l assms(2) d show "dec buf' = Ok (v, n)"
    by (auto simp: assms(1) split: if_splits)
qed

lemma reads_prefix_scalars:
  "reads_prefix decode_tlv_integer" "reads_prefix decode_tlv_float" "reads_prefix decode_tlv_bool"
proof -
  show "reads_prefix decode_tlv_integer"
    by (rule reads_prefix_fixed) (auto simp: decode_tlv_integer_def fun_eq_iff)
  show "reads_prefix decode_tlv_float"
    by (rule reads_prefix_fixed) (auto simp: decode_tlv_float_def fun_eq_iff)
  show "reads_prefix decode_tlv_bool"
    by (rule reads_prefix_fixed [where ix = "[1]" and f = "\<lambda>b. Bool (b ! 0 \<noteq> 0)"])
      (auto simp: decode_tlv_bool_def fun_eq_iff rs_array_def rs_index_def)
qed

lemma reads_prefix_string: "reads_prefix decode_tlv_string"
  unfolding reads_prefix_def
proof (intro allI impI)
  fix buf buf' v n
  assume d: "decode_tlv_string buf = Ok (v, n)" and l: "n \<le> length buf'" and t: "take n buf' = take n buf"
  let ?len = "unat (u32_from_be_bytes (map (\<lambda>i. buf ! i) [1, 2, 3, 4]))"
  from d have n: "n = 5 + ?len" "n \<le> length buf"
    by (auto simp: decode_tlv_string_def rbind_eq_Ok rs_array_def Let_def split: if_splits)
  have "rs_array buf' [1, 2, 3, 4] = rs_array buf [1, 2, 3, 4]"
    using n l by (intro take_eq_array [OF t]) auto
  moreover have "take ?len (drop 5 buf') = take ?len (drop 5 buf)"
    using n by (intro take_eq_drop [OF t]) simp
  ultimately show "decode_tlv_string buf' = Ok (v, n)"
    using d l n by (auto simp: decode_tlv_string_def rs_slice_def rs_array_def Let_def split: if_splits)
qed

lemma decode_count_prefix:
  assumes "decode_tlv_count kind buf = Ok c" "5 \<le> n" "n \<le> length buf'" "take n buf' = take n buf"
  shows "decode_tlv_count kind buf' = Ok c"
proof -
  have "5 \<le> length buf" using decode_count_cases(1) [OF assms(1)] by simp
  moreover have "take 5 buf' = take 5 buf" using assms(2,4) by (rule take_eq_mono [rotated])
  ultimately have "rs_array buf' [1, 2, 3, 4] = rs_array buf [1, 2, 3, 4]"
    using assms(2,3) by (intro take_eq_array [of 5]) auto
  with assms \<open>5 \<le> length buf\<close> show ?thesis by (simp add: decode_tlv_count_def)
qed

lemma reads_prefix_inner: "reads_prefix (\<lambda>buf. decode_json_value_inner buf depth)"
proof (induction depth rule: depth_induct)
  case (level depth)
  let ?dec = "\<lambda>rest. decode_json_value_inner rest (depth + 1)"
  show ?case unfolding reads_prefix_def
  proof (intro allI impI)
    fix buf buf' v n
    assume d: "decode_json_value_inner buf depth = Ok (v, n)"
      and l: "n \<le> length buf'" and t: "take n buf' = take n buf"
    have n: "0 < n" "n \<le> length buf" using decode_inner_bound [OF d] by auto
    have depth: "depth \<le> 32" using d by (subst (asm) decode_json_value_inner.simps) (simp split: if_splits)
    have dec: "reads_prefix ?dec" "\<And>rest. decodes_within rest (?dec rest)"
      using level [OF depth] decode_inner_within by simp_all
    have ne: "buf \<noteq> []" "buf' \<noteq> []" "buf' ! 0 = buf ! 0"
      using n l take_eq_nth [OF t, of 0] by auto
    have arr: "rbind (decode_tlv_count ''array'' buf') (\<lambda>c. decode_array_loop ?dec c buf' [] 5) = Ok (v, n)"
      if "rbind (decode_tlv_count ''array'' buf) (\<lambda>c. decode_array_loop ?dec c buf [] 5) = Ok (v, n)"
      using that decode_count_prefix [OF _ _ l t, of "''array''"] reads_prefix_array_loop [OF dec, of _ buf "[]" 5 v n buf'] l t
      by (auto simp: rbind_eq_Ok)
    have obj: "rbind (decode_tlv_count ''object'' buf') (\<lambda>c. decode_object_loop ?dec c buf' [] 5) = Ok (v, n)"
      if "rbind (decode_tlv_count ''object'' buf) (\<lambda>c. decode_object_loop ?dec c buf [] 5) = Ok (v, n)"
      using that decode_count_prefix [OF _ _ l t, of "''object''"] reads_prefix_object_loop [OF dec, of _ buf "[]" 5 v n buf'] l t
      by (auto simp: rbind_eq_Ok)
    from d show "decode_json_value_inner buf' depth = Ok (v, n)"
      using depth ne arr obj reads_prefixD [OF reads_prefix_scalars(1) _ l t]
        reads_prefixD [OF reads_prefix_scalars(2) _ l t] reads_prefixD [OF reads_prefix_scalars(3) _ l t]
        reads_prefixD [OF reads_prefix_string _ l t]
      by (subst decode_json_value_inner.simps, subst (asm) decode_json_value_inner.simps)
        (simp add: rs_index_def split: if_splits)
  qed
qed

lemma decode_prefix:
  assumes "decode_json_value buf = Ok (v, n)" "n \<le> length buf'" "take n buf' = take n buf"
  shows "decode_json_value buf' = Ok (v, n)"
  using reads_prefixD [OF reads_prefix_inner, of buf 0 v n buf'] assms by (simp add: decode_json_value_def)

subsection \<open>Properties\<close>

lemma decode_reencode:
  assumes "decode_json_value buf = Ok (v, n)"
  shows "encode_json_value v [] = (tlv v, Ok ())" "decode_json_value (tlv v) = Ok (v, length (tlv v))"
  using encode_tlv [of v "[]"] decode_encodable [OF assms] server_tlv.dec_enc_exact by simp_all

text \<open>C1: what the TLV encoder appends for a value within the limits of the format, the decoder
  reads back exactly, whatever bytes follow, consuming exactly the bytes appended.\<close>

theorem tlv_round_trip:
  assumes "tlv_encodable v"
  shows "\<exists>b. encode_json_value v buf = (buf @ b, Ok ()) \<and> decode_json_value (b @ rest) = Ok (v, length b)"
  using encode_tlv [OF assms] decode_tlv [OF assms] by blast

theorem tlv_round_trip_witness:
  "\<exists>b. encode_json_value (Object [(''a'', Array [Null, Bool True, Number (PosInt 7)])]) [9] = ([9] @ b, Ok ())
     \<and> decode_json_value (b @ [1, 2]) = Ok (Object [(''a'', Array [Null, Bool True, Number (PosInt 7)])], length b)"
  by (rule tlv_round_trip) (simp add: tlv_encodable_def rust_str_ascii jmap_sorted_def)

text \<open>C3: on arbitrary bytes the decoder never panics; when it succeeds it consumed at least one
  byte and no more than there are, and the value keeps the invariant of JSON values and every
  limit of the format, so that encoding it again succeeds and decodes to the same value.\<close>

theorem decode_total:
  "case decode_json_value buf of
     Ok (v, n) \<Rightarrow> 0 < n \<and> n \<le> length buf \<and> tlv_encodable v
       \<and> (\<exists>b. encode_json_value v [] = (b, Ok ()) \<and> decode_json_value b = Ok (v, length b))
   | Err e \<Rightarrow> True
   | Panic \<Rightarrow> False"
  using server_tlv.dec_bound decode_encodable decode_reencode decode_inner_no_panic [of buf 0]
  by (auto simp: decode_json_value_def [of buf, symmetric] split: rust.split)

text \<open>C4: the in-place walker agrees with the decoder on every buffer: it fails only where the
  decoder fails, and where it succeeds the decoder either consumes the same number of bytes or
  refuses a string that is not UTF-8. It never panics.\<close>

theorem skip_mirrors_decode:
  "case skip_tlv_value buf of
     Ok n \<Rightarrow> 0 < n \<and> n \<le> length buf \<and>
       ((\<exists>v. decode_json_value buf = Ok (v, n)) \<or> (\<exists>i e. decode_json_value buf = Err (utf8_error_display i e)))
   | Err _ \<Rightarrow> (\<exists>e. decode_json_value buf = Err e)
   | Panic \<Rightarrow> False"
  using skip_agrees [of buf] skip_value_within [of buf] by (auto split: rust.split)

text \<open>The encoder appends exactly the wire image of the value when every object key fits a
  16-bit length, and otherwise reports the overlong key, having only appended to the buffer.\<close>

theorem encode_exact:
  "if keys_fit v then encode_json_value v buf = (buf @ tlv v, Ok ())
   else \<exists>p. encode_json_value v buf = (buf @ p, Err key_too_long)"
  using encode_fits(1) encode_overlong(1) by simp

text \<open>C8: on the encoding of an object, the in-place extraction of a tool call returns what decoding
  and indexing would: the name when it is a string, and the encoded arguments.\<close>

theorem extract_tools_call_exact:
  assumes "tlv_encodable (Object m)"
  shows "\<exists>b. encode_json_value (Object m) [] = (b, Ok ())
     \<and> extract_tools_call_fields (b @ rest)
         = Ok (as_str (value_index (Object m) ''name''), map_option tlv (map_of m ''arguments''))"
proof -
  have "named_string (Some x) None = as_str x" for x by (cases x) (simp_all add: named_string_def)
  then have "named_string (map_of m ''name'') None = as_str (value_index (Object m) ''name'')"
    by (simp add: named_string_def value_index_def split: option.split)
  moreover have "encoded_field (map_of m ''arguments'') None = map_option tlv (map_of m ''arguments'')"
    by (simp add: encoded_field_def split: option.split)
  ultimately show ?thesis using encode_tlv [OF assms, of "[]"] extract_tools_call_tlv [OF assms, of rest]
    by (intro exI [of _ "tlv (Object m)"]) simp
qed

theorem extract_tools_call_exact_witness:
  "\<exists>b. encode_json_value (Object [(''arguments'', Bool True), (''name'', String ''echo'')]) [] = (b, Ok ())
     \<and> extract_tools_call_fields (b @ []) = Ok (Some ''echo'', Some [3, 1])"
  using extract_tools_call_exact [of "[(''arguments'', Bool True), (''name'', String ''echo'')]" "[]"]
  by (simp add: tlv_encodable_def rust_str_ascii jmap_sorted_def value_index_def)

end
