(* ===== verification/Nda_Frame.thy ===== *)
theory Nda_Frame
  imports Tlv_Laws
begin

text \<open>
  The frames of the native binary protocol (\<open>protocol/nda_native.rs\<close>): method codes, request
  and response builders, the two request parsers (the decoding one and the in-place one), the
  encrypted variant, and the direct encoder of the tool list with its cache.

  SHA-256 and AES-256-GCM come from crates outside the repository; they are the fields of a
  record passed to every definition that uses them. The cargo feature \<open>oauth2\<close>, which compiles
  the encrypted variant in, is the Boolean argument \<open>oauth2\<close>. A poisoned lock around the
  session key is not modelled.
\<close>

record 'c crypto =
  sha256 :: "bytes \<Rightarrow> bytes"
  cipher_new :: "bytes \<Rightarrow> string + 'c"
  cipher_encrypt :: "'c \<Rightarrow> bytes \<Rightarrow> bytes \<Rightarrow> string + bytes"
  cipher_decrypt :: "'c \<Rightarrow> bytes \<Rightarrow> bytes \<Rightarrow> string + bytes"

text \<open>The process-wide switches and caches of the module.\<close>

record nda_globals =
  merkle_enabled :: bool
  session_key :: "bytes option"
  tools_list_cache :: "(u64 \<times> bytes) option"

definition set_merkle_enabled :: "bool \<Rightarrow> nda_globals \<Rightarrow> nda_globals" where
  "set_merkle_enabled b g = g\<lparr>merkle_enabled := b\<rparr>"

definition set_session_encryption_key :: "bytes \<Rightarrow> nda_globals \<Rightarrow> nda_globals" where
  "set_session_encryption_key key g = g\<lparr>session_key := Some key\<rparr>"

definition clear_session_key :: "nda_globals \<Rightarrow> nda_globals" where
  "clear_session_key g = g\<lparr>session_key := None\<rparr>"

subsection \<open>Method codes and constants\<close>

definition METHOD_INITIALIZE :: u8 where [simp]: "METHOD_INITIALIZE = 0x01"
definition METHOD_TOOLS_LIST :: u8 where [simp]: "METHOD_TOOLS_LIST = 0x02"
definition METHOD_TOOLS_CALL :: u8 where [simp]: "METHOD_TOOLS_CALL = 0x03"
definition METHOD_PING :: u8 where [simp]: "METHOD_PING = 0x04"
definition METHOD_LOGGING_SET_LEVEL :: u8 where [simp]: "METHOD_LOGGING_SET_LEVEL = 0x05"
definition METHOD_HEALTH_CHECK :: u8 where [simp]: "METHOD_HEALTH_CHECK = 0x06"
definition METHOD_RESOURCES_LIST :: u8 where [simp]: "METHOD_RESOURCES_LIST = 0x07"
definition METHOD_RESOURCES_READ :: u8 where [simp]: "METHOD_RESOURCES_READ = 0x08"
definition METHOD_RESOURCE_TEMPLATES_LIST :: u8 where [simp]: "METHOD_RESOURCE_TEMPLATES_LIST = 0x09"
definition METHOD_PROMPTS_LIST :: u8 where [simp]: "METHOD_PROMPTS_LIST = 0x0A"
definition METHOD_PROMPTS_GET :: u8 where [simp]: "METHOD_PROMPTS_GET = 0x0B"
definition METHOD_SAMPLING_CREATE :: u8 where [simp]: "METHOD_SAMPLING_CREATE = 0x0C"
definition NOTIF_INITIALIZED :: u8 where [simp]: "NOTIF_INITIALIZED = 0x10"
definition NOTIF_CANCELLED :: u8 where [simp]: "NOTIF_CANCELLED = 0x11"
definition NOTIF_PROGRESS :: u8 where [simp]: "NOTIF_PROGRESS = 0x12"

definition STATUS_OK :: u8 where [simp]: "STATUS_OK = 0"
definition STATUS_ERROR :: u8 where [simp]: "STATUS_ERROR = 1"

definition NDA_MAGIC :: bytes where
  "NDA_MAGIC = as_bytes ''NMCP''"

definition NDA_ENCRYPTED_MAGIC :: bytes where
  "NDA_ENCRYPTED_MAGIC = as_bytes ''NMCE''"

definition FRAME_HEADER_SIZE :: nat where [simp]: "FRAME_HEADER_SIZE = 36"

definition FLAG_ENCRYPTED :: u8 where [simp]: "FLAG_ENCRYPTED = 0x80"

definition is_nda_frame :: "bytes \<Rightarrow> bool" where
  "is_nda_frame data \<longleftrightarrow> length data \<ge> 4 \<and> take 4 data = NDA_MAGIC"

definition is_nda_frame_encrypted :: "bytes \<Rightarrow> bool" where
  "is_nda_frame_encrypted frame \<longleftrightarrow> length frame \<ge> 4 \<and> take 4 frame = NDA_ENCRYPTED_MAGIC"

definition method_name :: "u8 \<Rightarrow> string" where
  "method_name method =
     (if method = METHOD_INITIALIZE then ''initialize''
      else if method = METHOD_TOOLS_LIST then ''tools/list''
      else if method = METHOD_TOOLS_CALL then ''tools/call''
      else if method = METHOD_PING then ''ping''
      else if method = METHOD_LOGGING_SET_LEVEL then ''logging/setLevel''
      else if method = METHOD_HEALTH_CHECK then ''health/check''
      else if method = METHOD_RESOURCES_LIST then ''resources/list''
      else if method = METHOD_RESOURCES_READ then ''resources/read''
      else if method = METHOD_RESOURCE_TEMPLATES_LIST then ''resources/templates/list''
      else if method = METHOD_PROMPTS_LIST then ''prompts/list''
      else if method = METHOD_PROMPTS_GET then ''prompts/get''
      else if method = METHOD_SAMPLING_CREATE then ''sampling/createMessage''
      else if method = NOTIF_INITIALIZED then ''notifications/initialized''
      else if method = NOTIF_CANCELLED then ''notifications/cancelled''
      else if method = NOTIF_PROGRESS then ''notifications/progress''
      else ''unknown'')"

definition method_from_str :: "string \<Rightarrow> u8 option" where
  "method_from_str name =
     (if name = ''initialize'' then Some METHOD_INITIALIZE
      else if name = ''tools/list'' then Some METHOD_TOOLS_LIST
      else if name = ''tools/call'' then Some METHOD_TOOLS_CALL
      else if name = ''ping'' then Some METHOD_PING
      else if name = ''logging/setLevel'' then Some METHOD_LOGGING_SET_LEVEL
      else if name = ''health/check'' then Some METHOD_HEALTH_CHECK
      else if name = ''resources/list'' then Some METHOD_RESOURCES_LIST
      else if name = ''resources/read'' then Some METHOD_RESOURCES_READ
      else if name = ''resources/templates/list'' then Some METHOD_RESOURCE_TEMPLATES_LIST
      else if name = ''prompts/list'' then Some METHOD_PROMPTS_LIST
      else if name = ''prompts/get'' then Some METHOD_PROMPTS_GET
      else if name = ''sampling/createMessage'' then Some METHOD_SAMPLING_CREATE
      else if name = ''notifications/initialized'' then Some NOTIF_INITIALIZED
      else if name = ''notifications/cancelled'' then Some NOTIF_CANCELLED
      else if name = ''notifications/progress'' then Some NOTIF_PROGRESS
      else None)"

subsection \<open>Building frames\<close>

text \<open>The empty object \<open>{}\<close> as a TLV value, the result of the acknowledging methods.\<close>

definition EMPTY_OBJECT_TLV :: bytes where
  "EMPTY_OBJECT_TLV = [0x06, 0, 0, 0, 0]"

definition build_nda_response_raw :: "u8 \<Rightarrow> bytes \<Rightarrow> bytes \<Rightarrow> bytes" where
  "build_nda_response_raw status id_tlv result_tlv =
     NDA_MAGIC @ replicate 32 0 @ [status] @ id_tlv @ result_tlv"

definition build_nda_response_frame :: "bytes \<Rightarrow> bytes" where
  "build_nda_response_frame payload = NDA_MAGIC @ replicate 32 0 @ payload"

definition build_nda_response_raw_text :: "u8 \<Rightarrow> bytes \<Rightarrow> string \<Rightarrow> bytes" where
  "build_nda_response_raw_text status id_tlv text =
     NDA_MAGIC @ replicate 32 0 @ [status] @ id_tlv @ [0x01] @ len_u32 (length text) @ as_bytes text"

definition build_nda_error_raw :: "bytes \<Rightarrow> string \<Rightarrow> bytes" where
  "build_nda_error_raw id_tlv error_msg =
     (let result = [0x01] @ len_u32 (length error_msg) @ as_bytes error_msg
      in build_nda_response_raw STATUS_ERROR id_tlv result)"

definition build_nda_frame :: "'c crypto \<Rightarrow> nda_globals \<Rightarrow> bytes \<Rightarrow> bytes" where
  "build_nda_frame C g payload =
     NDA_MAGIC @ (if merkle_enabled g then sha256 C payload else replicate 32 0) @ payload"

text \<open>The operator \<open>?\<close> on a call that appends to a buffer.\<close>

definition try_buf :: "bytes \<times> unit rust \<Rightarrow> (bytes \<Rightarrow> 'a rust) \<Rightarrow> 'a rust" where
  "try_buf r f = (case r of (buf, Ok _) \<Rightarrow> f buf | (buf, Err e) \<Rightarrow> Err e | (buf, Panic) \<Rightarrow> Panic)"

definition build_nda_response :: "u8 \<Rightarrow> value \<Rightarrow> value \<Rightarrow> bytes rust" where
  "build_nda_response status request_id result =
     try_buf (encode_json_value request_id [status]) (\<lambda>payload.
       try_buf (encode_json_value result payload) (\<lambda>payload.
         Ok (build_nda_response_frame payload)))"

definition build_nda_error :: "value \<Rightarrow> string \<Rightarrow> bytes rust" where
  "build_nda_error request_id error_msg = build_nda_response STATUS_ERROR request_id (String error_msg)"

definition build_nda_request :: "'c crypto \<Rightarrow> nda_globals \<Rightarrow> u8 \<Rightarrow> value \<Rightarrow> value \<Rightarrow> bytes rust" where
  "build_nda_request C g method request_id data =
     try_buf (encode_json_value request_id [method]) (\<lambda>payload.
       if \<not> is_null data then
         try_buf (encode_json_value data payload) (\<lambda>payload. Ok (build_nda_frame C g payload))
       else Ok (build_nda_frame C g payload))"

subsection \<open>Encrypted frames\<close>

definition no_session_key :: string where
  "no_session_key = ''Session encryption key not set. Call set_session_encryption_key() first.''"

text \<open>The random nonce is drawn by the caller of the model.\<close>

definition build_nda_encrypted_frame ::
  "'c crypto \<Rightarrow> nda_globals \<Rightarrow> bytes \<Rightarrow> u8 \<Rightarrow> value \<Rightarrow> value \<Rightarrow> bytes rust" where
  "build_nda_encrypted_frame C g nonce method request_id data =
     try_buf (encode_json_value request_id [or method FLAG_ENCRYPTED]) (\<lambda>plaintext.
       try_buf (if \<not> is_null data then encode_json_value data plaintext else (plaintext, Ok ())) (\<lambda>plaintext.
         let merkle = (if merkle_enabled g then sha256 C plaintext else replicate 32 0) in
         case session_key g of
           None \<Rightarrow> Err no_session_key
         | Some key \<Rightarrow>
           (case cipher_new C key of
              Inl e \<Rightarrow> Err (''Failed to create cipher: '' @ e)
            | Inr cipher \<Rightarrow>
              (case cipher_encrypt C cipher nonce plaintext of
                 Inl e \<Rightarrow> Err (''Failed to encrypt payload: '' @ e)
               | Inr ciphertext \<Rightarrow> Ok (NDA_ENCRYPTED_MAGIC @ merkle @ nonce @ ciphertext)))))"

definition decrypt_nda_frame_payload :: "'c crypto \<Rightarrow> nda_globals \<Rightarrow> bytes \<Rightarrow> bytes rust" where
  "decrypt_nda_frame_payload C g frame =
     (if length frame < FRAME_HEADER_SIZE + 12 then Err ''Encrypted frame too short''
      else if take 4 frame \<noteq> NDA_ENCRYPTED_MAGIC then Err ''Invalid encrypted frame: bad magic''
      else rbind (rs_slice frame FRAME_HEADER_SIZE (FRAME_HEADER_SIZE + 12)) (\<lambda>nonce.
        rbind (rs_slice_from frame (FRAME_HEADER_SIZE + 12)) (\<lambda>ciphertext.
          case session_key g of
            None \<Rightarrow> Err no_session_key
          | Some key \<Rightarrow>
            (case cipher_new C key of
               Inl e \<Rightarrow> Err (''Failed to create cipher: '' @ e)
             | Inr cipher \<Rightarrow>
               (case cipher_decrypt C cipher nonce ciphertext of
                  Inl e \<Rightarrow> Err (''Failed to decrypt payload: '' @ e)
                | Inr plaintext \<Rightarrow> Ok plaintext)))))"

subsection \<open>Parsing requests\<close>

record nda_request =
  nr_method :: u8
  nr_request_id :: "value"
  nr_data :: "value"

definition verify_merkle :: "'c crypto \<Rightarrow> nda_globals \<Rightarrow> bytes \<Rightarrow> bytes \<Rightarrow> string \<Rightarrow> unit rust" where
  "verify_merkle C g stored payload msg =
     (if merkle_enabled g \<and> stored \<noteq> sha256 C payload then Err msg else Ok ())"

definition decrypt_failed :: "bytes rust \<Rightarrow> bytes rust" where
  "decrypt_failed r = (case r of Err e \<Rightarrow> Err (''Encrypted frame decryption failed: '' @ e) | _ \<Rightarrow> r)"

text \<open>The header checks and the choice of the payload, common to both parsers.\<close>

definition frame_payload :: "'c crypto \<Rightarrow> nda_globals \<Rightarrow> bool \<Rightarrow> bytes \<Rightarrow> (bool \<times> bytes) rust" where
  "frame_payload C g oauth2 frame =
     (if length frame < FRAME_HEADER_SIZE then Err ''NDA frame too small for header''
      else
        let magic = take 4 frame; stored_merkle = take 32 (drop 4 frame);
            is_encrypted = (magic = NDA_ENCRYPTED_MAGIC); is_plaintext = (magic = NDA_MAGIC) in
        if \<not> is_encrypted \<and> \<not> is_plaintext then Err ''Invalid NDA magic''
        else if is_encrypted \<and> \<not> oauth2 then
          Err ''Encrypted frame received but oauth2 feature is not enabled''
        else if is_encrypted then
          rbind (decrypt_failed (decrypt_nda_frame_payload C g frame)) (\<lambda>plaintext.
            rbind (verify_merkle C g stored_merkle plaintext
                     ''NDA frame Merkle root mismatch after decryption'') (\<lambda>_. Ok (True, plaintext)))
        else
          let payload = drop FRAME_HEADER_SIZE frame in
          rbind (verify_merkle C g stored_merkle payload ''NDA frame Merkle root mismatch'')
            (\<lambda>_. Ok (False, payload)))"

definition parse_nda_request ::
  "'c crypto \<Rightarrow> nda_globals \<Rightarrow> bool \<Rightarrow> bytes \<Rightarrow> nda_request rust" where
  "parse_nda_request C g oauth2 frame =
     rbind (frame_payload C g oauth2 frame) (\<lambda>(_, payload).
       if payload = [] then Err ''NDA payload is empty''
       else
         let method = (if oauth2 then and (payload ! 0) (not FLAG_ENCRYPTED) else payload ! 0) in
         rbind (rs_slice_from payload 1) (\<lambda>rest.
           rbind (decode_json_value rest) (\<lambda>(request_id, consumed).
             let offset = 1 + consumed in
             if offset < length payload then
               rbind (rs_slice_from payload offset) (\<lambda>rest.
                 rbind (decode_json_value rest) (\<lambda>(d, data_consumed).
                   let offset = offset + data_consumed in
                   if offset \<noteq> length payload then
                     Err (''NDA frame has '' @ dec_of_nat (length payload - offset)
                          @ '' trailing bytes after payload'')
                   else Ok \<lparr>nr_method = method, nr_request_id = request_id, nr_data = d\<rparr>))
             else Ok \<lparr>nr_method = method, nr_request_id = request_id, nr_data = Null\<rparr>)))"

record nda_request_ref =
  rr_method :: u8
  rr_id_tlv :: bytes
  rr_data :: bytes
  rr_owned_payload :: "bytes option"

definition parse_nda_request_inplace ::
  "'c crypto \<Rightarrow> nda_globals \<Rightarrow> bool \<Rightarrow> bytes \<Rightarrow> nda_request_ref rust" where
  "parse_nda_request_inplace C g oauth2 frame =
     rbind (frame_payload C g oauth2 frame) (\<lambda>(encrypted, payload).
       if length payload < 2 then Err ''NDA payload too small for method + id''
       else
         let method = (if encrypted then and (payload ! 0) (not FLAG_ENCRYPTED) else payload ! 0) in
         rbind (rs_slice_from payload 1) (\<lambda>rest.
           rbind (skip_tlv_value rest) (\<lambda>id_len.
             rbind (rs_slice payload 1 (1 + id_len)) (\<lambda>id_tlv.
               rbind (rs_slice_from payload (1 + id_len)) (\<lambda>data.
                 Ok \<lparr>rr_method = method, rr_id_tlv = id_tlv, rr_data = data,
                     rr_owned_payload = (if encrypted then Some payload else None)\<rparr>)))))"

subsection \<open>Pre-encoded results\<close>

definition VERSION :: string where
  "VERSION = ''3.2.1''"

definition PROTOCOL_VERSION :: string where
  "PROTOCOL_VERSION = ''2024-11-05''"

definition health_result_tlv :: bytes where
  "health_result_tlv =
     fst (encode_json_value (json_obj [(''status'', String ''healthy''), (''mode'', String ''shmem-nda''),
            (''version'', String VERSION)]) [])"

record tool =
  tool_name :: string
  tool_description :: string
  tool_input_schema :: "value"

text \<open>A tool as \<open>serde\<close> serialises it.\<close>

definition tool_json :: "tool \<Rightarrow> value" where
  "tool_json t = json_obj [(''name'', String (tool_name t)), (''description'', String (tool_description t)),
     (''inputSchema'', tool_input_schema t)]"

fun encode_tool_list :: "tool list \<Rightarrow> bytes \<Rightarrow> bytes \<times> unit rust" where
  "encode_tool_list [] buf = (buf, Ok ())"
| "encode_tool_list (t # ts) buf =
     (let buf = buf @ [0x06] @ u32_to_be_bytes 3
           @ u16_to_be_bytes 11 @ as_bytes ''description'' @ [0x01]
           @ len_u32 (length (tool_description t)) @ as_bytes (tool_description t)
           @ u16_to_be_bytes 11 @ as_bytes ''inputSchema''
      in case encode_json_value (tool_input_schema t) buf of
           (buf, Ok _) \<Rightarrow>
             encode_tool_list ts (buf @ u16_to_be_bytes 4 @ as_bytes ''name'' @ [0x01]
               @ len_u32 (length (tool_name t)) @ as_bytes (tool_name t))
         | (buf, e) \<Rightarrow> (buf, e))"

definition encode_tools_list_result :: "bytes \<Rightarrow> tool list \<Rightarrow> bytes \<times> unit rust" where
  "encode_tools_list_result buf tools =
     encode_tool_list tools
       (buf @ [0x06] @ u32_to_be_bytes 1 @ u16_to_be_bytes 5 @ as_bytes ''tools'' @ [0x05]
        @ len_u32 (length tools))"

text \<open>
  The cached encoding. The registry is read through three operations on its own state: the
  generation counter, the tool list (which may itself advance the registry: the first call
  discovers tools), and the generation again.
\<close>

definition encoded_tools_list_result ::
  "('r \<Rightarrow> u64) \<Rightarrow> ('r \<Rightarrow> tool list \<times> 'r) \<Rightarrow> nda_globals \<Rightarrow> 'r \<Rightarrow> bytes \<times> nda_globals \<times> 'r" where
  "encoded_tools_list_result registry_generation get_tools g r =
     (let gen = registry_generation r;
          miss = (let (tools, r') = get_tools r;
                      bs = fst (encode_tools_list_result [] tools);
                      gen_after = registry_generation r'
                  in (bs, if gen_after = gen then g\<lparr>tools_list_cache := Some (gen_after, bs)\<rparr> else g, r'))
      in case tools_list_cache g of
           Some (c, bs) \<Rightarrow> if c = gen then (bs, g, r) else miss
         | None \<Rightarrow> miss)"

end
