(* ===== verification/Nda_Laws.thy ===== *)
theory Nda_Laws
  imports Nda_Frame
begin

text \<open>
  What the frames of the native protocol guarantee: requests round trip through both parsers in
  the plain and in the encrypted form, the in-place parser finds the slices whose decoding the
  other parser returns, no parser panics on any bytes, a wrong digest is refused, and the direct
  encoder of the tool list writes the bytes of the generic encoder.
\<close>

subsection \<open>Plaintext frames\<close>

definition digests_32 :: "'c crypto \<Rightarrow> bool" where
  "digests_32 C \<longleftrightarrow> (\<forall>p. length (sha256 C p) = 32)"

lemma magic_length [simp]: "length NDA_MAGIC = 4" "length NDA_ENCRYPTED_MAGIC = 4"
  by (simp_all add: NDA_MAGIC_def NDA_ENCRYPTED_MAGIC_def)

lemma magic_distinct [simp]: "NDA_MAGIC \<noteq> NDA_ENCRYPTED_MAGIC" "NDA_ENCRYPTED_MAGIC \<noteq> NDA_MAGIC"
  by (simp_all add: NDA_MAGIC_def NDA_ENCRYPTED_MAGIC_def byte_of_char_def)

lemma try_buf_simps [simp]:
  "try_buf (buf, Ok u) f = f buf" "try_buf (buf, Err e) f = Err e" "try_buf (buf, Panic) f = Panic"
  by (simp_all add: try_buf_def)

text \<open>The payload of a request: the data is left out when it is null.\<close>

definition request_payload :: "u8 \<Rightarrow> value \<Rightarrow> value \<Rightarrow> bytes" where
  "request_payload method request_id data =
     [method] @ tlv request_id @ (if is_null data then [] else tlv data)"

lemma build_request_frame:
  "tlv_encodable i \<Longrightarrow> tlv_encodable d \<Longrightarrow>
   build_nda_request C g m i d = Ok (build_nda_frame C g (request_payload m i d))"
  by (simp add: build_nda_request_def encode_tlv request_payload_def)

definition framed :: "bytes \<Rightarrow> bytes \<Rightarrow> bytes \<Rightarrow> bytes" where
  "framed magic digest payload = magic @ digest @ payload"

lemma framed_parts [simp]:
  "length magic = 4 \<Longrightarrow> take 4 (framed magic digest payload) = magic"
  "length magic = 4 \<Longrightarrow> length digest = 32 \<Longrightarrow> take 32 (drop 4 (framed magic digest payload)) = digest"
  "length magic = 4 \<Longrightarrow> length digest = 32 \<Longrightarrow> drop 36 (framed magic digest payload) = payload"
  "length (framed magic digest payload) = length magic + length digest + length payload"
  by (simp_all add: framed_def)

lemma frame_payload_plain:
  assumes "length digest = 32"
  shows "frame_payload C g oauth2 (framed NDA_MAGIC digest payload) =
    rbind (verify_merkle C g digest payload ''NDA frame Merkle root mismatch'') (\<lambda>_. Ok (False, payload))"
  using assms by (simp add: frame_payload_def Let_def)

lemma build_frame_framed:
  "build_nda_frame C g payload = framed NDA_MAGIC (if merkle_enabled g then sha256 C payload else replicate 32 0) payload"
  by (simp add: build_nda_frame_def framed_def)

lemma frame_payload_built:
  assumes "digests_32 C" "merkle_enabled g' \<longrightarrow> merkle_enabled g"
  shows "frame_payload C g' oauth2 (build_nda_frame C g payload) = Ok (False, payload)"
  using assms by (simp add: build_frame_framed frame_payload_plain verify_merkle_def digests_32_def)

text \<open>The rest of the decoding parser, once the payload is known.\<close>

definition method_of :: "bool \<Rightarrow> u8 \<Rightarrow> u8" where
  "method_of masked m = (if masked then and m (not FLAG_ENCRYPTED) else m)"

lemma parse_payload_request:
  assumes "frame_payload C g oauth2 f = Ok (e, request_payload m i d)"
    and "tlv_encodable i" "tlv_encodable d"
  shows "parse_nda_request C g oauth2 f = Ok \<lparr>nr_method = method_of oauth2 m, nr_request_id = i, nr_data = d\<rparr>"
proof (cases "is_null d")
  case True
  with assms server_tlv.dec_enc_exact [OF assms(2)] show ?thesis
    by (simp add: parse_nda_request_def request_payload_def rs_slice_from_def Let_def method_of_def is_null_def)
next
  case False
  have "0 < length (tlv d)" using server_tlv.enc_nonempty [OF assms(3)] .
  moreover have "decode_json_value (tlv i @ tlv d) = Ok (i, length (tlv i))"
    by (rule decode_tlv [OF assms(2)])
  ultimately show ?thesis using False assms server_tlv.dec_enc_exact [OF assms(3)]
    by (simp add: parse_nda_request_def request_payload_def rs_slice_from_def Let_def method_of_def)
qed

lemma inplace_payload_request:
  assumes "frame_payload C g oauth2 f = Ok (e, request_payload m i d)" "tlv_encodable i"
  shows "parse_nda_request_inplace C g oauth2 f =
    Ok \<lparr>rr_method = method_of e m, rr_id_tlv = tlv i, rr_data = (if is_null d then [] else tlv d),
        rr_owned_payload = (if e then Some (request_payload m i d) else None)\<rparr>"
proof -
  have "0 < length (tlv i)" by (rule server_tlv.enc_nonempty [OF assms(2)])
  then have "\<not> length (request_payload m i d) < 2" by (cases "tlv i") (simp_all add: request_payload_def)
  moreover have "skip_tlv_value (tlv i @ (if is_null d then [] else tlv d)) = Ok (length (tlv i))"
    by (rule server_tlv.skip_enc [OF assms(2)])
  ultimately show ?thesis using assms(1)
    by (simp add: parse_nda_request_inplace_def request_payload_def rs_slice_from_def rs_slice_def Let_def
        method_of_def)
qed

lemma and_not_disjoint: "and m k = 0 \<Longrightarrow> and m (not k) = (m :: u8)"
proof -
  assume "and m k = 0"
  then have "\<not> (bit m n \<and> bit k n)" for n
    by (metis bit_and_iff bit_0_eq bot_apply bot_bool_def)
  then show ?thesis by (intro bit_word_eqI) (auto simp: bit_and_iff bit_not_iff)
qed

lemma or_and_not: "and (or m k) (not k) = and m (not (k :: u8))"
  by (intro bit_word_eqI) (auto simp: bit_and_iff bit_or_iff bit_not_iff)

lemma mask_clear [simp]: "and m FLAG_ENCRYPTED = 0 \<Longrightarrow> method_of b m = m"
  by (simp only: method_of_def and_not_disjoint if_cancel)

lemma mask_or: "method_of True (or m FLAG_ENCRYPTED) = method_of True m"
  by (simp only: method_of_def or_and_not if_True)

subsection \<open>Encrypted frames\<close>

text \<open>
  What the frames rely on of the cipher: the key is accepted, the payload is encrypted, and
  decryption under the same key and nonce inverts encryption.
\<close>

definition seals :: "'c crypto \<Rightarrow> bytes \<Rightarrow> bytes \<Rightarrow> bytes \<Rightarrow> bool" where
  "seals C key nonce p \<longleftrightarrow> (\<exists>c ct. cipher_new C key = Inr c \<and> cipher_encrypt C c nonce p = Inr ct
     \<and> cipher_decrypt C c nonce ct = Inr p)"

lemma build_encrypted_frame:
  assumes "tlv_encodable i" "tlv_encodable d" "session_key g = Some key" "cipher_new C key = Inr c"
    "cipher_encrypt C c nonce (request_payload (or m FLAG_ENCRYPTED) i d) = Inr ct"
  shows "build_nda_encrypted_frame C g nonce m i d = Ok (framed NDA_ENCRYPTED_MAGIC
    (if merkle_enabled g then sha256 C (request_payload (or m FLAG_ENCRYPTED) i d) else replicate 32 0)
    (nonce @ ct))"
  using assms by (cases "is_null d")
    (simp_all add: build_nda_encrypted_frame_def encode_tlv request_payload_def framed_def Let_def)

lemma frame_payload_encrypted:
  assumes "length digest = 32" "length nonce = 12" "session_key g = Some key" "cipher_new C key = Inr c"
    "cipher_decrypt C c nonce ct = Inr p"
  shows "frame_payload C g True (framed NDA_ENCRYPTED_MAGIC digest (nonce @ ct)) =
    rbind (verify_merkle C g digest p ''NDA frame Merkle root mismatch after decryption'') (\<lambda>_. Ok (True, p))"
proof -
  have "drop 48 (framed NDA_ENCRYPTED_MAGIC digest (nonce @ ct)) = ct"
    "take 12 (drop 36 (framed NDA_ENCRYPTED_MAGIC digest (nonce @ ct))) = nonce"
    using assms by (simp_all add: framed_def)
  then have "decrypt_nda_frame_payload C g (framed NDA_ENCRYPTED_MAGIC digest (nonce @ ct)) = Ok p"
    using assms by (simp add: decrypt_nda_frame_payload_def rs_slice_def rs_slice_from_def)
  then show ?thesis using assms by (simp add: frame_payload_def Let_def decrypt_failed_def)
qed

lemma sealed_frame:
  assumes "digests_32 C" "tlv_encodable i" "tlv_encodable d" "length nonce = 12"
    "session_key g = Some key" "session_key g' = Some key" "merkle_enabled g' \<longrightarrow> merkle_enabled g"
    "seals C key nonce (request_payload (or m FLAG_ENCRYPTED) i d)"
  shows "\<exists>f. build_nda_encrypted_frame C g nonce m i d = Ok f \<and> is_nda_frame_encrypted f
    \<and> frame_payload C g' True f = Ok (True, request_payload (or m FLAG_ENCRYPTED) i d)"
proof -
  let ?p = "request_payload (or m FLAG_ENCRYPTED) i d"
  let ?dig = "if merkle_enabled g then sha256 C ?p else replicate 32 0"
  obtain c ct where c: "cipher_new C key = Inr c" "cipher_encrypt C c nonce ?p = Inr ct"
    "cipher_decrypt C c nonce ct = Inr ?p"
    using assms(8) by (auto simp: seals_def)
  have dig: "length ?dig = 32" using assms(1) by (simp add: digests_32_def)
  have "build_nda_encrypted_frame C g nonce m i d = Ok (framed NDA_ENCRYPTED_MAGIC ?dig (nonce @ ct))"
    by (rule build_encrypted_frame [OF assms(2,3,5) c(1,2)])
  moreover have "frame_payload C g' True (framed NDA_ENCRYPTED_MAGIC ?dig (nonce @ ct)) = Ok (True, ?p)"
    using frame_payload_encrypted [OF dig assms(4,6) c(1,3)] assms(7)
    by (simp add: verify_merkle_def)
  moreover have "is_nda_frame_encrypted (framed NDA_ENCRYPTED_MAGIC ?dig (nonce @ ct))"
    using dig by (simp add: is_nda_frame_encrypted_def)
  ultimately show ?thesis by blast
qed

subsection \<open>Agreement of the two parsers\<close>

lemma decrypt_no_panic [simp]: "decrypt_nda_frame_payload C g f \<noteq> Panic"
  by (auto simp: decrypt_nda_frame_payload_def rs_slice_def rs_slice_from_def split: option.splits sum.splits)

lemma frame_payload_no_panic [simp]: "frame_payload C g oauth2 f \<noteq> Panic"
  by (auto simp: frame_payload_def Let_def rbind_eq_Panic verify_merkle_def decrypt_failed_def split: rust.splits)

lemma decode_no_panic [simp]: "decode_json_value buf \<noteq> Panic"
  by (simp add: decode_json_value_def)

lemma parse_request_no_panic [simp]: "parse_nda_request C g oauth2 f \<noteq> Panic"
proof -
  have bound: "n \<le> length buf" if "decode_json_value buf = Ok (v, n)" for buf v n
    using server_tlv.dec_bound [OF that] by simp
  show ?thesis unfolding parse_nda_request_def Let_def
    by (intro rbind_no_panic) (auto simp: rs_slice_from_def rbind_eq_Panic Suc_le_eq dest: bound split: if_splits)
qed

lemma inplace_no_panic [simp]: "parse_nda_request_inplace C g oauth2 f \<noteq> Panic"
proof -
  have "skip_tlv_value buf \<noteq> Panic" for buf using skip_value_within [of buf] by auto
  moreover have "n \<le> length buf" if "skip_tlv_value buf = Ok n" for buf n
    using skip_value_within [of buf] that by simp
  ultimately show ?thesis
    by (fastforce simp: parse_nda_request_inplace_def rbind_eq_Panic rs_slice_from_def rs_slice_def Let_def
        split: if_splits)
qed

text \<open>What the parsers make of a payload that both accept.\<close>

lemma parse_request_Ok:
  assumes "parse_nda_request C g oauth2 f = Ok q"
  obtains e m rest n where "frame_payload C g oauth2 f = Ok (e, m # rest)" "nr_method q = method_of oauth2 m"
    "decode_json_value rest = Ok (nr_request_id q, n)" "n \<le> length rest"
    "if drop n rest = [] then nr_data q = Null
     else decode_json_value (drop n rest) = Ok (nr_data q, length (drop n rest))"
proof -
  obtain e p where p: "frame_payload C g oauth2 f = Ok (e, p)" "p \<noteq> []"
    using assms by (auto simp: parse_nda_request_def rbind_eq_Ok split: if_splits)
  then obtain m rest where mr: "p = m # rest" by (cases p) auto
  obtain i n where i: "decode_json_value rest = Ok (i, n)"
    using assms by (auto simp: parse_nda_request_def p mr rs_slice_from_def Let_def rbind_eq_Ok)
  have n: "n \<le> length rest" using server_tlv.dec_bound [OF i] by simp
  show thesis
  proof (rule that [of e m rest n])
    show "frame_payload C g oauth2 f = Ok (e, m # rest)" using p mr by simp
    show "nr_method q = method_of oauth2 m" "decode_json_value rest = Ok (nr_request_id q, n)"
      "if drop n rest = [] then nr_data q = Null
       else decode_json_value (drop n rest) = Ok (nr_data q, length (drop n rest))"
      using assms i n
      by (auto simp: parse_nda_request_def p mr rs_slice_from_def Let_def rbind_eq_Ok method_of_def split: if_splits)
  qed (rule n)
qed

lemma inplace_of_parse:
  assumes "parse_nda_request C g oauth2 f = Ok q"
  obtains e m rest n where "frame_payload C g oauth2 f = Ok (e, m # rest)"
    "nr_method q = method_of oauth2 m"
    "parse_nda_request_inplace C g oauth2 f = Ok \<lparr>rr_method = method_of e m, rr_id_tlv = take n rest,
       rr_data = drop n rest, rr_owned_payload = (if e then Some (m # rest) else None)\<rparr>"
    "decode_json_value (take n rest) = Ok (nr_request_id q, n)" "n = length (take n rest)"
    "if drop n rest = [] then nr_data q = Null
     else decode_json_value (drop n rest) = Ok (nr_data q, length (drop n rest))"
  using assms
proof (rule parse_request_Ok)
  fix e m rest n
  assume a: "frame_payload C g oauth2 f = Ok (e, m # rest)" "nr_method q = method_of oauth2 m"
    "decode_json_value rest = Ok (nr_request_id q, n)" "n \<le> length rest"
    "if drop n rest = [] then nr_data q = Null
     else decode_json_value (drop n rest) = Ok (nr_data q, length (drop n rest))"
  have "0 < n" using server_tlv.dec_bound [OF a(3)] by simp
  then have "0 < length rest" using a(4) by linarith
  then have "parse_nda_request_inplace C g oauth2 f = Ok \<lparr>rr_method = method_of e m, rr_id_tlv = take n rest,
       rr_data = drop n rest, rr_owned_payload = (if e then Some (m # rest) else None)\<rparr>"
    using a(1,4) server_tlv.skip_dec [OF a(3)]
    by (simp add: parse_nda_request_inplace_def rs_slice_from_def rs_slice_def Let_def method_of_def)
  moreover have "decode_json_value (take n rest) = Ok (nr_request_id q, n)"
    using a(4) by (intro decode_prefix [OF a(3)]) auto
  ultimately show thesis using a by (intro that [of e m rest n]) auto
qed

lemma frame_payload_encrypted_oauth: "frame_payload C g oauth2 f = Ok (True, p) \<Longrightarrow> oauth2"
  by (auto simp: frame_payload_def Let_def rbind_eq_Ok split: if_splits)

lemma method_of_twice: "(e \<Longrightarrow> b) \<Longrightarrow> method_of b (method_of e m) = method_of b m"
  by (cases e) (auto simp only: method_of_def if_True if_False and.assoc and.idem)

lemma merkle_mismatch:
  assumes "merkle_enabled g" "36 \<le> length f" "is_nda_frame f" "take 32 (drop 4 f) \<noteq> sha256 C (drop 36 f)"
  shows "frame_payload C g oauth2 f = Err ''NDA frame Merkle root mismatch''"
  using assms by (simp add: frame_payload_def is_nda_frame_def verify_merkle_def Let_def)

subsection \<open>The tool list\<close>

lemma tool_json_sorted: "tool_json t = Object [(''description'', String (tool_description t)),
    (''inputSchema'', tool_input_schema t), (''name'', String (tool_name t))]"
  by (simp add: tool_json_def json_obj_def)

lemma encode_tool_list_items: "encode_tool_list ts buf = encode_items (map tool_json ts) buf"
proof (induction ts arbitrary: buf)
  case (Cons t ts)
  show ?case
    by (simp add: Cons.IH tool_json_sorted Let_def len_u32_def len_u16_def split: prod.splits rust.splits)
qed simp

subsection \<open>Method names\<close>

lemma method_name_known:
  "method_name m \<noteq> ''unknown'' \<Longrightarrow>
   m \<in> {1, 2, 3, 4, 5, 6, 7, 8, 9, 10, 11, 12, 16, 17, 18}"
  by (rule ccontr) (simp add: method_name_def)

lemma method_from_str_name: "method_name m \<noteq> ''unknown'' \<Longrightarrow> method_from_str (method_name m) = Some m"
  by (drule method_name_known) (elim insertE emptyE; simp add: method_name_def method_from_str_def)

lemma method_name_from_str: "method_from_str s = Some m \<Longrightarrow> method_name m = s \<and> s \<noteq> ''unknown''"
  by (simp add: method_from_str_def method_name_def split: if_split_asm)

lemma method_from_str_iff: "method_from_str s = Some m \<longleftrightarrow> method_name m = s \<and> s \<noteq> ''unknown''"
  using method_name_from_str method_from_str_name by blast

subsection \<open>Sample providers\<close>

text \<open>A total provider for which the laws the frames rely on hold.\<close>

definition sample_crypto :: "bytes crypto" where
  "sample_crypto = \<lparr>sha256 = \<lambda>p. replicate 32 (sum_list p), cipher_new = Inr,
     cipher_encrypt = \<lambda>c n p. Inr (rev p @ n @ c), cipher_decrypt = \<lambda>c n ct. Inr (rev (take (length ct - length n - length c) ct))\<rparr>"

definition sample_globals :: "bytes option \<Rightarrow> nda_globals" where
  "sample_globals key = \<lparr>merkle_enabled = True, session_key = key, tools_list_cache = None\<rparr>"

definition sample_off :: nda_globals where
  "sample_off = \<lparr>merkle_enabled = False, session_key = None, tools_list_cache = None\<rparr>"

lemma sample_digests: "digests_32 sample_crypto"
  by (simp add: digests_32_def sample_crypto_def)

lemma sample_seals: "seals sample_crypto key nonce p"
  by (simp add: seals_def sample_crypto_def)

subsection \<open>Properties\<close>

text \<open>C2: a request built from a method code with a clear flag bit and values within the format's
  limits is recognised as a frame and read back by the decoding parser; the in-place parser
  returns the same method and the encoded identifier and data. The receiver may have digest
  checking on only if the sender has; the digest is 32 bytes long.\<close>

theorem request_round_trip:
  assumes "digests_32 C" "tlv_encodable i" "tlv_encodable d" "and m FLAG_ENCRYPTED = 0"
    and "merkle_enabled g' \<longrightarrow> merkle_enabled g"
  shows "\<exists>f. build_nda_request C g m i d = Ok f \<and> is_nda_frame f
    \<and> parse_nda_request C g' oauth2 f = Ok \<lparr>nr_method = m, nr_request_id = i, nr_data = d\<rparr>
    \<and> parse_nda_request_inplace C g' oauth2 f = Ok \<lparr>rr_method = m, rr_id_tlv = tlv i,
        rr_data = (if is_null d then [] else tlv d), rr_owned_payload = None\<rparr>"
proof -
  let ?f = "build_nda_frame C g (request_payload m i d)"
  have p: "frame_payload C g' oauth2 ?f = Ok (False, request_payload m i d)"
    by (rule frame_payload_built [OF assms(1,5)])
  have "is_nda_frame ?f" by (simp add: is_nda_frame_def build_frame_framed)
  then show ?thesis
    using build_request_frame [OF assms(2,3)] parse_payload_request [OF p assms(2,3)]
      inplace_payload_request [OF p assms(2)] mask_clear [OF assms(4)]
    by (intro exI [of _ ?f]) simp
qed

theorem request_round_trip_witness:
  "\<exists>f. build_nda_request sample_crypto (sample_globals None) 3 (Number (PosInt 1)) (Bool True) = Ok f
    \<and> is_nda_frame f
    \<and> parse_nda_request sample_crypto (sample_globals None) True f
        = Ok \<lparr>nr_method = 3, nr_request_id = Number (PosInt 1), nr_data = Bool True\<rparr>
    \<and> parse_nda_request_inplace sample_crypto (sample_globals None) True f
        = Ok \<lparr>rr_method = 3, rr_id_tlv = tlv (Number (PosInt 1)),
            rr_data = (if is_null (Bool True) then [] else tlv (Bool True)), rr_owned_payload = None\<rparr>"
  by (rule request_round_trip) (simp_all add: sample_digests tlv_encodable_def)

text \<open>C7: an encrypted request is recognised as such and opened again under the same session key:
  both parsers return the method with the flag bit cleared, and the identifier and data sent.\<close>

theorem encrypted_round_trip:
  assumes "digests_32 C" "tlv_encodable i" "tlv_encodable d" "and m FLAG_ENCRYPTED = 0"
    and "merkle_enabled g' \<longrightarrow> merkle_enabled g" "length nonce = 12"
    and "session_key g = Some key" "session_key g' = Some key"
    and "seals C key nonce (request_payload (or m FLAG_ENCRYPTED) i d)"
  shows "\<exists>f r. build_nda_encrypted_frame C g nonce m i d = Ok f \<and> is_nda_frame_encrypted f
    \<and> parse_nda_request C g' True f = Ok \<lparr>nr_method = m, nr_request_id = i, nr_data = d\<rparr>
    \<and> parse_nda_request_inplace C g' True f = Ok r \<and> rr_method r = m \<and> rr_id_tlv r = tlv i
    \<and> rr_data r = (if is_null d then [] else tlv d)"
proof -
  obtain f where f: "build_nda_encrypted_frame C g nonce m i d = Ok f" "is_nda_frame_encrypted f"
    "frame_payload C g' True f = Ok (True, request_payload (or m FLAG_ENCRYPTED) i d)"
    using sealed_frame [OF assms(1-3,6-8,5,9)] by blast
  show ?thesis
    using f(1,2) parse_payload_request [OF f(3) assms(2,3)] inplace_payload_request [OF f(3) assms(2)]
      mask_or [of m] mask_clear [OF assms(4)] by simp
qed

theorem encrypted_round_trip_witness:
  "\<exists>f r. build_nda_encrypted_frame sample_crypto (sample_globals (Some [1])) (replicate 12 7) 4 (String ''a'') Null = Ok f
    \<and> is_nda_frame_encrypted f
    \<and> parse_nda_request sample_crypto (sample_globals (Some [1])) True f
        = Ok \<lparr>nr_method = 4, nr_request_id = String ''a'', nr_data = Null\<rparr>
    \<and> parse_nda_request_inplace sample_crypto (sample_globals (Some [1])) True f = Ok r
    \<and> rr_method r = 4 \<and> rr_id_tlv r = tlv (String ''a'')
    \<and> rr_data r = (if is_null Null then [] else tlv Null)"
  by (rule encrypted_round_trip [where key = "[1]"])
    (simp_all add: sample_digests tlv_encodable_def rust_str_ascii sample_globals_def sample_seals)

text \<open>C5: whatever frame the decoding parser accepts, the in-place parser accepts too, and the
  slices it returns decode, in full, to the identifier and the data of the decoding parser (no
  bytes standing for null); the methods agree up to the masking of the flag bit.\<close>

theorem parsers_agree:
  assumes "parse_nda_request C g oauth2 f = Ok q"
  shows "\<exists>r. parse_nda_request_inplace C g oauth2 f = Ok r
    \<and> nr_method q = (if oauth2 then and (rr_method r) (not FLAG_ENCRYPTED) else rr_method r)
    \<and> decode_json_value (rr_id_tlv r) = Ok (nr_request_id q, length (rr_id_tlv r))
    \<and> (if rr_data r = [] then nr_data q = Null
       else decode_json_value (rr_data r) = Ok (nr_data q, length (rr_data r)))"
  using assms
proof (rule inplace_of_parse)
  fix e m rest n
  assume a: "frame_payload C g oauth2 f = Ok (e, m # rest)" "nr_method q = method_of oauth2 m"
    "parse_nda_request_inplace C g oauth2 f = Ok \<lparr>rr_method = method_of e m, rr_id_tlv = take n rest,
       rr_data = drop n rest, rr_owned_payload = (if e then Some (m # rest) else None)\<rparr>"
    "decode_json_value (take n rest) = Ok (nr_request_id q, n)" "n = length (take n rest)"
    "if drop n rest = [] then nr_data q = Null
     else decode_json_value (drop n rest) = Ok (nr_data q, length (drop n rest))"
  have "nr_method q = method_of oauth2 (method_of e m)"
    using a(1,2) frame_payload_encrypted_oauth [of C g oauth2 f "m # rest"]
    by (cases e) (simp_all add: method_of_twice del: FLAG_ENCRYPTED_def)
  then show ?thesis using a(3-6) by (simp del: FLAG_ENCRYPTED_def add: method_of_def [of oauth2])
qed

theorem parsers_agree_witness:
  "\<exists>r. parse_nda_request_inplace sample_crypto sample_off False (framed NDA_MAGIC (replicate 32 0) [0x84, 4, 3, 1]) = Ok r
    \<and> 0x84 = rr_method r \<and> decode_json_value (rr_id_tlv r) = Ok (Null, length (rr_id_tlv r))
    \<and> decode_json_value (rr_data r) = Ok (Bool True, length (rr_data r))"
proof -
  have "parse_nda_request sample_crypto sample_off False (framed NDA_MAGIC (replicate 32 0) [0x84, 4, 3, 1])
      = Ok \<lparr>nr_method = 0x84, nr_request_id = Null, nr_data = Bool True\<rparr>"
    by code_simp
  from parsers_agree [OF this] show ?thesis by (auto split: if_splits)
qed


text \<open>C9: the direct encoder of the tool list appends byte for byte what the generic encoder
  appends for the object holding the serialised tools, errors included.\<close>

theorem tools_list_encoder_exact:
  "encode_tools_list_result buf tools = encode_json_value (json_obj [(''tools'', Array (map tool_json tools))]) buf"
  by (simp add: encode_tools_list_result_def json_obj_def len_u32_def len_u16_def
      encode_tool_list_items split: prod.splits rust.splits)

end
