(* ===== verification/Flat_Codec.thy ===== *)
theory Flat_Codec
  imports Nda_Laws
begin

text \<open>
  The flat encoding of tool calls at the end of \<open>protocol/nda_native.rs\<close>: scalars with
  little-endian lengths, containers flattened to the sequence of their scalars, and the request
  and response frames that carry them. A request round trips to the sequence of the scalars of
  its arguments; no parser panics, and the field loops end within the element limit.
\<close>

subsection \<open>Values\<close>

definition encode_flat_number :: "number \<Rightarrow> bytes" where
  "encode_flat_number n =
     (case number_as_i64 n of
        Some i \<Rightarrow> [0x02] @ u64_to_le_bytes i
      | None \<Rightarrow> (case number_as_f64 n of
          Some f \<Rightarrow> [0x05] @ u64_to_le_bytes f
        | None \<Rightarrow> [0x02] @ u64_to_le_bytes 0))"

fun encode_flat_value :: "value \<Rightarrow> bytes \<Rightarrow> bytes"
  and encode_flat_items :: "value list \<Rightarrow> bytes \<Rightarrow> bytes"
  and encode_flat_entries :: "jmap \<Rightarrow> bytes \<Rightarrow> bytes" where
  "encode_flat_value (String s) buf =
     buf @ [0x01] @ u32_to_le_bytes (word_of_nat (length s)) @ as_bytes s"
| "encode_flat_value (Number n) buf = buf @ encode_flat_number n"
| "encode_flat_value (Bool b) buf = buf @ [0x03] @ [if b then 1 else 0]"
| "encode_flat_value Null buf = buf @ [0x04]"
| "encode_flat_value (Array arr) buf = encode_flat_items arr buf"
| "encode_flat_value (Object obj) buf = encode_flat_entries obj buf"
| "encode_flat_items [] buf = buf"
| "encode_flat_items (item # arr) buf = encode_flat_items arr (encode_flat_value item buf)"
| "encode_flat_entries [] buf = buf"
| "encode_flat_entries ((_, val) # obj) buf = encode_flat_entries obj (encode_flat_value val buf)"

text \<open>Eight bytes read from an offset, as the array literals of the source spell them.\<close>

definition read_le8 :: "bytes \<Rightarrow> nat \<Rightarrow> u64 rust" where
  "read_le8 buf off = rbind (rs_array buf [off, off + 1, off + 2, off + 3, off + 4, off + 5, off + 6, off + 7])
     (\<lambda>b. Ok (u64_from_le_bytes b))"

definition decode_flat_string :: "bytes \<Rightarrow> nat \<Rightarrow> (value \<times> nat) rust" where
  "decode_flat_string buf offset =
     (if offset + 4 > length buf then Err ''Flat string: missing length''
      else rbind (rs_array buf [offset, offset + 1, offset + 2, offset + 3]) (\<lambda>b.
        let len = unat (u32_from_le_bytes b); offset = offset + 4 in
        if offset + len > length buf then Err ''Flat string: truncated''
        else rbind (rs_slice buf offset (offset + len)) (\<lambda>raw.
          rbind (str_from_utf8 raw) (\<lambda>s. Ok (String s, offset + len)))))"

definition decode_flat_value :: "bytes \<Rightarrow> nat \<Rightarrow> (value \<times> nat) rust" where
  "decode_flat_value buf offset =
     (if offset \<ge> length buf then Err ''Flat decode: unexpected end of buffer''
      else rbind (rs_index buf offset) (\<lambda>tag.
        let offset = offset + 1 in
        if tag = 0x01 then decode_flat_string buf offset
        else if tag = 0x02 then
          (if offset + 8 > length buf then Err ''Flat integer: missing data''
           else rbind (read_le8 buf offset) (\<lambda>i. Ok (json_i64 i, offset + 8)))
        else if tag = 0x05 then
          (if offset + 8 > length buf then Err ''Flat float: missing data''
           else rbind (read_le8 buf offset) (\<lambda>f. Ok (json_f64 f, offset + 8)))
        else if tag = 0x03 then
          (if offset + 1 > length buf then Err ''Flat bool: missing data''
           else rbind (rs_index buf offset) (\<lambda>b. Ok (Bool (b \<noteq> 0), offset + 1)))
        else if tag = 0x04 then Ok (Null, offset)
        else Err (''Flat decode: unknown tag 0x'' @ hex02 tag)))"

lemma read_le8_Ok: "off + 8 \<le> length buf \<Longrightarrow> \<exists>w. read_le8 buf off = Ok w"
  by (simp add: read_le8_def rs_array_def)

lemma read_le8_mid [rust_simps]:
  assumes "length l = 8"
  shows "read_le8 (pre @ l @ r) (length pre) = Ok (u64_from_le_bytes l)"
proof -
  have "map (\<lambda>i. (pre @ l @ r) ! i) [length pre, length pre + 1, length pre + 2, length pre + 3,
     length pre + 4, length pre + 5, length pre + 6, length pre + 7] = l"
    using assms by (intro nth_equalityI) (auto simp: nth_append less_Suc_eq numeral_eq_Suc)
  with assms show ?thesis unfolding read_le8_def rs_array_def by (simp del: list.map)
qed

definition advances :: "bytes \<Rightarrow> nat \<Rightarrow> (value \<times> nat) rust \<Rightarrow> bool" where
  "advances buf off r \<longleftrightarrow> (case r of Ok (v, off') \<Rightarrow> off < off' \<and> off' \<le> length buf \<and> value_ok v
     | Err e \<Rightarrow> True | Panic \<Rightarrow> False)"

lemma advances_simps [simp]:
  "advances buf off (Ok (v, off')) \<longleftrightarrow> off < off' \<and> off' \<le> length buf \<and> value_ok v"
  "advances buf off (Err e)" "\<not> advances buf off Panic"
  by (simp_all add: advances_def)

lemma decode_flat_string_step: "advances buf off (decode_flat_string buf off)"
  by (auto simp: decode_flat_string_def rs_array_def rs_slice_def Let_def rbind_def
      dest: str_from_utf8_rust_str split: rust.split)

lemma decode_flat_step: "advances buf off (decode_flat_value buf off)"
proof (cases "off < length buf")
  case True
  have "advances buf off (decode_flat_string buf (Suc off))"
    using decode_flat_string_step [of buf "Suc off"] by (auto simp: advances_def split: rust.splits)
  then show ?thesis using True
    by (simp add: decode_flat_value_def rs_index_def read_le8_def rs_array_def Let_def)
next
  case False
  then show ?thesis by (simp add: decode_flat_value_def)
qed

lemma decode_flat_advance:
  "decode_flat_value buf off = Ok (v, off') \<Longrightarrow> off < off' \<and> off' \<le> length buf \<and> value_ok v"
  using decode_flat_step [of buf off] by simp

subsection \<open>Frames\<close>

definition value_to_u64 :: "value \<Rightarrow> u64" where
  "value_to_u64 v =
     (case v of
        Number n \<Rightarrow> (case number_as_u64 n of Some u \<Rightarrow> u | None \<Rightarrow> 0)
      | String s \<Rightarrow> (case parse_uint 64 s of Some n \<Rightarrow> word_of_nat n | None \<Rightarrow> 0)
      | _ \<Rightarrow> 0)"

definition build_flat_request ::
  "'c crypto \<Rightarrow> nda_globals \<Rightarrow> u8 \<Rightarrow> value \<Rightarrow> string \<Rightarrow> value \<Rightarrow> bytes" where
  "build_flat_request C g method request_id tname arguments =
     (let payload = [method] @ u64_to_le_bytes (value_to_u64 request_id)
            @ u16_to_le_bytes (word_of_nat (length tname)) @ as_bytes tname
      in build_nda_frame C g (encode_flat_value arguments payload))"

record flat_request =
  fr_method :: u8
  fr_request_id :: u64
  fr_tool_name :: string
  fr_fields :: "value list"

text \<open>The loop \<open>while offset < payload.len()\<close> that both parsers end with.\<close>

function flat_fields :: "string \<Rightarrow> bytes \<Rightarrow> value list \<Rightarrow> nat \<Rightarrow> value list rust" where
  "flat_fields kind payload flds offset =
     (if offset < length payload then
        if length flds \<ge> TLV_MAX_ELEMENTS then
          Err (''Flat '' @ kind @ '' field count exceeds maximum '' @ dec_of_nat TLV_MAX_ELEMENTS)
        else rbind (decode_flat_value payload offset) (\<lambda>(v, offset).
          flat_fields kind payload (flds @ [v]) offset)
      else Ok flds)"
  by pat_completeness auto
termination
  by (relation "measure (\<lambda>(kind, payload, flds, offset). length payload - offset)")
    (auto dest!: decode_flat_advance)

declare flat_fields.simps [simp del]

definition flat_payload :: "'c crypto \<Rightarrow> nda_globals \<Rightarrow> string \<Rightarrow> string \<Rightarrow> string \<Rightarrow> bytes \<Rightarrow> bytes rust" where
  "flat_payload C g too_small mismatch no_payload frame =
     (if length frame < FRAME_HEADER_SIZE then Err too_small
      else if take 4 frame \<noteq> NDA_MAGIC then Err ''Invalid NDA magic''
      else let stored_merkle = take 32 (drop 4 frame); payload = drop FRAME_HEADER_SIZE frame in
        rbind (verify_merkle C g stored_merkle payload mismatch) (\<lambda>_.
          if payload = [] then Err no_payload else Ok payload))"

definition parse_flat_request :: "'c crypto \<Rightarrow> nda_globals \<Rightarrow> bytes \<Rightarrow> flat_request rust" where
  "parse_flat_request C g frame =
     rbind (flat_payload C g ''Flat frame too small'' ''Flat frame Merkle root mismatch''
              ''Flat payload is empty'' frame) (\<lambda>payload.
       let method = payload ! 0; offset = 1 in
       if offset + 8 > length payload then Err ''Flat: missing request id''
       else rbind (read_le8 payload offset) (\<lambda>request_id.
         let offset = offset + 8 in
         if offset + 2 > length payload then Err ''Flat: missing tool name length''
         else rbind (rs_array payload [offset, offset + 1]) (\<lambda>nb.
           let name_len = unat (u16_from_le_bytes nb); offset = offset + 2 in
           if offset + name_len > length payload then Err ''Flat: truncated tool name''
           else rbind (rs_slice payload offset (offset + name_len)) (\<lambda>raw.
             rbind (str_from_utf8 raw) (\<lambda>tname.
               let offset = offset + name_len in
               rbind (flat_fields ''request'' payload [] offset) (\<lambda>flds.
                 Ok \<lparr>fr_method = method, fr_request_id = request_id, fr_tool_name = tname,
                     fr_fields = flds\<rparr>))))))"

definition build_flat_response :: "'c crypto \<Rightarrow> nda_globals \<Rightarrow> u8 \<Rightarrow> u64 \<Rightarrow> value \<Rightarrow> bytes" where
  "build_flat_response C g status request_id result =
     build_nda_frame C g (encode_flat_value result ([status] @ u64_to_le_bytes request_id))"

record flat_response =
  fs_status :: u8
  fs_request_id :: u64
  fs_fields :: "value list"

definition parse_flat_response :: "'c crypto \<Rightarrow> nda_globals \<Rightarrow> bytes \<Rightarrow> flat_response rust" where
  "parse_flat_response C g frame =
     rbind (flat_payload C g ''Flat response frame too small'' ''Flat response Merkle root mismatch''
              ''Flat response payload empty'' frame) (\<lambda>payload.
       let status = payload ! 0; offset = 1 in
       if offset + 8 > length payload then Err ''Flat: missing response request id''
       else rbind (read_le8 payload offset) (\<lambda>request_id.
         let offset = offset + 8 in
         rbind (flat_fields ''response'' payload [] offset) (\<lambda>flds.
           Ok \<lparr>fs_status = status, fs_request_id = request_id, fs_fields = flds\<rparr>)))"

subsection \<open>Round trip\<close>

text \<open>The scalars of a value, in the order the encoder visits them.\<close>

fun flat_leaves :: "value \<Rightarrow> value list" and flat_leaves_items :: "value list \<Rightarrow> value list"
  and flat_leaves_entries :: "jmap \<Rightarrow> value list" where
  "flat_leaves (Array xs) = flat_leaves_items xs"
| "flat_leaves (Object m) = flat_leaves_entries m"
| "flat_leaves v = [v]"
| "flat_leaves_items [] = []"
| "flat_leaves_items (x # xs) = flat_leaves x @ flat_leaves_items xs"
| "flat_leaves_entries [] = []"
| "flat_leaves_entries ((k, v) # m) = flat_leaves v @ flat_leaves_entries m"

definition flat_image :: "value \<Rightarrow> bytes" where
  "flat_image v = encode_flat_value v []"

text \<open>A scalar the format represents without loss.\<close>

definition flat_scalar :: "value \<Rightarrow> bool" where
  "flat_scalar v \<longleftrightarrow> value_ok v \<and> (case v of
     String s \<Rightarrow> length s < 2 ^ 32 | Number n \<Rightarrow> tlv_fits (Number n) | Array _ \<Rightarrow> False | Object _ \<Rightarrow> False | _ \<Rightarrow> True)"

lemma encode_flat_leaves:
  "encode_flat_value v buf = buf @ concat (map flat_image (flat_leaves v))"
  "encode_flat_items xs buf = buf @ concat (map flat_image (flat_leaves_items xs))"
  "encode_flat_entries m buf = buf @ concat (map flat_image (flat_leaves_entries m))"
  by (induction v buf and xs buf and m buf rule: encode_flat_value_encode_flat_items_encode_flat_entries.induct)
    (simp_all add: flat_image_def)

lemma rs_array_mid4:
  assumes "length l = 4"
  shows "rs_array (pre @ l @ r) [length pre, length pre + 1, length pre + 2, length pre + 3] = Ok l"
proof -
  have "map (\<lambda>i. (pre @ l @ r) ! i) [length pre, length pre + 1, length pre + 2, length pre + 3] = l"
    using assms by (intro nth_equalityI) (auto simp: nth_append less_Suc_eq numeral_eq_Suc)
  with assms show ?thesis unfolding rs_array_def by (simp del: list.map)
qed

lemma decode_flat_string_image:
  assumes "rust_str s" "length s < 2 ^ 32"
  shows "decode_flat_string (pre @ u32_to_le_bytes (word_of_nat (length s)) @ as_bytes s @ rest) (length pre)
    = Ok (String s, length pre + 4 + length s)"
proof -
  let ?l = "u32_to_le_bytes (word_of_nat (length s))"
  have "rs_array (pre @ ?l @ as_bytes s @ rest)
      [length pre, length pre + 1, length pre + 2, length pre + 3] = Ok ?l"
    by (rule rs_array_mid4) simp
  moreover have "unat (u32_from_le_bytes ?l) = length s"
    using assms(2) by (simp add: unat_of_nat)
  moreover have "rs_slice (pre @ ?l @ as_bytes s @ rest) (length pre + 4) (length pre + 4 + length s) = Ok (as_bytes s)"
    using rs_slice_mid [of "as_bytes s" "length s" "pre @ ?l" rest] by simp
  ultimately show ?thesis using assms(1)
    unfolding decode_flat_string_def Let_def by simp
qed

lemma decode_flat_at:
  assumes "flat_scalar v"
  shows "decode_flat_value (pre @ flat_image v @ rest) (length pre) = Ok (v, length pre + length (flat_image v))"
proof (cases v)
  case (String s)
  with assms decode_flat_string_image [of s "pre @ [1]" rest] show ?thesis
    by (simp add: decode_flat_value_def rs_index_def flat_image_def flat_scalar_def)
next
  case (Number n)
  have rd: "read_le8 (pre @ t # u64_to_le_bytes w @ rest) (Suc (length pre)) = Ok w" for t w
    using read_le8_mid [of "u64_to_le_bytes w" "pre @ [t]" rest] by simp
  from Number assms show ?thesis
    by (cases n) (simp_all add: decode_flat_value_def rs_index_def flat_image_def flat_scalar_def rd
        encode_flat_number_def json_i64_def json_f64_def i64_neg_def)
qed (use assms in \<open>simp_all add: decode_flat_value_def rs_index_def flat_image_def flat_scalar_def nth_append\<close>)

interpretation flat_codec: prefix_codec flat_image "\<lambda>buf. decode_flat_value buf 0" flat_scalar
  by unfold_locales (use decode_flat_at [of _ "[]"] in simp)

lemma flat_image_nonempty: "flat_scalar v \<Longrightarrow> flat_image v \<noteq> []"
  using decode_flat_advance [OF decode_flat_at [of v "[]" "[]"]] by auto

lemma flat_fields_leaves:
  assumes "list_all flat_scalar vs" "length flds + length vs \<le> TLV_MAX_ELEMENTS"
  shows "flat_fields kind (pre @ concat (map flat_image vs)) flds (length pre) = Ok (flds @ vs)"
  using assms
proof (induction vs arbitrary: pre flds)
  case Nil
  then show ?case by (subst flat_fields.simps) simp
next
  case (Cons v vs)
  let ?buf = "pre @ flat_image v @ concat (map flat_image vs)"
  have "decode_flat_value ?buf (length pre) = Ok (v, length (pre @ flat_image v))"
    using Cons.prems decode_flat_at by simp
  moreover have "flat_fields kind ((pre @ flat_image v) @ concat (map flat_image vs)) (flds @ [v])
      (length (pre @ flat_image v)) = Ok ((flds @ [v]) @ vs)"
    using Cons.prems by (intro Cons.IH) auto
  ultimately show ?case using Cons.prems flat_image_nonempty [of v]
    by (subst flat_fields.simps) simp
qed

lemma flat_fields_safe:
  "flat_fields kind payload flds off \<noteq> Panic \<and>
   (\<forall>vs. flat_fields kind payload flds off = Ok vs \<longrightarrow> length flds \<le> TLV_MAX_ELEMENTS \<longrightarrow>
      list_all value_ok flds \<longrightarrow> length vs \<le> TLV_MAX_ELEMENTS \<and> list_all value_ok vs)"
proof (induction kind payload flds off rule: flat_fields.induct)
  case (1 kind payload flds off)
  note step = decode_flat_step [of payload off]
  show ?case
  proof (cases "off < length payload \<and> length flds < TLV_MAX_ELEMENTS")
    case True
    show ?thesis
    proof (cases "decode_flat_value payload off")
      case (Ok r)
      obtain v off' where r: "r = (v, off')" by (cases r)
      have "flat_fields kind payload flds off = flat_fields kind payload (flds @ [v]) off'"
        using True Ok r by (subst flat_fields.simps) simp
      moreover note IH = 1 [of "(v, off')" v off']
      moreover have "value_ok v" using step Ok r by simp
      ultimately show ?thesis using True Ok r by (simp only: IH simp_thms not_le) auto
    qed (use True step in \<open>subst flat_fields.simps, simp\<close>)+
  next
    case False
    have "flat_fields kind payload flds off = (if off < length payload
        then Err (''Flat '' @ kind @ '' field count exceeds maximum '' @ dec_of_nat TLV_MAX_ELEMENTS) else Ok flds)"
      by (subst flat_fields.simps) (use False in auto)
    then show ?thesis by simp
  qed
qed

lemma flat_fields_Nil:
  "flat_fields kind payload [] off \<noteq> Panic"
  "flat_fields kind payload [] off = Ok vs \<Longrightarrow> length vs \<le> TLV_MAX_ELEMENTS \<and> list_all value_ok vs"
  using flat_fields_safe [of kind payload "[]" off] by simp_all

lemma flat_payload_cases:
  "flat_payload C g a b c f \<noteq> Panic" "flat_payload C g a b c f = Ok p \<Longrightarrow> p \<noteq> []"
  by (auto simp: flat_payload_def Let_def verify_merkle_def rbind_eq_Panic rbind_eq_Ok split: if_splits)

lemma flat_payload_built:
  assumes "digests_32 C" "merkle_enabled g' \<longrightarrow> merkle_enabled g" "p \<noteq> []"
  shows "flat_payload C g' a b c (build_nda_frame C g p) = Ok p"
  using assms by (simp add: flat_payload_def build_frame_framed verify_merkle_def digests_32_def Let_def)

lemma parse_request_built:
  assumes "digests_32 C" "merkle_enabled g' \<longrightarrow> merkle_enabled g"
    and "rust_str nm" "length nm < 2 ^ 16"
    and "list_all flat_scalar (flat_leaves args)" "length (flat_leaves args) \<le> TLV_MAX_ELEMENTS"
  shows "parse_flat_request C g' (build_flat_request C g m i nm args) = Ok \<lparr>fr_method = m,
    fr_request_id = value_to_u64 i, fr_tool_name = nm, fr_fields = flat_leaves args\<rparr>"
proof -
  let ?id = "u64_to_le_bytes (value_to_u64 i)" and ?nl = "u16_to_le_bytes (word_of_nat (length nm))"
  let ?body = "concat (map flat_image (flat_leaves args))"
  let ?p = "m # ?id @ ?nl @ as_bytes nm @ ?body"
  have p: "flat_payload C g' a b c (build_flat_request C g m i nm args) = Ok ?p" for a b c
    using flat_payload_built [OF assms(1,2), of ?p]
    by (simp add: build_flat_request_def encode_flat_leaves)
  have "read_le8 ?p 1 = Ok (value_to_u64 i)"
    using read_le8_mid [of ?id "[m]"] by simp
  moreover have "rs_array ?p [9, Suc 9] = Ok ?nl"
    using rs_array_pair [of ?nl "m # ?id"] by simp
  moreover have "unat (u16_from_le_bytes ?nl) = length nm"
    using assms(4) by (simp add: unat_of_nat)
  moreover have "rs_slice ?p 11 (11 + length nm) = Ok (as_bytes nm)"
    using rs_slice_mid [of "as_bytes nm" "length nm" "m # ?id @ ?nl"] by simp
  moreover have "flat_fields ''request'' ?p [] (11 + length nm) = Ok (flat_leaves args)"
    using flat_fields_leaves [OF assms(5), of "[]" "''request''" "m # ?id @ ?nl @ as_bytes nm"] assms(6) by simp
  ultimately show ?thesis using assms(3)
    by (simp add: parse_flat_request_def p Let_def)
qed

lemma parse_response_built:
  assumes "digests_32 C" "merkle_enabled g' \<longrightarrow> merkle_enabled g"
    and "list_all flat_scalar (flat_leaves res)" "length (flat_leaves res) \<le> TLV_MAX_ELEMENTS"
  shows "parse_flat_response C g' (build_flat_response C g s i res) = Ok \<lparr>fs_status = s,
    fs_request_id = i, fs_fields = flat_leaves res\<rparr>"
proof -
  let ?p = "s # u64_to_le_bytes i @ concat (map flat_image (flat_leaves res))"
  have p: "flat_payload C g' a b c (build_flat_response C g s i res) = Ok ?p" for a b c
    using flat_payload_built [OF assms(1,2), of ?p]
    by (simp add: build_flat_response_def encode_flat_leaves)
  have "read_le8 ?p 1 = Ok i" using read_le8_mid [of "u64_to_le_bytes i" "[s]"] by simp
  moreover have "flat_fields ''response'' ?p [] 9 = Ok (flat_leaves res)"
    using flat_fields_leaves [OF assms(3), of "[]" "''response''" "s # u64_to_le_bytes i"] assms(4) by simp
  ultimately show ?thesis by (simp add: parse_flat_response_def p Let_def)
qed

lemma parse_flat_request_safe:
  "parse_flat_request C g f \<noteq> Panic"
  "parse_flat_request C g f = Ok r \<Longrightarrow> length (fr_fields r) \<le> TLV_MAX_ELEMENTS \<and> list_all value_ok (fr_fields r)"
  by (auto simp: parse_flat_request_def Let_def rbind_eq_Panic rbind_eq_Ok flat_payload_cases flat_fields_Nil(1)
      read_le8_def rs_array_def rs_slice_def dest!: flat_fields_Nil(2) split: if_splits)

lemma parse_flat_response_safe:
  "parse_flat_response C g f \<noteq> Panic"
  "parse_flat_response C g f = Ok r \<Longrightarrow> length (fs_fields r) \<le> TLV_MAX_ELEMENTS \<and> list_all value_ok (fs_fields r)"
  by (auto simp: parse_flat_response_def Let_def rbind_eq_Panic rbind_eq_Ok flat_payload_cases flat_fields_Nil(1)
      read_le8_def rs_array_def dest!: flat_fields_Nil(2) split: if_splits)

subsection \<open>Properties\<close>

text \<open>C10: a flat request with a tool name below 64 KiB whose arguments hold at most the permitted
  number of representable scalars is parsed back to its method, its numeric identifier, its tool
  name and the scalars of its arguments in order of appearance.\<close>

theorem flat_request_round_trip:
  assumes "digests_32 C" "merkle_enabled g' \<longrightarrow> merkle_enabled g"
    and "rust_str nm" "length nm < 2 ^ 16"
    and "list_all flat_scalar (flat_leaves args)" "length (flat_leaves args) \<le> TLV_MAX_ELEMENTS"
  shows "parse_flat_request C g' (build_flat_request C g m i nm args) = Ok \<lparr>fr_method = m,
    fr_request_id = value_to_u64 i, fr_tool_name = nm, fr_fields = flat_leaves args\<rparr>"
  using assms by (rule parse_request_built)

theorem flat_request_round_trip_witness:
  "parse_flat_request sample_crypto sample_off (build_flat_request sample_crypto sample_off 3 (Number (PosInt 42)) ''echo''
      (Object [(''a'', Array [Null, Bool True]), (''b'', String ''x'')])) = Ok \<lparr>fr_method = 3,
    fr_request_id = 42, fr_tool_name = ''echo'', fr_fields = [Null, Bool True, String ''x'']\<rparr>"
proof -
  have "value_to_u64 (Number (PosInt 42)) = 42" by (simp add: value_to_u64_def)
  with flat_request_round_trip [of sample_crypto sample_off sample_off "''echo''"
      "Object [(''a'', Array [Null, Bool True]), (''b'', String ''x'')]" 3 "Number (PosInt 42)"]
  show ?thesis by (simp add: sample_digests rust_str_ascii flat_scalar_def)
qed


end
