(* ===== verification/Rate_Limit.thy ===== *)
theory Rate_Limit
  imports Prelude
begin

text \<open>
  The token bucket of \<open>rate_limit.rs\<close>. Quantities of type \<open>u64\<close> are natural numbers with the
  saturation of \<open>saturating_mul\<close> and \<open>saturating_add\<close> written out; no other operation can leave
  the range. Time is the millisecond clock of the process, passed in where the code reads it.

  The bucket is first described as the sequence of calls of one thread, then as the atomic
  operations of any number of threads: the loads and compare-and-exchange operations interleave,
  a weak exchange may fail spuriously, and a thread may be delayed between winning the refill
  and adding its tokens. In both, the number of calls granted is bounded by the burst and the
  refill rate.
\<close>

subsection \<open>The bucket\<close>

definition DEFAULT_BURST :: nat where [simp]: "DEFAULT_BURST = 100"
definition DEFAULT_RATE :: nat where [simp]: "DEFAULT_RATE = 20"

definition u64_max :: nat where
  "u64_max = 2 ^ 64 - 1"

definition saturating_mul :: "nat \<Rightarrow> nat \<Rightarrow> nat" where
  "saturating_mul a b = min (a * b) u64_max"

definition saturating_add :: "nat \<Rightarrow> nat \<Rightarrow> nat" where
  "saturating_add a b = min (a + b) u64_max"

record rate_limiter =
  tokens_scaled :: nat
  last_refill_ms :: nat
  burst_scaled :: nat
  rate :: nat

definition with_limits :: "nat \<Rightarrow> nat \<Rightarrow> nat \<Rightarrow> rate_limiter" where
  "with_limits now rate_per_sec burst =
     (let bs = burst * 1000
      in \<lparr>tokens_scaled = bs, last_refill_ms = now, burst_scaled = bs, rate = rate_per_sec\<rparr>)"

definition new_limiter :: "nat \<Rightarrow> rate_limiter" where
  "new_limiter now = with_limits now DEFAULT_RATE DEFAULT_BURST"

definition refill :: "nat \<Rightarrow> rate_limiter \<Rightarrow> rate_limiter" where
  "refill now l =
     (let last = last_refill_ms l in
      if now \<le> last then l
      else
        let elapsed_ms = now - last;
            new_tokens_scaled = saturating_mul elapsed_ms (rate l)
        in l\<lparr>last_refill_ms := now,
             tokens_scaled := min (saturating_add (tokens_scaled l) new_tokens_scaled) (burst_scaled l)\<rparr>)"

definition try_acquire :: "nat \<Rightarrow> rate_limiter \<Rightarrow> bool \<times> rate_limiter" where
  "try_acquire now l =
     (let l = refill now l; current = tokens_scaled l in
      if current < 1000 then (False, l) else (True, l\<lparr>tokens_scaled := current - 1000\<rparr>))"

definition available_tokens :: "nat \<Rightarrow> rate_limiter \<Rightarrow> nat \<times> rate_limiter" where
  "available_tokens now l =
     (let l = refill now l in ((tokens_scaled l div 1000) mod 2 ^ 32, l))"

text \<open>The environment variables, absent or present; a text that is no \<open>u32\<close> counts as absent.\<close>

definition configured_limits :: "string option \<Rightarrow> string option \<Rightarrow> nat \<times> nat" where
  "configured_limits rate_var burst_var =
     (case (Option.bind rate_var (parse_uint 32), Option.bind burst_var (parse_uint 32)) of
        (Some rt, Some burst) \<Rightarrow> (rt, burst)
      | (Some rt, None) \<Rightarrow> (rt, DEFAULT_BURST)
      | (None, Some burst) \<Rightarrow> (DEFAULT_RATE, burst)
      | (None, None) \<Rightarrow> (DEFAULT_RATE, DEFAULT_BURST))"

subsection \<open>Calls of one thread\<close>

definition limiter_ok :: "rate_limiter \<Rightarrow> bool" where
  "limiter_ok l \<longleftrightarrow> tokens_scaled l \<le> burst_scaled l"

text \<open>A run of calls at the given times, and how many were granted.\<close>

primrec acquire_all :: "nat list \<Rightarrow> rate_limiter \<Rightarrow> nat \<times> rate_limiter" where
  "acquire_all [] l = (0, l)"
| "acquire_all (t # ts) l =
     (case try_acquire t l of (ok, l') \<Rightarrow>
        case acquire_all ts l' of (n, l'') \<Rightarrow> ((if ok then 1 else 0) + n, l''))"

lemma with_limits_ok: "limiter_ok (with_limits now r b)"
  by (simp add: limiter_ok_def with_limits_def Let_def)

lemma refill_ok: "limiter_ok l \<Longrightarrow> limiter_ok (refill now l)"
  by (simp add: limiter_ok_def refill_def Let_def)

lemma try_acquire_ok: "limiter_ok l \<Longrightarrow> limiter_ok (snd (try_acquire now l))"
  using refill_ok [of l now] by (auto simp: limiter_ok_def try_acquire_def Let_def)

lemma refill_const [simp]: "burst_scaled (refill now l) = burst_scaled l" "rate (refill now l) = rate l"
  by (simp_all add: refill_def Let_def)

lemma refill_last: "last_refill_ms (refill now l) = max now (last_refill_ms l)"
  by (auto simp: refill_def Let_def max_def)

lemma refill_tokens:
  "tokens_scaled (refill now l) \<le> tokens_scaled l + (max now (last_refill_ms l) - last_refill_ms l) * rate l"
  by (auto simp: refill_def Let_def saturating_mul_def saturating_add_def max_def)

lemma try_acquire_facts:
  assumes "try_acquire now l = (ok, l')"
  shows "burst_scaled l' = burst_scaled l" "rate l' = rate l" "last_refill_ms l' = max now (last_refill_ms l)"
    "tokens_scaled l' + (if ok then 1000 else 0) = tokens_scaled (refill now l)"
  using assms by (auto simp: try_acquire_def Let_def refill_last split: if_splits)

lemma acquire_all_bound:
  "acquire_all ts l = (n, l') \<Longrightarrow>
   1000 * n + tokens_scaled l' \<le> tokens_scaled l + (last_refill_ms l' - last_refill_ms l) * rate l
   \<and> last_refill_ms l \<le> last_refill_ms l' \<and> last_refill_ms l' = fold max ts (last_refill_ms l)
   \<and> rate l' = rate l \<and> burst_scaled l' = burst_scaled l"
proof (induction ts arbitrary: l n)
  case (Cons t ts)
  obtain ok l1 m where s: "try_acquire t l = (ok, l1)" "acquire_all ts l1 = (m, l')" "n = (if ok then 1 else 0) + m"
    using Cons.prems by (auto split: prod.splits)
  note f = try_acquire_facts [OF s(1)] and IH = Cons.IH [OF s(2)]
  let ?a = "last_refill_ms l" and ?b = "last_refill_ms l1" and ?c = "last_refill_ms l'"
  have "?a \<le> ?b" "?b \<le> ?c" using f IH by simp_all
  then have "?c - ?a = (?b - ?a) + (?c - ?b)" by simp
  then have "(?c - ?a) * rate l = (?b - ?a) * rate l + (?c - ?b) * rate l"
    by (simp only: add_mult_distrib)
  moreover have "tokens_scaled l1 + (if ok then 1000 else 0) \<le> tokens_scaled l + (?b - ?a) * rate l"
    using refill_tokens [of t l] f by simp
  ultimately show ?case using IH f s(3) \<open>?a \<le> ?b\<close> by (auto split: if_splits)
qed auto

text \<open>At a time when the clock has not moved, the next calls are granted as long as tokens last.\<close>

lemma acquire_burst:
  "t \<le> last_refill_ms l \<Longrightarrow> fst (acquire_all (replicate n t) l) = min n (tokens_scaled l div 1000)"
proof (induction n arbitrary: l)
  case (Suc n)
  have r: "refill t l = l" using Suc.prems by (simp add: refill_def Let_def)
  show ?case
  proof (cases "tokens_scaled l < 1000")
    case True
    then have "try_acquire t l = (False, l)" by (simp add: try_acquire_def r Let_def)
    then show ?thesis using Suc True by (simp split: prod.splits)
  next
    case False
    let ?l = "l\<lparr>tokens_scaled := tokens_scaled l - 1000\<rparr>"
    have "try_acquire t l = (True, ?l)" using False by (simp add: try_acquire_def r Let_def)
    moreover have "tokens_scaled l div 1000 = Suc ((tokens_scaled l - 1000) div 1000)"
      using False by (simp add: le_div_geq)
    ultimately show ?thesis using Suc.IH [of ?l] Suc.prems by (auto split: prod.splits)
  qed
qed simp

subsection \<open>One bucket per peer\<close>

text \<open>
  The buckets of the HTTP peers live in a cache of the crate \<open>lru\<close>, a parameter here: the state
  of the cache, inserting a value if the key is absent, reading a key, and overwriting the value
  of a key that is present.
\<close>

record 'k lru_ops =
  get_or_insert :: "string \<Rightarrow> rate_limiter \<Rightarrow> 'k \<Rightarrow> 'k"
  peek :: "string \<Rightarrow> 'k \<Rightarrow> rate_limiter option"
  store :: "string \<Rightarrow> rate_limiter \<Rightarrow> 'k \<Rightarrow> 'k"

definition check_rate_limit_for_peer ::
  "'k lru_ops \<Rightarrow> string option \<Rightarrow> string option \<Rightarrow> nat \<Rightarrow> string \<Rightarrow> 'k \<Rightarrow> bool \<times> 'k" where
  "check_rate_limit_for_peer L rate_var burst_var now peer cache =
     (let (rt, burst) = configured_limits rate_var burst_var;
          cache = get_or_insert L peer (with_limits now rt burst) cache
      in case peek L peer cache of
           Some limiter \<Rightarrow> (case try_acquire now limiter of (ok, limiter') \<Rightarrow> (ok, store L peer limiter' cache))
         | None \<Rightarrow> (False, cache))"

definition peer_available_tokens :: "'k lru_ops \<Rightarrow> nat \<Rightarrow> string \<Rightarrow> 'k \<Rightarrow> nat option" where
  "peer_available_tokens L now peer cache =
     map_option (\<lambda>limiter. fst (available_tokens now limiter)) (peek L peer cache)"

text \<open>What the limiter relies on of the cache.\<close>

definition lru_laws :: "'k lru_ops \<Rightarrow> bool" where
  "lru_laws L \<longleftrightarrow>
     (\<forall>k v c. peek L k (get_or_insert L k v c) = Some (case peek L k c of Some x \<Rightarrow> x | None \<Rightarrow> v))
   \<and> (\<forall>k v c j. j \<noteq> k \<longrightarrow> peek L j (get_or_insert L k v c) \<in> {peek L j c, None})
   \<and> (\<forall>k v c j. peek L k c \<noteq> None \<longrightarrow> peek L j (store L k v c) = (if j = k then Some v else peek L j c))"

lemma peer_call:
  assumes "lru_laws L"
  shows "peek L q (snd (check_rate_limit_for_peer L rv bv now p c)) =
      (if q = p then
         Some (snd (try_acquire now (case peek L p c of Some x \<Rightarrow> x
            | None \<Rightarrow> with_limits now (fst (configured_limits rv bv)) (snd (configured_limits rv bv)))))
       else peek L q (get_or_insert L p (with_limits now (fst (configured_limits rv bv)) (snd (configured_limits rv bv))) c))"
    "fst (check_rate_limit_for_peer L rv bv now p c) = fst (try_acquire now (case peek L p c of Some x \<Rightarrow> x
       | None \<Rightarrow> with_limits now (fst (configured_limits rv bv)) (snd (configured_limits rv bv))))"
  using assms by (simp_all add: check_rate_limit_for_peer_def lru_laws_def Let_def case_prod_beta)

lemma peer_call_other:
  assumes "lru_laws L" "q \<noteq> p"
  shows "peek L q (snd (check_rate_limit_for_peer L rv bv now p c)) \<in> {peek L q c, None}"
  using assms peer_call(1) [OF assms(1), of q rv bv now p c] unfolding lru_laws_def by simp

text \<open>Calls of other peers, in sequence.\<close>

definition peer_calls ::
  "'k lru_ops \<Rightarrow> string option \<Rightarrow> string option \<Rightarrow> (nat \<times> string) list \<Rightarrow> 'k \<Rightarrow> 'k" where
  "peer_calls L rv bv calls c = foldl (\<lambda>c (now, p). snd (check_rate_limit_for_peer L rv bv now p c)) c calls"

lemma peer_calls_others:
  assumes "lru_laws L" "\<forall>(now, p) \<in> set calls. p \<noteq> q"
  shows "peek L q (peer_calls L rv bv calls c) \<in> {peek L q c, None}"
  using assms(2)
proof (induction calls rule: rev_induct)
  case (snoc x calls)
  obtain now p where x: "x = (now, p)" by (cases x)
  let ?c = "peer_calls L rv bv calls c"
  have "peek L q (peer_calls L rv bv (calls @ [x]) c) \<in> {peek L q ?c, None}"
    using peer_call_other [OF assms(1), of q p rv bv now ?c] snoc.prems by (auto simp: peer_calls_def x)
  with snoc show ?case by auto
qed (simp add: peer_calls_def)

subsection \<open>Calls of many threads\<close>

text \<open>The program counter of a thread inside \<open>try_acquire\<close>, with the values it holds.\<close>

datatype thread_pc =
    Start
  | Refill_Now nat
  | Refill_Last nat nat
  | Refill_Add nat
  | Refill_Cas nat nat
  | Acquire
  | Acquire_Cas nat
  | Finished bool

text \<open>One atomic operation of a thread; the clock is read at the start of the refill.\<close>

inductive thread_step :: "nat \<Rightarrow> rate_limiter \<Rightarrow> thread_pc \<Rightarrow> rate_limiter \<Rightarrow> thread_pc \<Rightarrow> bool" for clock where
  read_clock: "thread_step clock l Start l (Refill_Now clock)"
| refill_skip: "now \<le> last_refill_ms l \<Longrightarrow> thread_step clock l (Refill_Now now) l Acquire"
| refill_load: "last_refill_ms l < now \<Longrightarrow>
    thread_step clock l (Refill_Now now) l (Refill_Last now (last_refill_ms l))"
| refill_win: "last_refill_ms l = seen \<Longrightarrow>
    thread_step clock l (Refill_Last now seen) (l\<lparr>last_refill_ms := now\<rparr>)
      (Refill_Add (saturating_mul (now - seen) (rate l)))"
| refill_lose: "last_refill_ms l \<noteq> seen \<Longrightarrow> thread_step clock l (Refill_Last now seen) l Acquire"
| add_load: "thread_step clock l (Refill_Add a) l (Refill_Cas a (tokens_scaled l))"
| add_ok: "tokens_scaled l = cur \<Longrightarrow>
    thread_step clock l (Refill_Cas a cur)
      (l\<lparr>tokens_scaled := min (saturating_add cur a) (burst_scaled l)\<rparr>) Acquire"
| add_retry: "thread_step clock l (Refill_Cas a cur) l (Refill_Add a)"
| acquire_refuse: "tokens_scaled l < 1000 \<Longrightarrow> thread_step clock l Acquire l (Finished False)"
| acquire_load: "1000 \<le> tokens_scaled l \<Longrightarrow> thread_step clock l Acquire l (Acquire_Cas (tokens_scaled l))"
| acquire_ok: "tokens_scaled l = cur \<Longrightarrow>
    thread_step clock l (Acquire_Cas cur) (l\<lparr>tokens_scaled := cur - 1000\<rparr>) (Finished True)"
| acquire_retry: "thread_step clock l (Acquire_Cas cur) l Acquire"
| call_again: "thread_step clock l (Finished ok) l Start"

record limiter_system =
  bucket :: rate_limiter
  pcs :: "nat \<Rightarrow> thread_pc"
  clock_ms :: nat
  granted :: nat

inductive limiter_step :: "nat \<Rightarrow> limiter_system \<Rightarrow> limiter_system \<Rightarrow> bool" for n where
  tick: "clock_ms s \<le> t \<Longrightarrow> limiter_step n s (s\<lparr>clock_ms := t\<rparr>)"
| run: "i < n \<Longrightarrow> thread_step (clock_ms s) (bucket s) (pcs s i) l pc \<Longrightarrow>
    limiter_step n s (s\<lparr>bucket := l, pcs := (pcs s)(i := pc),
      granted := granted s + (if pc = Finished True then 1 else 0)\<rparr>)"

definition limiter_initial :: "nat \<Rightarrow> nat \<Rightarrow> nat \<Rightarrow> limiter_system" where
  "limiter_initial t0 r b =
     \<lparr>bucket = with_limits t0 r b, pcs = (\<lambda>_. Start), clock_ms = t0, granted = 0\<rparr>"

text \<open>Tokens a thread has won but not added yet.\<close>

fun pending :: "thread_pc \<Rightarrow> nat" where
  "pending (Refill_Add a) = a"
| "pending (Refill_Cas a cur) = a"
| "pending pc = 0"

text \<open>What a thread holds was read from the bucket or the clock.\<close>

fun pc_ok :: "nat \<Rightarrow> rate_limiter \<Rightarrow> thread_pc \<Rightarrow> bool" where
  "pc_ok clock l (Refill_Now now) \<longleftrightarrow> now \<le> clock"
| "pc_ok clock l (Refill_Last now seen) \<longleftrightarrow> seen < now \<and> now \<le> clock"
| "pc_ok clock l (Acquire_Cas cur) \<longleftrightarrow> 1000 \<le> cur"
| "pc_ok clock l pc \<longleftrightarrow> True"

definition limiter_inv :: "nat \<Rightarrow> nat \<Rightarrow> nat \<Rightarrow> nat \<Rightarrow> limiter_system \<Rightarrow> bool" where
  "limiter_inv n t0 r b s \<longleftrightarrow>
     rate (bucket s) = r \<and> burst_scaled (bucket s) = b * 1000 \<and> tokens_scaled (bucket s) \<le> b * 1000
     \<and> t0 \<le> last_refill_ms (bucket s) \<and> last_refill_ms (bucket s) \<le> clock_ms s
     \<and> (\<forall>i < n. pc_ok (clock_ms s) (bucket s) (pcs s i))
     \<and> 1000 * granted s + tokens_scaled (bucket s) + (\<Sum>i<n. pending (pcs s i))
         \<le> b * 1000 + (last_refill_ms (bucket s) - t0) * r"

lemma limiter_initial_inv: "limiter_inv n t0 r b (limiter_initial t0 r b)"
  by (simp add: limiter_inv_def limiter_initial_def with_limits_def Let_def)

lemma sum_fun_upd:
  fixes f :: "'a \<Rightarrow> nat" and g :: "nat \<Rightarrow> 'a"
  assumes "i < n"
  shows "(\<Sum>j<n. f ((g(i := x)) j)) + f (g i) = (\<Sum>j<n. f (g j)) + f x"
proof -
  have "(\<Sum>j<n. f ((g(i := x)) j)) = f x + (\<Sum>j\<in>{..<n} - {i}. f ((g(i := x)) j))"
    using assms by (subst sum.remove [of _ i]) auto
  moreover have "(\<Sum>j<n. f (g j)) = f (g i) + (\<Sum>j\<in>{..<n} - {i}. f (g j))"
    using assms by (subst sum.remove [of _ i]) auto
  moreover have "(\<Sum>j\<in>{..<n} - {i}. f ((g(i := x)) j)) = (\<Sum>j\<in>{..<n} - {i}. f (g j))"
    by (intro sum.cong) auto
  ultimately show ?thesis by simp
qed

text \<open>The account of one atomic operation.\<close>

lemma thread_step_account:
  assumes "thread_step clock l pc l' pc'" "pc_ok clock l pc" "tokens_scaled l \<le> burst_scaled l"
    "t0 \<le> last_refill_ms l" "last_refill_ms l \<le> clock"
  shows "rate l' = rate l" "burst_scaled l' = burst_scaled l" "tokens_scaled l' \<le> burst_scaled l"
    "last_refill_ms l \<le> last_refill_ms l'" "last_refill_ms l' \<le> clock" "pc_ok clock l' pc'"
    "1000 * (if pc' = Finished True then 1 else 0) + tokens_scaled l' + pending pc'
       \<le> tokens_scaled l + pending pc + (last_refill_ms l' - last_refill_ms l) * rate l"
  using assms by (induction, auto simp: saturating_mul_def saturating_add_def)

lemma pc_ok_mono: "pc_ok clock l pc \<Longrightarrow> clock \<le> clock' \<Longrightarrow> pc_ok clock' l' pc"
  by (cases pc) auto

lemma limiter_step_inv:
  assumes "limiter_step n s s'" "limiter_inv n t0 r b s"
  shows "limiter_inv n t0 r b s'"
  using assms(1)
proof cases
  case (tick t)
  with assms(2) show ?thesis by (auto simp: limiter_inv_def intro: pc_ok_mono)
next
  case (run i l pc)
  let ?o = "bucket s"
  have inv: "pc_ok (clock_ms s) ?o (pcs s i)" "tokens_scaled ?o \<le> burst_scaled ?o" "t0 \<le> last_refill_ms ?o"
    "last_refill_ms ?o \<le> clock_ms s" "rate ?o = r" "burst_scaled ?o = b * 1000"
    using assms(2) run(2) by (auto simp: limiter_inv_def)
  note acc = thread_step_account [OF run(3) inv(1-4)]
  have "last_refill_ms l - t0 = (last_refill_ms ?o - t0) + (last_refill_ms l - last_refill_ms ?o)"
    using acc(4) inv(3) by simp
  then have time: "(last_refill_ms l - t0) * r
      = (last_refill_ms ?o - t0) * r + (last_refill_ms l - last_refill_ms ?o) * r"
    by (simp only: add_mult_distrib)
  have "(\<Sum>j<n. pending (((pcs s)(i := pc)) j)) + pending (pcs s i) = (\<Sum>j<n. pending (pcs s j)) + pending pc"
    by (rule sum_fun_upd [OF run(2)])
  then have "1000 * (granted s + (if pc = Finished True then 1 else 0)) + tokens_scaled l
      + (\<Sum>j<n. pending (((pcs s)(i := pc)) j)) \<le> b * 1000 + (last_refill_ms l - t0) * r"
    using assms(2) acc(7) time inv(5) by (simp add: limiter_inv_def)
  moreover have "\<forall>j < n. pc_ok (clock_ms s) l (((pcs s)(i := pc)) j)"
    using assms(2) acc(6) by (auto simp: limiter_inv_def intro: pc_ok_mono)
  ultimately show ?thesis using acc inv run(1) by (simp add: limiter_inv_def)
qed

lemma limiter_reachable_inv: "(limiter_step n)\<^sup>*\<^sup>* (limiter_initial t0 r b) s \<Longrightarrow> limiter_inv n t0 r b s"
  by (induction rule: rtranclp_induct) (auto intro: limiter_initial_inv limiter_step_inv)

lemma acquire_all_ok: "limiter_ok l \<Longrightarrow> acquire_all ts l = (n, l') \<Longrightarrow> limiter_ok l'"
proof (induction ts arbitrary: l n)
  case (Cons t ts)
  then show ?case using try_acquire_ok [of l t] by (auto split: prod.splits)
qed simp

subsection \<open>Properties\<close>

text \<open>C25: whatever the times of the calls, a bucket created at \<open>t0\<close> never grants more calls than its
  burst plus its rate times the time elapsed, and never holds more than its burst; and calls made
  at once after creation are granted up to exactly the burst.\<close>

theorem rate_limit_bound:
  "(case acquire_all ts (with_limits t0 r b) of (n, l) \<Rightarrow>
      1000 * n + tokens_scaled l \<le> b * 1000 + (fold max ts t0 - t0) * r \<and> tokens_scaled l \<le> b * 1000)
   \<and> fst (acquire_all (replicate k t0) (with_limits t0 r b)) = min k b"
proof -
  have w: "tokens_scaled (with_limits t0 r b) = b * 1000" "last_refill_ms (with_limits t0 r b) = t0"
    "rate (with_limits t0 r b) = r" "burst_scaled (with_limits t0 r b) = b * 1000"
    by (simp_all add: with_limits_def Let_def)
  show ?thesis
    using acquire_all_bound [of ts "with_limits t0 r b"] acquire_all_ok [OF with_limits_ok, of ts t0 r b]
      acquire_burst [of t0 "with_limits t0 r b" k]
    by (auto simp: w limiter_ok_def split: prod.splits)
qed

text \<open>C26: the bound holds for any number of threads and any interleaving of their atomic operations
  with each other and with the clock: the calls granted so far cost at most the burst plus the rate
  times the time elapsed, and the bucket never holds more than its burst.\<close>

theorem rate_limit_concurrent:
  assumes "(limiter_step n)\<^sup>*\<^sup>* (limiter_initial t0 r b) s"
  shows "1000 * granted s \<le> b * 1000 + (clock_ms s - t0) * r \<and> tokens_scaled (bucket s) \<le> b * 1000"
proof -
  have inv: "limiter_inv n t0 r b s" by (rule limiter_reachable_inv [OF assms])
  then have "(last_refill_ms (bucket s) - t0) * r \<le> (clock_ms s - t0) * r"
    by (intro mult_right_mono) (auto simp: limiter_inv_def)
  moreover have "1000 * granted s \<le> b * 1000 + (last_refill_ms (bucket s) - t0) * r"
    "tokens_scaled (bucket s) \<le> b * 1000"
    using inv by (simp_all add: limiter_inv_def)
  ultimately show ?thesis by linarith
qed

theorem rate_limit_concurrent_witness:
  "1000 * granted (limiter_initial 5 20 100 \<lparr>clock_ms := 9\<rparr>)
     \<le> 100 * 1000 + (clock_ms (limiter_initial 5 20 100 \<lparr>clock_ms := 9\<rparr>) - 5) * 20
   \<and> tokens_scaled (bucket (limiter_initial 5 20 100 \<lparr>clock_ms := 9\<rparr>)) \<le> 100 * 1000"
proof (rule rate_limit_concurrent [where n = 2])
  have "limiter_step 2 (limiter_initial 5 20 100) (limiter_initial 5 20 100 \<lparr>clock_ms := 9\<rparr>)"
    by (rule limiter_step.tick) (simp add: limiter_initial_def)
  then show "(limiter_step 2)\<^sup>*\<^sup>* (limiter_initial 5 20 100) (limiter_initial 5 20 100 \<lparr>clock_ms := 9\<rparr>)"
    by (rule r_into_rtranclp)
qed

text \<open>C27: the calls of other HTTP peers never touch a peer's bucket: it is left as it was, or the
  cache has evicted it. While it is kept, the peer's next call gets the verdict it would have got
  without the others.\<close>

theorem peer_isolation:
  assumes "lru_laws L" "\<forall>(now, p) \<in> set calls. p \<noteq> q"
  shows "peek L q (peer_calls L rv bv calls c) \<in> {peek L q c, None}
    \<and> (peek L q (peer_calls L rv bv calls c) \<noteq> None \<longrightarrow>
        fst (check_rate_limit_for_peer L rv bv t q (peer_calls L rv bv calls c))
          = fst (check_rate_limit_for_peer L rv bv t q c))"
proof (intro conjI impI)
  show kept: "peek L q (peer_calls L rv bv calls c) \<in> {peek L q c, None}"
    by (rule peer_calls_others [OF assms])
  assume "peek L q (peer_calls L rv bv calls c) \<noteq> None"
  with kept have "peek L q (peer_calls L rv bv calls c) = peek L q c" by simp
  then show "fst (check_rate_limit_for_peer L rv bv t q (peer_calls L rv bv calls c))
      = fst (check_rate_limit_for_peer L rv bv t q c)"
    by (simp only: peer_call(2) [OF assms(1)])
qed

theorem peer_isolation_witness:
  "peek \<lparr>get_or_insert = \<lambda>k v c. if c k = None then c(k \<mapsto> v) else c, peek = \<lambda>k c. c k,
        store = \<lambda>k v c. c(k \<mapsto> v)\<rparr> ''b''
     (peer_calls \<lparr>get_or_insert = \<lambda>k v c. if c k = None then c(k \<mapsto> v) else c, peek = \<lambda>k c. c k,
        store = \<lambda>k v c. c(k \<mapsto> v)\<rparr> None None [(3, ''a''), (4, ''a'')] [''b'' \<mapsto> new_limiter 1])
   \<in> {Some (new_limiter 1), None}"
proof -
  let ?L = "\<lparr>get_or_insert = \<lambda>k v c. if c k = None then c(k \<mapsto> v) else c, peek = \<lambda>k c. c k,
        store = \<lambda>k v c. c(k \<mapsto> v)\<rparr> :: (string \<rightharpoonup> rate_limiter) lru_ops"
  have "lru_laws ?L" by (auto simp: lru_laws_def split: option.splits)
  from peer_isolation [OF this, of "[(3, ''a''), (4, ''a'')]" "''b''" None None "[''b'' \<mapsto> new_limiter 1]" 5]
  show ?thesis by simp
qed

end
