(* ===== verification/Builtin_Tools.thy ===== *)
theory Builtin_Tools
  imports Nda_Laws
begin

text \<open>
  The built-in tools of \<open>registry.rs\<close> with their descriptions and input schemas, as the function
  \<open>get_builtin_tools\<close> lists them, and the names the dispatcher serves natively.
\<close>

definition builtin_file_read :: tool where
  "builtin_file_read = \<lparr>tool_name = ''file_read'',
     tool_description =
       ''Read a file's contents as UTF-8 text. Use for inspecting source code, configs, logs, or ''
       @ ''any text file. Returns the full file content as a string. Fails if the file is binary or ''
       @ ''does not exist.'',
     tool_input_schema = json_obj [
        (''type'', String ''object''),
        (''properties'', json_obj [
          (''path'', json_obj [(''type'', String ''string''), (''description'', String ''Absolute path to the file.'')])]),
        (''required'', Array [String ''path''])]\<rparr>"

definition builtin_file_write :: tool where
  "builtin_file_write = \<lparr>tool_name = ''file_write'',
     tool_description =
       ''Write text content to a file. Creates parent directories if needed. Overwrites existing ''
       @ ''files entirely. Use for generating code, configs, or any text output. Returns bytes ''
       @ ''written.'',
     tool_input_schema = json_obj [
        (''type'', String ''object''),
        (''properties'', json_obj [
          (''path'', json_obj [(''type'', String ''string''), (''description'', String ''Absolute path to the file.'')]),
          (''content'', json_obj [(''type'', String ''string''), (''description'', String ''Text content to write.'')])]),
        (''required'', Array [String ''path'', String ''content''])]\<rparr>"

definition builtin_shell_exec :: tool where
  "builtin_shell_exec = \<lparr>tool_name = ''shell_exec'',
     tool_description =
       ''Execute a shell command with timeout enforcement and security validation. Blocks ''
       @ ''dangerous system-level patterns (rm -rf /, format, diskpart, encoded PowerShell, etc). ''
       @ ''All invocations are audit-logged. Returns exit code, stdout, and stderr. Use for running ''
       @ ''builds, tests, git commands, or system utilities. Commands run with the server's ''
       @ ''permissions.'',
     tool_input_schema = json_obj [
        (''type'', String ''object''),
        (''properties'', json_obj [
          (''command'', json_obj [(''type'', String ''string''), (''description'', String ''Shell command to execute.'')]),
          (''workingDir'', json_obj [
            (''type'', String ''string''),
            (''description'', String ''Working directory (absolute path). Optional.'')]),
          (''timeout'', json_obj [
            (''type'', String ''integer''),
            (''description'', String ''Timeout in seconds (default: 30). Command will be killed if it exceeds this.'')])]),
        (''required'', Array [String ''command''])]\<rparr>"

definition builtin_http_request :: tool where
  "builtin_http_request = \<lparr>tool_name = ''http_request'',
     tool_description =
       ''Make an HTTP request with timeout enforcement and SSRF protection. Blocks requests to ''
       @ ''localhost and private IPs. Supports GET, POST, PUT, DELETE, PATCH, HEAD. Returns status ''
       @ ''code, status text, and response body. Use for calling APIs, fetching data, or testing ''
       @ ''endpoints.'',
     tool_input_schema = json_obj [
        (''type'', String ''object''),
        (''properties'', json_obj [
          (''url'', json_obj [
            (''type'', String ''string''),
            (''description'', String ''Target URL (must be http:// or https://).'')]),
          (''method'', json_obj [(''type'', String ''string''), (''description'', String ''HTTP method. Default: GET.'')]),
          (''headers'', json_obj [
            (''type'', String ''object''),
            (''description'', String ''Request headers as key-value pairs.'')]),
          (''body'', json_obj [
            (''type'', String ''string''),
            (''description'', String ''Request body (for POST/PUT/PATCH).'')]),
          (''timeout'', json_obj [
            (''type'', String ''integer''),
            (''description'', String ''Timeout in seconds (default: 30).'')])]),
        (''required'', Array [String ''url''])]\<rparr>"

definition builtin_list_directory :: tool where
  "builtin_list_directory = \<lparr>tool_name = ''list_directory'',
     tool_description =
       ''List contents of a directory. Returns files and subdirectories with metadata (size, ''
       @ ''type). Use for exploring directory structure.'',
     tool_input_schema = json_obj [
        (''type'', String ''object''),
        (''properties'', json_obj [
          (''path'', json_obj [
            (''type'', String ''string''),
            (''description'', String ''Absolute path to the directory.'')])]),
        (''required'', Array [String ''path''])]\<rparr>"

definition builtin_directory_tree :: tool where
  "builtin_directory_tree = \<lparr>tool_name = ''directory_tree'',
     tool_description =
       ''Recursively list directory contents as a tree structure. Shows nested files and ''
       @ ''directories with indentation. Use for visualizing project structure.'',
     tool_input_schema = json_obj [
        (''type'', String ''object''),
        (''properties'', json_obj [
          (''path'', json_obj [
            (''type'', String ''string''),
            (''description'', String ''Absolute path to the root directory.'')]),
          (''excludePatterns'', json_obj [
            (''type'', String ''array''),
            (''items'', json_obj [(''type'', String ''string'')]),
            (''description'', String ''Glob patterns to exclude (e.g., ['*.log', 'node_modules'])'')]),
          (''maxDepth'', json_obj [
            (''type'', String ''integer''),
            (''description'', String ''Maximum tree depth to descend (default 10, capped at 20).'')])]),
        (''required'', Array [String ''path''])]\<rparr>"

definition builtin_search_files :: tool where
  "builtin_search_files = \<lparr>tool_name = ''search_files'',
     tool_description =
       ''Search for files matching a glob pattern within a directory. Recursively searches ''
       @ ''subdirectories. Use for finding files by name or extension.'',
     tool_input_schema = json_obj [
        (''type'', String ''object''),
        (''properties'', json_obj [
          (''path'', json_obj [
            (''type'', String ''string''),
            (''description'', String ''Absolute path to the search root directory.'')]),
          (''pattern'', json_obj [
            (''type'', String ''string''),
            (''description'', String ''Glob pattern to match (e.g., '*.rs', 'test_*.py').'')])]),
        (''required'', Array [String ''path'', String ''pattern''])]\<rparr>"

definition builtin_move_file :: tool where
  "builtin_move_file = \<lparr>tool_name = ''move_file'',
     tool_description =
       ''Move or rename a file. Can move across directories. Fails if destination exists. Use for ''
       @ ''reorganizing files.'',
     tool_input_schema = json_obj [
        (''type'', String ''object''),
        (''properties'', json_obj [
          (''source'', json_obj [
            (''type'', String ''string''),
            (''description'', String ''Absolute path to the source file.'')]),
          (''destination'', json_obj [
            (''type'', String ''string''),
            (''description'', String ''Absolute path to the destination.'')])]),
        (''required'', Array [String ''source'', String ''destination''])]\<rparr>"

definition builtin_create_directory :: tool where
  "builtin_create_directory = \<lparr>tool_name = ''create_directory'',
     tool_description =
       ''Create a directory recursively (like mkdir -p). Creates parent directories if needed. ''
       @ ''Succeeds silently if directory already exists.'',
     tool_input_schema = json_obj [
        (''type'', String ''object''),
        (''properties'', json_obj [
          (''path'', json_obj [
            (''type'', String ''string''),
            (''description'', String ''Absolute path to the directory to create.'')])]),
        (''required'', Array [String ''path''])]\<rparr>"

definition builtin_edit_file :: tool where
  "builtin_edit_file = \<lparr>tool_name = ''edit_file'',
     tool_description =
       ''Apply text replacements to a file using find-and-replace. Supports dry-run mode to ''
       @ ''preview changes. Use for targeted edits without rewriting entire file.'',
     tool_input_schema = json_obj [
        (''type'', String ''object''),
        (''properties'', json_obj [
          (''path'', json_obj [
            (''type'', String ''string''),
            (''description'', String ''Absolute path to the file to edit.'')]),
          (''edits'', json_obj [
            (''type'', String ''array''),
            (''items'', json_obj [
              (''type'', String ''object''),
              (''properties'', json_obj [
                (''oldText'', json_obj [
                  (''type'', String ''string''),
                  (''description'', String ''Exact text to find and replace.'')]),
                (''newText'', json_obj [(''type'', String ''string''), (''description'', String ''Replacement text.'')])]),
              (''required'', Array [String ''oldText'', String ''newText''])]),
            (''description'', String ''Array of find-and-replace operations.'')]),
          (''dryRun'', json_obj [
            (''type'', String ''boolean''),
            (''description'', String ''If true, preview changes without applying them.'')])]),
        (''required'', Array [String ''path'', String ''edits''])]\<rparr>"

definition builtin_get_file_info :: tool where
  "builtin_get_file_info = \<lparr>tool_name = ''get_file_info'',
     tool_description =
       ''Get file metadata including size, modification time, permissions, and type. Use for ''
       @ ''inspecting file properties.'',
     tool_input_schema = json_obj [
        (''type'', String ''object''),
        (''properties'', json_obj [
          (''path'', json_obj [(''type'', String ''string''), (''description'', String ''Absolute path to the file.'')])]),
        (''required'', Array [String ''path''])]\<rparr>"

definition builtin_bench_echo :: tool where
  "builtin_bench_echo = \<lparr>tool_name = ''bench_echo'',
     tool_description =
       ''Benchmark tool: returns a text payload of the requested size in bytes. Used for measuring ''
       @ ''serialization cost at different payload sizes.'',
     tool_input_schema = json_obj [
        (''type'', String ''object''),
        (''properties'', json_obj [
          (''size'', json_obj [
            (''type'', String ''integer''),
            (''description'', String ''Response payload size in bytes (default 64).'')])]),
        (''required'', Array [])]\<rparr>"

definition builtin_convert_to_nda_document :: tool where
  "builtin_convert_to_nda_document = \<lparr>tool_name = ''convert_to_nda_document'',
     tool_description =
       ''Convert a file into a cryptographically signed NDA binary document. NDA is a ''
       @ ''zero-allocation format with semantic triples, Merkle integrity, and Ed25519 signatures. ''
       @ ''Accepts: source code, PDF, CSV, Excel, images, archives. Returns the output path and file ''
       @ ''size.'',
     tool_input_schema = json_obj [
        (''type'', String ''object''),
        (''properties'', json_obj [
          (''filePath'', json_obj [
            (''type'', String ''string''),
            (''description'', String ''Absolute path to the input file.'')]),
          (''outputPath'', json_obj [
            (''type'', String ''string''),
            (''description'', String ''Output .nda path. Defaults to input with .nda extension.'')])]),
        (''required'', Array [String ''filePath''])]\<rparr>"

definition builtin_read_nda :: tool where
  "builtin_read_nda = \<lparr>tool_name = ''read_nda'',
     tool_description =
       ''Read and inspect an NDA binary document. Shows semantic triples, visual display commands, ''
       @ ''string pool contents, Merkle integrity status, and Ed25519 signature verification. Use to ''
       @ ''examine or debug NDA files.'',
     tool_input_schema = json_obj [
        (''type'', String ''object''),
        (''properties'', json_obj [
          (''ndaPath'', json_obj [
            (''type'', String ''string''),
            (''description'', String ''Absolute path to the .nda file.'')])]),
        (''required'', Array [String ''ndaPath''])]\<rparr>"

definition builtin_execute_nda :: tool where
  "builtin_execute_nda = \<lparr>tool_name = ''execute_nda'',
     tool_description =
       ''Execute a runnable NDA container. Runs compiled binaries in-memory or scripts (Python, ''
       @ ''Node.js, PowerShell, Bash) via shell. Returns the program's stdout. Use for running ''
       @ ''sandboxed executables packaged as NDA documents.'',
     tool_input_schema = json_obj [
        (''type'', String ''object''),
        (''properties'', json_obj [
          (''ndaPath'', json_obj [
            (''type'', String ''string''),
            (''description'', String ''Absolute path to the runnable .nda file.'')]),
          (''arguments'', json_obj [
            (''type'', String ''array''),
            (''items'', json_obj [(''type'', String ''string'')]),
            (''description'', String ''Command-line arguments.'')])]),
        (''required'', Array [String ''ndaPath''])]\<rparr>"

definition builtin_convert_to_nda_tool :: tool where
  "builtin_convert_to_nda_tool = \<lparr>tool_name = ''convert_to_nda_tool'',
     tool_description =
       ''Convert a JSON-RPC tool call to NDA binary format and register it for fast execution. ''
       @ ''Converted calls are dispatched through the zero-allocation TLV frame path instead of ''
       @ ''parsing a JSON document each time. The converted tool is immediately available by name.'',
     tool_input_schema = json_obj [
        (''type'', String ''object''),
        (''properties'', json_obj [
          (''jsonRequest'', json_obj [
            (''type'', String ''string''),
            (''description'', String ''JSON-RPC tool call to convert.'')]),
          (''outputPath'', json_obj [
            (''type'', String ''string''),
            (''description'', String ''Optional path to write the NDA binary. Tool is registered regardless.'')])]),
        (''required'', Array [String ''jsonRequest''])]\<rparr>"

definition get_builtin_tools :: "tool list" where
  "get_builtin_tools =
     [builtin_file_read,
      builtin_file_write,
      builtin_shell_exec,
      builtin_http_request,
      builtin_list_directory,
      builtin_directory_tree,
      builtin_search_files,
      builtin_move_file,
      builtin_create_directory,
      builtin_edit_file,
      builtin_get_file_info,
      builtin_bench_echo,
      builtin_convert_to_nda_document,
      builtin_read_nda,
      builtin_execute_nda,
      builtin_convert_to_nda_tool]"

definition BUILTIN_TOOL_NAMES :: "string list" where
  "BUILTIN_TOOL_NAMES =
     [''convert_to_nda_document'', ''convert_to_nda_tool'', ''read_nda'', ''execute_nda'',
      ''file_read'', ''file_write'', ''list_directory'', ''directory_tree'',
      ''search_files'', ''move_file'', ''create_directory'', ''edit_file'',
      ''get_file_info'', ''bench_echo'', ''shell_exec'', ''http_request'']"

definition is_builtin_tool :: "string \<Rightarrow> bool" where
  "is_builtin_tool name \<longleftrightarrow> name \<in> set BUILTIN_TOOL_NAMES"

lemma builtin_names:
  "map tool_name get_builtin_tools =
     [''file_read'', ''file_write'', ''shell_exec'', ''http_request'', ''list_directory'', ''directory_tree'', ''search_files'', ''move_file'', ''create_directory'', ''edit_file'', ''get_file_info'', ''bench_echo'', ''convert_to_nda_document'', ''read_nda'', ''execute_nda'', ''convert_to_nda_tool'']"
  by (simp only: get_builtin_tools_def builtin_file_read_def builtin_file_write_def builtin_shell_exec_def builtin_http_request_def builtin_list_directory_def builtin_directory_tree_def builtin_search_files_def builtin_move_file_def builtin_create_directory_def builtin_edit_file_def builtin_get_file_info_def builtin_bench_echo_def builtin_convert_to_nda_document_def builtin_read_nda_def builtin_execute_nda_def builtin_convert_to_nda_tool_def list.map tool.select_convs)

lemma builtin_distinct: "distinct (map tool_name get_builtin_tools)"
  by (simp add: builtin_names)

text \<open>The tools listed as built in are the ones the dispatcher never gives to a plugin.\<close>

lemma builtin_listed: "set (map tool_name get_builtin_tools) = set BUILTIN_TOOL_NAMES"
  unfolding builtin_names BUILTIN_TOOL_NAMES_def by auto

end
