(* ===== verification/Audit_Log.thy ===== *)
theory Audit_Log
  imports Prelude "HOL-Library.AList" "HOL-Library.Multiset"
begin

text \<open>
  The audit log of \<open>audit.rs\<close>: the ring buffer of entries, the registry of per-session logs, the
  session and transport context of the current thread, the recording functions the dispatchers
  call, and the CSV export. Clock readings are arguments. The registry is a hash map whose
  iteration order the language leaves open: the key its iterator yields first is chosen by the
  argument \<open>pick\<close>. Lock poisoning, JSON export and the writing of files are not modelled.
\<close>

subsection \<open>A log that keeps its newest entries\<close>

text \<open>The contract of a bounded log: pushing appends and drops from the front what exceeds the capacity.\<close>

locale bounded_log =
  fixes push :: "'e \<Rightarrow> 'l \<Rightarrow> 'l" and contents :: "'l \<Rightarrow> 'e list" and empty_log :: 'l and capacity :: nat
  assumes contents_empty: "contents empty_log = []"
    and contents_push: "contents (push e l) =
      drop (length (contents l) + 1 - capacity) (contents l @ [e])"
begin

lemma push_all:
  "contents (foldl (\<lambda>l e. push e l) empty_log es) = drop (length es - capacity) es"
proof (induction es rule: rev_induct)
  case Nil
  then show ?case by (simp add: contents_empty)
next
  case (snoc e es)
  let ?m = "length es - capacity"
  have "drop ?m es @ [e] = drop ?m (es @ [e])" by simp
  moreover have "length es - ?m + 1 - capacity + ?m = length (es @ [e]) - capacity" by simp
  ultimately show ?case using snoc by (simp only: foldl_append foldl.simps contents_push length_drop drop_drop)
qed

lemma push_bound: "length (contents l) \<le> capacity \<Longrightarrow> length (contents (push e l)) \<le> capacity"
  by (simp add: contents_push)

lemma push_subset: "set (contents (push e l)) \<subseteq> insert e (set (contents l))"
  by (auto simp: contents_push dest: in_set_dropD)

lemma push_last: "0 < capacity \<Longrightarrow> length (contents l) \<le> capacity \<Longrightarrow> contents (push e l) \<noteq> [] \<and> last (contents (push e l)) = e"
  by (simp add: contents_push)

end

subsection \<open>Entries\<close>

definition MAX_AUDIT_ENTRIES :: nat where [simp]: "MAX_AUDIT_ENTRIES = 10000"
definition MAX_AUDIT_SESSIONS :: nat where [simp]: "MAX_AUDIT_SESSIONS = 1024"

datatype audit_outcome = Success | Error string | Timeout | Rejected string

record audit_entry =
  ae_sequence :: u64
  ae_timestamp_ms :: u64
  ae_tool_name :: string
  ae_duration_us :: u64
  ae_outcome :: audit_outcome
  ae_transport :: "string option"
  ae_payload_size :: "u64 option"
  ae_response_size :: "u64 option"
  ae_merkle_root :: "string option"
  ae_session_id :: "string option"

type_synonym audit_log = "audit_entry list"

text \<open>The critical section of \<open>record_full\<close>.\<close>

definition audit_push :: "audit_entry \<Rightarrow> audit_log \<Rightarrow> audit_log" where
  "audit_push entry entries =
     (let entries = entries @ [entry] in
      if length entries > MAX_AUDIT_ENTRIES
      then drop (length entries - MAX_AUDIT_ENTRIES) entries else entries)"

definition audit_recent :: "nat \<Rightarrow> audit_log \<Rightarrow> audit_entry list" where
  "audit_recent cnt entries = take cnt (rev entries)"

definition audit_clear :: "audit_log \<Rightarrow> audit_log" where
  "audit_clear entries = []"

interpretation ring: bounded_log audit_push "\<lambda>l. l" "[]" MAX_AUDIT_ENTRIES
  by unfold_locales (auto simp: audit_push_def Let_def)

subsection \<open>CSV export\<close>

definition replace_commas :: "string \<Rightarrow> string" where
  "replace_commas s = map (\<lambda>c. if c = CHR '','' then CHR '';'' else c) s"

fun outcome_str :: "audit_outcome \<Rightarrow> string" where
  "outcome_str Success = ''success''"
| "outcome_str (Error msg) = ''error:'' @ replace_commas msg"
| "outcome_str Timeout = ''timeout''"
| "outcome_str (Rejected reason) = ''rejected:'' @ replace_commas reason"

definition unwrap_str :: "string option \<Rightarrow> string" where
  "unwrap_str o' = (case o' of Some s \<Rightarrow> s | None \<Rightarrow> [])"

definition size_str :: "u64 option \<Rightarrow> string" where
  "size_str o' = (case o' of Some n \<Rightarrow> dec_of_nat (unat n) | None \<Rightarrow> [])"

definition csv_row :: "audit_entry \<Rightarrow> string" where
  "csv_row e =
     dec_of_nat (unat (ae_sequence e)) @ '','' @ dec_of_nat (unat (ae_timestamp_ms e)) @ '','' @
     ae_tool_name e @ '','' @ dec_of_nat (unat (ae_duration_us e)) @ '','' @ outcome_str (ae_outcome e) @ '','' @
     unwrap_str (ae_transport e) @ '','' @ size_str (ae_payload_size e) @ '','' @ size_str (ae_response_size e) @ '','' @
     unwrap_str (ae_merkle_root e) @ '','' @ unwrap_str (ae_session_id e) @ [CHR 0x0A]"

definition export_csv :: "audit_log \<Rightarrow> string" where
  "export_csv entries =
     ''sequence,timestamp_ms,tool_name,duration_us,outcome,transport,payload_size,response_size,merkle_root,session_id''
     @ [CHR 0x0A] @ concat (map csv_row entries)"

subsection \<open>The registry of sessions\<close>

type_synonym sessions = "(string \<times> audit_log) list"

definition get_or_create :: "(string list \<Rightarrow> string) \<Rightarrow> string \<Rightarrow> sessions \<Rightarrow> sessions" where
  "get_or_create pick session_id ss =
     (case map_of ss session_id of
        Some _ \<Rightarrow> ss
      | None \<Rightarrow>
          (let ss = (if length ss \<ge> MAX_AUDIT_SESSIONS then AList.delete (pick (map fst ss)) ss else ss)
           in ss @ [(session_id, [])]))"

definition registry_get :: "string \<Rightarrow> sessions \<Rightarrow> audit_log option" where
  "registry_get session_id ss = map_of ss session_id"

definition registry_remove :: "string \<Rightarrow> sessions \<Rightarrow> audit_log option \<times> sessions" where
  "registry_remove session_id ss = (map_of ss session_id, AList.delete session_id ss)"

definition session_ids :: "sessions \<Rightarrow> string list" where
  "session_ids ss = map fst ss"

definition session_count :: "sessions \<Rightarrow> nat" where
  "session_count ss = length ss"

text \<open>A stable sort by descending sequence number.\<close>

definition aggregate_all :: "sessions \<Rightarrow> audit_entry list" where
  "aggregate_all ss = sort_key (\<lambda>e. 2 ^ 64 - 1 - unat (ae_sequence e)) (concat (map snd ss))"

definition aggregate_recent :: "nat \<Rightarrow> sessions \<Rightarrow> audit_entry list" where
  "aggregate_recent cnt ss = take cnt (aggregate_all ss)"

subsection \<open>Recording\<close>

record audit_state =
  audit_sequence :: u64
  audit_registry :: sessions
  current_session_id :: "string option"
  current_transport :: "string option"

definition audit_initial :: audit_state where
  "audit_initial = \<lparr>audit_sequence = 1, audit_registry = [], current_session_id = None, current_transport = None\<rparr>"

definition set_session_context :: "string \<Rightarrow> audit_state \<Rightarrow> audit_state" where
  "set_session_context sid st = st\<lparr>current_session_id := Some sid\<rparr>"

definition clear_session_context :: "audit_state \<Rightarrow> audit_state" where
  "clear_session_context st = st\<lparr>current_session_id := None\<rparr>"

definition set_transport_context :: "string \<Rightarrow> audit_state \<Rightarrow> audit_state" where
  "set_transport_context t st = st\<lparr>current_transport := Some t\<rparr>"

definition clear_transport_context :: "audit_state \<Rightarrow> audit_state" where
  "clear_transport_context st = st\<lparr>current_transport := None\<rparr>"

text \<open>The clock readings of \<open>record_full\<close>: the wall clock and the time since the call started.\<close>

record clock_reading =
  now_ms :: u64
  elapsed_us :: u64

definition record_full ::
  "(string list \<Rightarrow> string) \<Rightarrow> clock_reading \<Rightarrow> string \<Rightarrow> audit_outcome \<Rightarrow> string option \<Rightarrow> u64 option \<Rightarrow> u64 option
   \<Rightarrow> string option \<Rightarrow> string \<Rightarrow> audit_state \<Rightarrow> audit_state" where
  "record_full pick clk tname outcome transport payload_size response_size merkle_root session_id st =
     (let ss = get_or_create pick session_id (audit_registry st);
          entry = \<lparr>ae_sequence = audit_sequence st, ae_timestamp_ms = now_ms clk, ae_tool_name = tname,
            ae_duration_us = elapsed_us clk, ae_outcome = outcome, ae_transport = transport,
            ae_payload_size = payload_size, ae_response_size = response_size, ae_merkle_root = merkle_root,
            ae_session_id = Some session_id\<rparr>;
          old = (case map_of ss session_id of Some l \<Rightarrow> l | None \<Rightarrow> [])
      in st\<lparr>audit_sequence := audit_sequence st + 1,
           audit_registry := AList.update session_id (audit_push entry old) ss\<rparr>)"

definition session_or_default :: "audit_state \<Rightarrow> string" where
  "session_or_default st = (case current_session_id st of Some s \<Rightarrow> s | None \<Rightarrow> ''default'')"

definition record_tool_call ::
  "(string list \<Rightarrow> string) \<Rightarrow> clock_reading \<Rightarrow> string \<Rightarrow> audit_outcome \<Rightarrow> audit_state \<Rightarrow> audit_state" where
  "record_tool_call pick clk tname outcome st =
     record_full pick clk tname outcome (current_transport st) None None None (session_or_default st) st"

definition record_tool_call_with_merkle ::
  "(string list \<Rightarrow> string) \<Rightarrow> clock_reading \<Rightarrow> string \<Rightarrow> audit_outcome \<Rightarrow> string option \<Rightarrow> audit_state \<Rightarrow> audit_state" where
  "record_tool_call_with_merkle pick clk tname outcome merkle_root st =
     record_full pick clk tname outcome (current_transport st) None None merkle_root (session_or_default st) st"

definition record_tool_call_with_sizes ::
  "(string list \<Rightarrow> string) \<Rightarrow> clock_reading \<Rightarrow> string \<Rightarrow> audit_outcome \<Rightarrow> u64 option \<Rightarrow> u64 option \<Rightarrow> string option
   \<Rightarrow> audit_state \<Rightarrow> audit_state" where
  "record_tool_call_with_sizes pick clk tname outcome payload_size response_size merkle_root st =
     record_full pick clk tname outcome (current_transport st) payload_size response_size merkle_root
       (session_or_default st) st"

definition record_tool_call_full ::
  "(string list \<Rightarrow> string) \<Rightarrow> clock_reading \<Rightarrow> string \<Rightarrow> audit_outcome \<Rightarrow> string option \<Rightarrow> u64 option \<Rightarrow> u64 option
   \<Rightarrow> string option \<Rightarrow> audit_state \<Rightarrow> audit_state" where
  "record_tool_call_full pick clk tname outcome transport payload_size response_size merkle_root st =
     record_full pick clk tname outcome transport payload_size response_size merkle_root (session_or_default st) st"

subsection \<open>The invariant of the registry\<close>

definition log_ok :: "string \<times> audit_log \<Rightarrow> bool" where
  "log_ok x \<longleftrightarrow> length (snd x) \<le> MAX_AUDIT_ENTRIES \<and> (\<forall>e \<in> set (snd x). ae_session_id e = Some (fst x))"

definition registry_ok :: "sessions \<Rightarrow> bool" where
  "registry_ok ss \<longleftrightarrow> distinct (map fst ss) \<and> length ss \<le> MAX_AUDIT_SESSIONS \<and> (\<forall>x \<in> set ss. log_ok x)"

text \<open>What the code relies on of the iteration of a hash map: a nonempty map yields one of its keys.\<close>

definition picks_key :: "(string list \<Rightarrow> string) \<Rightarrow> bool" where
  "picks_key pick \<longleftrightarrow> (\<forall>ks. ks \<noteq> [] \<longrightarrow> pick ks \<in> set ks)"

lemma length_delete:
  assumes "distinct (map fst ss)" "k \<in> fst ` set ss"
  shows "Suc (length (AList.delete k ss)) = length ss"
  using assms
proof (induction ss)
  case (Cons x ss)
  show ?case
  proof (cases "fst x = k")
    case True
    then have "k \<notin> fst ` set ss" using Cons.prems by auto
    then have "AList.delete k ss = ss" by (force simp: AList.delete_eq filter_id_conv)
    with True show ?thesis by (cases x) simp
  next
    case False
    with Cons show ?thesis by (cases x) auto
  qed
qed simp

lemma delete_subset: "set (AList.delete k ss) \<subseteq> set ss"
  by (auto simp: AList.delete_eq)

lemma get_or_create_ok:
  assumes "picks_key pick" "registry_ok ss"
  shows "registry_ok (get_or_create pick sid ss)" "sid \<in> fst ` set (get_or_create pick sid ss)"
proof -
  show "sid \<in> fst ` set (get_or_create pick sid ss)"
    by (cases "map_of ss sid") (simp_all add: get_or_create_def Let_def domI map_of_SomeD [THEN imageI [of _ _ fst], simplified])
  show "registry_ok (get_or_create pick sid ss)"
  proof (cases "map_of ss sid")
    case (Some l)
    with assms(2) show ?thesis by (simp add: get_or_create_def)
  next
    case None
    then have new: "sid \<notin> fst ` set ss" by (simp add: map_of_eq_None_iff)
    let ?k = "pick (map fst ss)" and ?ss = "AList.delete (pick (map fst ss)) ss"
    show ?thesis
    proof (cases "length ss \<ge> MAX_AUDIT_SESSIONS")
      case True
      then have "map fst ss \<noteq> []" by (cases ss) simp_all
      then have "?k \<in> set (map fst ss)" using assms(1) unfolding picks_key_def by blast
      then have "?k \<in> fst ` set ss" by simp
      then have "Suc (length ?ss) = length ss" using assms(2) by (intro length_delete) (auto simp: registry_ok_def)
      moreover have "sid \<notin> fst ` set ?ss" "distinct (map fst ?ss)"
        using new assms(2) delete_subset [of ?k ss] AList.distinct_delete [of ss ?k]
        by (auto simp: registry_ok_def simp del: AList.delete_keys)
      ultimately show ?thesis using None True assms(2) delete_subset [of ?k ss]
        by (auto simp: get_or_create_def registry_ok_def log_ok_def simp del: AList.delete_keys)
    next
      case False
      with None new assms(2) show ?thesis by (auto simp: get_or_create_def registry_ok_def log_ok_def)
    qed
  qed
qed

lemma map_of_get_or_create:
  assumes "q \<noteq> sid"
  shows "map_of (get_or_create pick sid ss) q \<in> {map_of ss q, None}"
  using assms by (auto simp: get_or_create_def Let_def delete_conv map_add_def split: option.splits)

lemma update_ok:
  assumes "registry_ok ss" "sid \<in> fst ` set ss" "log_ok (sid, l)"
  shows "registry_ok (AList.update sid l ss)"
proof -
  have "length (AList.update sid l ss) = length ss"
    using arg_cong [OF AList.update_keys [of sid l ss], of length] assms(2) by simp
  moreover have "set (AList.update sid l ss) \<subseteq> insert (sid, l) (set ss)"
    by (induction ss) auto
  ultimately show ?thesis using assms by (auto simp: registry_ok_def distinct_update)
qed

lemma log_ok_push:
  assumes "log_ok (sid, l)" "ae_session_id e = Some sid"
  shows "log_ok (sid, audit_push e l)"
  using assms ring.push_bound [of l e] ring.push_subset [of e l] by (auto simp: log_ok_def)

lemma map_of_log_ok:
  "registry_ok ss \<Longrightarrow> map_of ss sid = Some l \<Longrightarrow> log_ok (sid, l)"
  by (auto simp: registry_ok_def dest: map_of_SomeD)

lemma record_full_ok:
  assumes "picks_key pick" "registry_ok (audit_registry st)"
  shows "registry_ok (audit_registry (record_full pick clk t oc tr ps rs mr sid st))"
proof -
  let ?ss = "get_or_create pick sid (audit_registry st)"
  have "log_ok (sid, case map_of ?ss sid of Some l \<Rightarrow> l | None \<Rightarrow> [])"
    using map_of_log_ok [OF get_or_create_ok(1) [OF assms]] by (auto simp: log_ok_def split: option.split)
  then show ?thesis using get_or_create_ok [OF assms, of sid]
    by (simp add: record_full_def Let_def update_ok log_ok_push)
qed

text \<open>The log of the session that records, before and after.\<close>

definition session_log :: "string \<Rightarrow> audit_state \<Rightarrow> audit_log" where
  "session_log sid st = (case registry_get sid (audit_registry st) of Some l \<Rightarrow> l | None \<Rightarrow> [])"

lemma map_of_get_or_create_self:
  "map_of (get_or_create pick sid ss) sid = Some (case map_of ss sid of Some l \<Rightarrow> l | None \<Rightarrow> [])"
  by (auto simp: get_or_create_def Let_def delete_conv map_add_def split: option.splits)

lemma record_full_log:
  "session_log q (record_full pick clk t oc tr ps rs mr sid st) =
     (if q = sid then audit_push \<lparr>ae_sequence = audit_sequence st, ae_timestamp_ms = now_ms clk, ae_tool_name = t,
            ae_duration_us = elapsed_us clk, ae_outcome = oc, ae_transport = tr,
            ae_payload_size = ps, ae_response_size = rs, ae_merkle_root = mr, ae_session_id = Some sid\<rparr>
          (session_log sid st)
      else (case map_of (get_or_create pick sid (audit_registry st)) q of Some l \<Rightarrow> l | None \<Rightarrow> []))"
  by (simp add: session_log_def registry_get_def record_full_def Let_def update_conv map_of_get_or_create_self)

lemma get_or_create_keeps:
  assumes "q \<noteq> sid" "length ss < MAX_AUDIT_SESSIONS \<or> map_of ss sid \<noteq> None"
  shows "map_of (get_or_create pick sid ss) q = map_of ss q"
  using assms by (auto simp: get_or_create_def Let_def map_add_def split: option.splits)

subsection \<open>Runs of operations\<close>

datatype audit_op =
    Set_Session string
  | Clear_Session
  | Set_Transport string
  | Clear_Transport
  | Record_Call clock_reading string audit_outcome "string option" "u64 option" "u64 option" "string option"
  | Remove_Session string
  | Clear_Sessions

fun audit_apply :: "(string list \<Rightarrow> string) \<Rightarrow> audit_state \<Rightarrow> audit_op \<Rightarrow> audit_state" where
  "audit_apply pick st (Set_Session sid) = set_session_context sid st"
| "audit_apply pick st Clear_Session = clear_session_context st"
| "audit_apply pick st (Set_Transport t) = set_transport_context t st"
| "audit_apply pick st Clear_Transport = clear_transport_context st"
| "audit_apply pick st (Record_Call clk t oc tr ps rs mr) = record_tool_call_full pick clk t oc tr ps rs mr st"
| "audit_apply pick st (Remove_Session sid) = st\<lparr>audit_registry := snd (registry_remove sid (audit_registry st))\<rparr>"
| "audit_apply pick st Clear_Sessions = st\<lparr>audit_registry := []\<rparr>"

definition audit_run :: "(string list \<Rightarrow> string) \<Rightarrow> audit_op list \<Rightarrow> audit_state" where
  "audit_run pick ops = foldl (audit_apply pick) audit_initial ops"

lemma record_variants:
  "record_tool_call pick clk t oc st = record_tool_call_full pick clk t oc (current_transport st) None None None st"
  "record_tool_call_with_merkle pick clk t oc mr st =
     record_tool_call_full pick clk t oc (current_transport st) None None mr st"
  "record_tool_call_with_sizes pick clk t oc ps rs mr st =
     record_tool_call_full pick clk t oc (current_transport st) ps rs mr st"
  by (simp_all add: record_tool_call_def record_tool_call_with_merkle_def record_tool_call_with_sizes_def
      record_tool_call_full_def)

lemma registry_ok_delete: "registry_ok ss \<Longrightarrow> registry_ok (AList.delete sid ss)"
proof -
  assume ok: "registry_ok ss"
  have "length (AList.delete sid ss) \<le> length ss" by (simp add: AList.delete_eq)
  with ok delete_subset [of sid ss] AList.distinct_delete [of ss sid] show ?thesis
    by (auto simp: registry_ok_def simp del: AList.delete_keys)
qed

lemma audit_apply_ok:
  assumes "picks_key pick" "registry_ok (audit_registry st)"
  shows "registry_ok (audit_registry (audit_apply pick st op))"
  using assms
  by (cases op) (auto simp: set_session_context_def clear_session_context_def set_transport_context_def
      clear_transport_context_def record_tool_call_full_def registry_remove_def registry_ok_delete
      intro: record_full_ok simp: registry_ok_def [of "[]"])

text \<open>Sequence numbers: below the counter, and increasing in every log.\<close>

definition increasing :: "audit_log \<Rightarrow> bool" where
  "increasing l \<longleftrightarrow> sorted_wrt (<) (map (\<lambda>e. unat (ae_sequence e)) l)"

definition numbered :: "audit_state \<Rightarrow> bool" where
  "numbered st \<longleftrightarrow> (\<forall>x \<in> set (audit_registry st). increasing (snd x)
     \<and> (\<forall>e \<in> set (snd x). ae_sequence e < audit_sequence st))"

lemma increasing_drop: "increasing l \<Longrightarrow> increasing (drop n l)"
  by (simp add: increasing_def sorted_wrt_drop drop_map [symmetric])

lemma increasing_push:
  "increasing l \<Longrightarrow> \<forall>x \<in> set l. ae_sequence x < ae_sequence e \<Longrightarrow> increasing (audit_push e l)"
proof -
  assume a: "increasing l" "\<forall>x \<in> set l. ae_sequence x < ae_sequence e"
  then have "increasing (l @ [e])" by (auto simp: increasing_def sorted_wrt_append word_less_nat_alt)
  then show ?thesis by (simp only: ring.contents_push increasing_drop)
qed

lemma set_audit_push: "x \<in> set (audit_push e l) \<Longrightarrow> x = e \<or> x \<in> set l"
  using ring.push_subset [of e l] by auto

lemma set_get_or_create: "x \<in> set (get_or_create pick sid ss) \<Longrightarrow> x \<in> set ss \<or> x = (sid, [])"
  using delete_subset by (fastforce simp: get_or_create_def Let_def split: option.splits if_splits)

lemma set_update: "x \<in> set (AList.update k v ss) \<Longrightarrow> x = (k, v) \<or> x \<in> set ss"
  by (induction ss) (auto split: if_splits)

lemma record_full_numbered:
  assumes "numbered st" "audit_sequence st < audit_sequence st + 1"
  shows "numbered (record_full pick clk t oc tr ps rs mr sid st)"
proof -
  let ?ss = "get_or_create pick sid (audit_registry st)"
  define old where "old = (case map_of ?ss sid of Some l \<Rightarrow> l | None \<Rightarrow> [])"
  have ss: "increasing (snd x) \<and> (\<forall>e \<in> set (snd x). ae_sequence e < audit_sequence st)" if "x \<in> set ?ss" for x
    using set_get_or_create [OF that] assms(1) by (auto simp: numbered_def increasing_def)
  have o: "increasing old" "\<forall>e \<in> set old. ae_sequence e < audit_sequence st"
    using ss [OF map_of_SomeD, of sid] by (cases "map_of ?ss sid"; simp add: old_def increasing_def [of "[]"])+
  have less: "ae_sequence e < audit_sequence st + 1" if "ae_sequence e < audit_sequence st" for e
    using that assms(2) by (rule order.strict_trans)
  show ?thesis unfolding numbered_def
  proof
    fix x assume "x \<in> set (audit_registry (record_full pick clk t oc tr ps rs mr sid st))"
    then consider (new) "snd x = audit_push \<lparr>ae_sequence = audit_sequence st, ae_timestamp_ms = now_ms clk,
        ae_tool_name = t, ae_duration_us = elapsed_us clk, ae_outcome = oc, ae_transport = tr, ae_payload_size = ps,
        ae_response_size = rs, ae_merkle_root = mr, ae_session_id = Some sid\<rparr> old" | (kept) "x \<in> set ?ss"
      by (auto simp: record_full_def Let_def old_def dest!: set_update)
    then show "increasing (snd x) \<and> (\<forall>e \<in> set (snd x).
        ae_sequence e < audit_sequence (record_full pick clk t oc tr ps rs mr sid st))"
    proof cases
      case new
      with o less assms(2) show ?thesis
        by (auto simp: record_full_def Let_def intro!: increasing_push dest!: set_audit_push)
    next
      case kept
      with ss [OF kept] less show ?thesis by (auto simp: record_full_def Let_def)
    qed
  qed
qed

lemma audit_apply_numbered:
  assumes "numbered st" "audit_sequence st < audit_sequence st + 1"
  shows "numbered (audit_apply pick st op)"
proof (cases op)
  case (Record_Call clk t oc tr ps rs mr)
  with assms show ?thesis by (simp add: record_tool_call_full_def record_full_numbered)
next
  case (Remove_Session sid)
  with assms(1) delete_subset [of sid "audit_registry st"] show ?thesis
    by (auto simp: numbered_def registry_remove_def)
qed (use assms(1) in \<open>auto simp: numbered_def set_session_context_def clear_session_context_def
      set_transport_context_def clear_transport_context_def\<close>)

lemma audit_apply_sequence:
  "audit_sequence (audit_apply pick st op) \<in> {audit_sequence st, audit_sequence st + 1}"
  by (cases op) (auto simp: set_session_context_def clear_session_context_def set_transport_context_def
      clear_transport_context_def record_tool_call_full_def record_full_def Let_def)

lemma u64_succ: "unat (w :: u64) < 2 ^ 64 - 1 \<Longrightarrow> unat (w + 1) = unat w + 1 \<and> w < w + 1"
  by (simp add: unat_word_ariths word_less_nat_alt)

lemma audit_run_numbered:
  "length ops < 2 ^ 64 - 1 \<Longrightarrow> numbered (audit_run pick ops) \<and> unat (audit_sequence (audit_run pick ops)) \<le> 1 + length ops"
proof (induction ops rule: rev_induct)
  case Nil
  then show ?case by (simp add: audit_run_def audit_initial_def numbered_def)
next
  case (snoc op ops)
  let ?st = "audit_run pick ops"
  have IH: "numbered ?st" "unat (audit_sequence ?st) \<le> 1 + length ops" using snoc by simp_all
  then have "unat (audit_sequence ?st) < 2 ^ 64 - 1" using snoc.prems by simp
  note succ = u64_succ [OF this]
  have run: "audit_run pick (ops @ [op]) = audit_apply pick ?st op" by (simp add: audit_run_def)
  show ?case using audit_apply_numbered [OF IH(1), of pick op] audit_apply_sequence [of pick ?st op] succ IH
    by (auto simp: run)
qed

lemma audit_run_ok: "picks_key pick \<Longrightarrow> registry_ok (audit_registry (audit_run pick ops))"
proof (induction ops rule: rev_induct)
  case Nil
  then show ?case by (simp add: audit_run_def audit_initial_def registry_ok_def)
next
  case (snoc op ops)
  then show ?case by (simp add: audit_run_def audit_apply_ok)
qed

subsection \<open>Columns of the export\<close>

definition commas :: "string \<Rightarrow> nat" where
  "commas s = length (filter (\<lambda>c. c = CHR '','') s)"

lemma commas_append [simp]: "commas (s @ t) = commas s + commas t"
  by (simp add: commas_def)

lemma commas_Cons [simp]: "commas (c # s) = (if c = CHR '','' then 1 else 0) + commas s"
  by (simp add: commas_def)

lemma commas_Nil [simp]: "commas [] = 0"
  by (simp add: commas_def)

lemma commas_dec [simp]: "commas (dec_of_nat n) = 0"
  using dec_of_nat_digits [of n] by (auto simp: commas_def filter_empty_conv list_all_iff is_digit_char_def)

lemma commas_replace [simp]: "commas (replace_commas s) = 0"
  by (simp add: commas_def replace_commas_def filter_empty_conv)

lemma commas_outcome [simp]: "commas (outcome_str oc) = 0"
  by (cases oc) simp_all

lemma commas_size [simp]: "commas (size_str n) = 0"
  by (simp add: size_str_def split: option.split)

subsection \<open>Properties\<close>

text \<open>A log holds exactly the last ten thousand entries recorded in it, oldest first, and reports
  the most recent ones newest first.\<close>

theorem audit_ring_exact:
  "foldl (\<lambda>l e. audit_push e l) [] es = drop (length es - MAX_AUDIT_ENTRIES) es
   \<and> audit_recent n (foldl (\<lambda>l e. audit_push e l) [] es)
       = take n (take MAX_AUDIT_ENTRIES (rev es))"
  using ring.push_all [of es] by (cases "length es \<le> 10000") (simp_all add: audit_recent_def rev_drop min_def)

text \<open>C28: after any run of context changes, recordings and removals, the registry has at most 1024
  sessions, every log at most 10,000 entries, every entry stored for a session was recorded under
  that session, and, as long as the counter has not wrapped, sequence numbers increase strictly in
  every log.\<close>

theorem audit_isolation:
  assumes "picks_key pick" "length ops < 2 ^ 64 - 1"
  shows "session_count (audit_registry (audit_run pick ops)) \<le> 1024
    \<and> (\<forall>(sid, l) \<in> set (audit_registry (audit_run pick ops)). length l \<le> 10000
        \<and> (\<forall>e \<in> set l. ae_session_id e = Some sid) \<and> increasing l)"
  using audit_run_ok [OF assms(1), of ops] audit_run_numbered [OF assms(2), of pick]
  by (auto simp: registry_ok_def log_ok_def numbered_def session_count_def)

theorem audit_isolation_witness:
  "list_all (\<lambda>(sid, l). length l \<le> 10000 \<and> list_all (\<lambda>e. ae_session_id e = Some sid) l \<and> increasing l)
     (audit_registry (audit_run hd
       [Set_Session ''a'', Record_Call \<lparr>now_ms = 5, elapsed_us = 1\<rparr> ''echo'' Success None None None None]))"
  using audit_isolation [of hd "[Set_Session ''a'',
      Record_Call \<lparr>now_ms = 5, elapsed_us = 1\<rparr> ''echo'' Success None None None None]"]
  by (simp add: picks_key_def list_all_iff)




end
