(* ===== verification/Server_State.thy ===== *)
theory Server_State
  imports Nda_Laws Rate_Limit Audit_Log
begin

text \<open>
  The state the dispatchers share: the process-wide rate limiter, the audit state, the stored log
  level, the set of cancelled request identifiers and the caches of the native protocol. The
  tool registry, the resource and prompt providers, sampling, connectors and progress tracking
  keep their own state, the \<open>world\<close>, and are reached through the record \<open>backend\<close>.

  A tool may run while other threads handle further messages; what the dispatcher can observe of
  them are cancellations, so \<open>call_tool\<close> also yields the keys that were recorded meanwhile.
\<close>

datatype level = DEBUG | INFO | WARN | ERROR

record 'w backend =
  bk_get_tools :: "'w \<Rightarrow> tool list \<times> 'w"
  bk_generation :: "'w \<Rightarrow> u64"
  bk_call_tool :: "string \<Rightarrow> value \<Rightarrow> 'w \<Rightarrow> (string + string) \<times> string list \<times> 'w"
  bk_call_tool_binary :: "string \<Rightarrow> bytes \<Rightarrow> 'w \<Rightarrow> (string + string) \<times> string list \<times> 'w"
  bk_resources_list :: "string option \<Rightarrow> 'w \<Rightarrow> value \<times> 'w"
  bk_resources_read :: "string \<Rightarrow> 'w \<Rightarrow> (string + value) \<times> 'w"
  bk_templates_list :: "string option \<Rightarrow> 'w \<Rightarrow> value \<times> 'w"
  bk_subscribe :: "string \<Rightarrow> string \<Rightarrow> 'w \<Rightarrow> (string + value) \<times> 'w"
  bk_unsubscribe :: "string \<Rightarrow> string \<Rightarrow> 'w \<Rightarrow> (string + value) \<times> 'w"
  bk_prompts_list :: "string option \<Rightarrow> 'w \<Rightarrow> value \<times> 'w"
  bk_prompts_get :: "string \<Rightarrow> value \<Rightarrow> 'w \<Rightarrow> (string + value) \<times> 'w"
  bk_sampling :: "value \<Rightarrow> 'w \<Rightarrow> (string + value) \<times> 'w"
  bk_connector :: "value \<Rightarrow> 'w \<Rightarrow> (string + value) \<times> 'w"
  bk_progress :: "value \<Rightarrow> 'w \<Rightarrow> 'w"

text \<open>
  Text functions of crates outside the repository: the display of a float, the debug form of a
  value, and the two path-redacting regular expressions of \<open>sanitize_error\<close>.
\<close>

record text_ops =
  float_display :: "f64 \<Rightarrow> string"
  value_debug :: "value \<Rightarrow> string"
  redact_windows :: "string \<Rightarrow> string"
  redact_unix :: "string \<Rightarrow> string"

text \<open>What a request reads of the clocks, and the iteration choice of the audit registry.\<close>

record readings =
  rd_now :: nat
  rd_clock :: clock_reading
  rd_pick :: "string list \<Rightarrow> string"

record 'w server =
  sv_limiter :: rate_limiter
  sv_audit :: audit_state
  sv_log_level :: level
  sv_cancelled :: "string list"
  sv_nda :: nda_globals
  sv_world :: 'w

definition check_rate_limit :: "readings \<Rightarrow> 'w server \<Rightarrow> bool \<times> 'w server" where
  "check_rate_limit rd s =
     (case try_acquire (rd_now rd) (sv_limiter s) of (ok, l) \<Rightarrow> (ok, s\<lparr>sv_limiter := l\<rparr>))"

definition audit_call :: "readings \<Rightarrow> string \<Rightarrow> audit_outcome \<Rightarrow> 'w server \<Rightarrow> 'w server" where
  "audit_call rd name outcome s =
     s\<lparr>sv_audit := record_tool_call (rd_pick rd) (rd_clock rd) name outcome (sv_audit s)\<rparr>"

definition audit_call_merkle :: "readings \<Rightarrow> string \<Rightarrow> audit_outcome \<Rightarrow> string option \<Rightarrow> 'w server \<Rightarrow> 'w server" where
  "audit_call_merkle rd name outcome merkle s =
     s\<lparr>sv_audit := record_tool_call_with_merkle (rd_pick rd) (rd_clock rd) name outcome merkle (sv_audit s)\<rparr>"

subsection \<open>Error texts\<close>

text \<open>\<open>str::floor_char_boundary\<close>: the largest index up to the given one where a character starts.\<close>

fun floor_char_boundary :: "string \<Rightarrow> nat \<Rightarrow> nat" where
  "floor_char_boundary s n =
     (if n \<ge> length s then length s
      else if n = 0 \<or> \<not> utf8_cont (byte_of_char (s ! n)) then n
      else floor_char_boundary s (n - 1))"

declare floor_char_boundary.simps [simp del]

definition sanitize_error :: "text_ops \<Rightarrow> string \<Rightarrow> string" where
  "sanitize_error T msg =
     (let truncated = (if length msg > 500
                       then take (floor_char_boundary msg 500) msg @ ''... [truncated]'' else msg);
          sanitized = redact_windows T truncated
      in redact_unix T sanitized)"

definition contains :: "string \<Rightarrow> string \<Rightarrow> bool" where
  "contains s pat \<longleftrightarrow> list_ex (\<lambda>i. take (length pat) (drop i s) = pat) [0..<Suc (length s)]"

definition NOT_FOUND_MARKERS :: "string list" where
  "NOT_FOUND_MARKERS = [''not found'', ''No such file'', ''cannot find'']"

definition classify_tool_error :: "string \<Rightarrow> string \<times> string" where
  "classify_tool_error sanitized =
     (if contains sanitized ''Compilation failed'' \<or> contains sanitized ''Failed to register WASM tool'' then
        (''TOOL_BUILD_FAILED'',
         ''The tool module could not be compiled or registered on this host. The message above names the cause; a missing build toolchain is fixed by installing it or by loading a prebuilt module path from the manifest.'')
      else if list_ex (contains sanitized) NOT_FOUND_MARKERS then
        (''NOT_FOUND'', ''Check that the path or resource exists.'')
      else if contains sanitized ''Permission denied'' \<or> contains sanitized ''access'' then
        (''PERMISSION_DENIED'', ''Check file permissions or run with elevated privileges.'')
      else if contains sanitized ''required'' \<or> contains sanitized ''missing'' then
        (''INVALID_ARGUMENTS'', ''Check that all required parameters are provided with correct types.'')
      else if contains sanitized ''timeout'' \<or> contains sanitized ''timed out'' then
        (''TIMEOUT'', ''The operation took too long. Try again or increase timeout.'')
      else if contains sanitized ''connection'' \<or> contains sanitized ''network'' then
        (''NETWORK_ERROR'', ''A network error occurred. Check connectivity and retry.'')
      else (''EXECUTION_ERROR'', ''Review the error message and adjust inputs accordingly.''))"

definition newline :: string where
  "newline = [CHR 0x0A]"

definition tool_error_text :: "text_ops \<Rightarrow> string \<Rightarrow> string \<Rightarrow> string" where
  "tool_error_text T name err =
     (let sanitized = sanitize_error T err; (error_type, hint) = classify_tool_error sanitized
      in ''Error running tool '' @ [CHR 0x27] @ name @ [CHR 0x27] @ '': '' @ sanitized @ newline @ newline
         @ ''Error type: '' @ error_type @ newline @ ''Hint: '' @ hint)"

lemma floor_char_boundary_bound: "floor_char_boundary s n \<le> length s"
  by (induction s n rule: floor_char_boundary.induct) (subst floor_char_boundary.simps, auto)

text \<open>The cut is made where a character starts.\<close>

lemma floor_char_boundary_start:
  "floor_char_boundary s n = 0 \<or> floor_char_boundary s n = length s
   \<or> \<not> utf8_cont (byte_of_char (s ! floor_char_boundary s n))"
proof (induction s n rule: floor_char_boundary.induct)
  case (1 s n)
  show ?case
  proof (cases "n \<ge> length s \<or> n = 0 \<or> \<not> utf8_cont (byte_of_char (s ! n))")
    case True
    then show ?thesis by (subst (1 2 3) floor_char_boundary.simps) auto
  next
    case False
    then have "floor_char_boundary s n = floor_char_boundary s (n - 1)"
      by (subst floor_char_boundary.simps) auto
    with 1 False show ?thesis by auto
  qed
qed

end
