(* ===== verification/Registry.thy ===== *)
theory Registry
  imports Builtin_Tools Server_State
begin

text \<open>
  The tool registry (\<open>registry.rs\<close>): the sources a tool list is put together from, the generation
  counter that versions them, the cached list, registration by macros, plugins and converted frames,
  and the dispatch of binary calls with its fall-back to the decoded path.

  Left as arguments: the result of discovering tools from the external engine, the iteration order of
  a hash map, the printing of converted frames, and the WebAssembly runtimes with the execution of a
  tool by name. A poisoned lock is recovered from in the source and is not modelled.
\<close>

subsection \<open>State\<close>

record executor =
  ex_type :: string
  ex_command :: string
  ex_args :: "string list"
  ex_working_dir :: "string option"
  ex_env :: "(string \<times> string) list"
  ex_timeout :: u64
  ex_language :: "string option"
  ex_source :: "string option"
  ex_source_file :: "string option"
  ex_handler_function :: "string option"

record plugin_tool =
  pt_name :: string
  pt_description :: string
  pt_input_schema :: "value"
  pt_executor :: executor

text \<open>A manifest together with the path it was loaded from.\<close>

record loaded_plugin =
  lp_name :: string
  lp_version :: string
  lp_tools :: "plugin_tool list"
  lp_path :: string

record registry =
  rg_generation :: u64
  rg_discovered :: "tool list option"
  rg_tools_cache :: "(u64 \<times> tool list) option"
  rg_converted :: "(string \<times> tool) list"
  rg_macro :: "tool list"
  rg_plugins :: "loaded_plugin list"
  rg_frames :: "(string \<times> bytes) list"
  rg_fallback :: "string list"

definition registry_initial :: registry where
  "registry_initial = \<lparr>rg_generation = 0, rg_discovered = None, rg_tools_cache = None, rg_converted = [],
     rg_macro = [], rg_plugins = [], rg_frames = [], rg_fallback = []\<rparr>"

definition registry_generation :: "registry \<Rightarrow> u64" where
  "registry_generation r = rg_generation r"

definition bump_registry_generation :: "registry \<Rightarrow> registry" where
  "bump_registry_generation r = r\<lparr>rg_generation := rg_generation r + 1\<rparr>"

subsection \<open>Registration\<close>

definition load_plugins :: "loaded_plugin list \<Rightarrow> registry \<Rightarrow> registry" where
  "load_plugins plugins r = bump_registry_generation (r\<lparr>rg_plugins := plugins\<rparr>)"

definition register_tool_lazy :: "tool \<Rightarrow> registry \<Rightarrow> registry" where
  "register_tool_lazy t r =
     (if \<not> list_ex (\<lambda>u. tool_name u = tool_name t) (rg_macro r)
      then bump_registry_generation (r\<lparr>rg_macro := rg_macro r @ [t]\<rparr>) else r)"

subsection \<open>The tool list\<close>

definition plugins_to_registry_tools :: "loaded_plugin list \<Rightarrow> tool list" where
  "plugins_to_registry_tools plugins =
     concat (map (\<lambda>p. map (\<lambda>t.
       \<lparr>tool_name = pt_name t,
        tool_description =
          (if ex_type (pt_executor t) = ''wasm'' then
             (case ex_language (pt_executor t) of
                Some lang \<Rightarrow> pt_description t @ '' [wasm:'' @ lang @ '']''
              | None \<Rightarrow> pt_description t)
           else pt_description t),
        tool_input_schema = pt_input_schema t\<rparr>) (lp_tools p)) plugins)"

definition deprecated_names :: "string list" where
  "deprecated_names = [''convert_to_nda'']"

text \<open>Appending the entries whose name is not known yet; the known names grow with the list.\<close>

fun push_unknown :: "(string \<times> tool) list \<Rightarrow> string list \<times> tool list \<Rightarrow> string list \<times> tool list" where
  "push_unknown [] acc = acc"
| "push_unknown ((name, t) # rest) (known, tools) =
     (if name \<notin> set known then push_unknown rest (name # known, tools @ [t])
      else push_unknown rest (known, tools))"

definition named :: "tool list \<Rightarrow> (string \<times> tool) list" where
  "named ts = map (\<lambda>t. (tool_name t, t)) ts"

text \<open>The list built from the sources: built-in, discovered, converted, macro and plugin tools.\<close>

definition build_tools :: "((string \<times> tool) list \<Rightarrow> (string \<times> tool) list) \<Rightarrow> tool list \<Rightarrow> registry \<Rightarrow> tool list" where
  "build_tools iter dynamic_tools r =
     (let acc = (map tool_name get_builtin_tools, get_builtin_tools);
          acc = push_unknown (named (filter (\<lambda>t. tool_name t \<notin> set deprecated_names) dynamic_tools)) acc;
          acc = push_unknown (iter (rg_converted r)) acc;
          acc = push_unknown (named (rg_macro r)) acc;
          acc = push_unknown (named (plugins_to_registry_tools (rg_plugins r))) acc
      in snd acc)"

text \<open>Discovery happens once; a failure is remembered as an empty result.\<close>

definition discover_once :: "(string + tool list) \<Rightarrow> registry \<Rightarrow> tool list \<times> registry" where
  "discover_once discovery r =
     (case rg_discovered r of
        Some ts \<Rightarrow> (ts, r)
      | None \<Rightarrow>
          (case discovery of
             Inr ts \<Rightarrow> (ts, bump_registry_generation (r\<lparr>rg_discovered := Some ts\<rparr>))
           | Inl e \<Rightarrow> ([], r\<lparr>rg_discovered := Some []\<rparr>)))"

definition get_tools ::
  "((string \<times> tool) list \<Rightarrow> (string \<times> tool) list) \<Rightarrow> (string + tool list) \<Rightarrow> registry \<Rightarrow> tool list \<times> registry" where
  "get_tools iter discovery r =
     (let current_gen = rg_generation r;
          rebuild = (case discover_once discovery r of (dynamic_tools, r) \<Rightarrow>
            let tools = build_tools iter dynamic_tools r
            in (tools, r\<lparr>rg_tools_cache := Some (current_gen, tools)\<rparr>))
      in case rg_tools_cache r of
           Some (cached_gen, cached_tools) \<Rightarrow> if cached_gen = current_gen then (cached_tools, r) else rebuild
         | None \<Rightarrow> rebuild)"

subsection \<open>Converted tools\<close>

definition MAX_NMCP_FRAMES :: nat where [simp]: "MAX_NMCP_FRAMES = 256"

definition pass_through_schema :: "value" where
  "pass_through_schema = json_obj [(''type'', String ''object''), (''properties'', json_obj []), (''required'', Array []),
     (''description'', String ''Arguments passed through to NDA binary executor'')]"

definition em_dash :: string where
  "em_dash = [CHR 0xE2, CHR 0x80, CHR 0x94]"

definition cache_frame :: "(string list \<Rightarrow> string) \<Rightarrow> string \<Rightarrow> bytes \<Rightarrow> (string \<times> bytes) list \<Rightarrow> (string \<times> bytes) list" where
  "cache_frame pick name frame frames =
     (let frames = (if length frames \<ge> MAX_NMCP_FRAMES \<and> map_of frames name = None
                    then AList.delete (pick (map fst frames)) frames else frames)
      in AList.update name frame frames)"

text \<open>The registering half of \<open>cache_nmcp_frame\<close>, once the request is parsed and its frame is built.\<close>

definition cache_nmcp_frame ::
  "((string \<times> tool) list \<Rightarrow> (string \<times> tool) list) \<Rightarrow> (string list \<Rightarrow> string) \<Rightarrow> (string + tool list)
   \<Rightarrow> string \<Rightarrow> bytes \<Rightarrow> registry \<Rightarrow> registry" where
  "cache_nmcp_frame iter pick discovery name frame r =
     (let r = bump_registry_generation (r\<lparr>rg_frames := cache_frame pick name frame (rg_frames r)\<rparr>);
          (existing_tools, r) = get_tools iter discovery r;
          schema = (case find (\<lambda>t. tool_name t = name) existing_tools of
                      Some t \<Rightarrow> tool_input_schema t | None \<Rightarrow> pass_through_schema);
          tool_def = \<lparr>tool_name = name,
            tool_description = ''NDA-converted tool '' @ [CHR 0x27] @ name @ [CHR 0x27] @ '' '' @ em_dash
              @ '' executes via fast binary path'',
            tool_input_schema = schema\<rparr>
      in bump_registry_generation (r\<lparr>rg_converted := AList.update name tool_def (rg_converted r)\<rparr>))"

subsection \<open>Binary calls\<close>

text \<open>Lower-casing of ASCII letters, as \<open>to_ascii_lowercase\<close>.\<close>

definition to_ascii_lowercase :: "string \<Rightarrow> string" where
  "to_ascii_lowercase s =
     map (\<lambda>c. let n = of_char c :: nat in if 65 \<le> n \<and> n \<le> 90 then char_of (n + 32) else c) s"

definition binary_failure_is_request_level :: "string \<Rightarrow> bool" where
  "binary_failure_is_request_level err \<longleftrightarrow> contains (to_ascii_lowercase err) ''tlv decode''"

definition binary_failure_is_pre_execution :: "string \<Rightarrow> bool" where
  "binary_failure_is_pre_execution err \<longleftrightarrow>
     (let e = to_ascii_lowercase err in
      contains e ''unknown'' \<and> contains e ''tool'' \<or> contains e ''failed to register''
      \<or> contains e ''tool not loaded'' \<or> contains e ''not registered'' \<or> contains e ''wrapper not cached'')"

definition manifest_wasm_language :: "string \<Rightarrow> registry \<Rightarrow> string option" where
  "manifest_wasm_language name r =
     (case List.map_filter (\<lambda>p. Option.bind (find (\<lambda>t. pt_name t = name \<and> ex_type (pt_executor t) = ''wasm'') (lp_tools p))
             (\<lambda>t. ex_language (pt_executor t))) (rg_plugins r) of [] \<Rightarrow> None | l # _ \<Rightarrow> Some l)"

text \<open>The runtimes and the rest of the world: languages of registered tools, files, registration, execution.\<close>

record 'w runtime =
  rt_language :: "string \<Rightarrow> 'w \<Rightarrow> string option"
  rt_read_file :: "string \<Rightarrow> 'w \<Rightarrow> string option"
  rt_register :: "string \<Rightarrow> string \<Rightarrow> string \<Rightarrow> 'w \<Rightarrow> (string + unit) \<times> 'w"
  rt_call_binary :: "string \<Rightarrow> string \<Rightarrow> bytes \<Rightarrow> 'w \<Rightarrow> (string + string) \<times> 'w"
  rt_call_tool :: "string \<Rightarrow> value \<Rightarrow> 'w \<Rightarrow> (string + string) \<times> 'w"

definition plugin_wasm_source :: "'w runtime \<Rightarrow> string \<Rightarrow> string \<Rightarrow> registry \<Rightarrow> 'w \<Rightarrow> string option" where
  "plugin_wasm_source R name language r w =
     (case List.map_filter (\<lambda>p. Option.bind
             (find (\<lambda>t. pt_name t = name \<and> ex_type (pt_executor t) = ''wasm'' \<and> ex_language (pt_executor t) = Some language) (lp_tools p))
             (\<lambda>t. case ex_source (pt_executor t) of
                Some src \<Rightarrow> Some src
              | None \<Rightarrow> Option.bind (ex_source_file (pt_executor t)) (\<lambda>f. rt_read_file R f w))) (rg_plugins r) of
        [] \<Rightarrow> None | src # _ \<Rightarrow> Some src)"

definition call_tool_decoded :: "'w runtime \<Rightarrow> string \<Rightarrow> bytes \<Rightarrow> 'w \<Rightarrow> (string + string) rust \<times> 'w" where
  "call_tool_decoded R name args w =
     (case decode_json_value args of
        Ok (v, _) \<Rightarrow> (case rt_call_tool R name v w of (res, w) \<Rightarrow> (Ok res, w))
      | Err e \<Rightarrow> (Ok (Inl e), w)
      | Panic \<Rightarrow> (Panic, w))"

definition retry_binary_with_registration ::
  "'w runtime \<Rightarrow> string \<Rightarrow> string \<Rightarrow> bytes \<Rightarrow> registry \<Rightarrow> 'w \<Rightarrow> string option \<times> 'w" where
  "retry_binary_with_registration R name language args r w =
     (case plugin_wasm_source R name language r w of
        None \<Rightarrow> (None, w)
      | Some src \<Rightarrow>
          (case rt_register R name language src w of
             (Inl e, w) \<Rightarrow> (None, w)
           | (Inr _, w) \<Rightarrow>
               (case rt_call_binary R name language args w of
                  (Inr out, w) \<Rightarrow> (Some out, w) | (Inl e, w) \<Rightarrow> (None, w))))"

definition record_json_fallback :: "string \<Rightarrow> registry \<Rightarrow> registry" where
  "record_json_fallback name r = r\<lparr>rg_fallback := List.insert name (rg_fallback r)\<rparr>"

text \<open>Registration before the first call; the flag tells whether a binary executor is there.\<close>

definition ensure_registered :: "'w runtime \<Rightarrow> string \<Rightarrow> string \<Rightarrow> registry \<Rightarrow> 'w \<Rightarrow> bool \<times> 'w" where
  "ensure_registered R name language r w =
     (if rt_language R name w = None then
        (case plugin_wasm_source R name language r w of
           Some src \<Rightarrow> (case rt_register R name language src w of (Inl e, w) \<Rightarrow> (False, w) | (Inr _, w) \<Rightarrow> (True, w))
         | None \<Rightarrow> (False, w))
      else (True, w))"

definition call_tool_binary ::
  "'w runtime \<Rightarrow> string \<Rightarrow> bytes \<Rightarrow> registry \<Rightarrow> 'w \<Rightarrow> (string + string) rust \<times> registry \<times> 'w" where
  "call_tool_binary R name args r w =
     (let decoded = (\<lambda>r w. case call_tool_decoded R name args w of (res, w) \<Rightarrow> (res, r, w)) in
      if is_builtin_tool name then decoded r w
      else case (case rt_language R name w of Some l \<Rightarrow> Some l | None \<Rightarrow> manifest_wasm_language name r) of
        None \<Rightarrow> decoded r w
      | Some language \<Rightarrow>
          if name \<in> set (rg_fallback r) then decoded r w
          else (case ensure_registered R name language r w of
            (False, w) \<Rightarrow> decoded (record_json_fallback name r) w
          | (True, w) \<Rightarrow>
              (case rt_call_binary R name language args w of
                 (Inr out, w) \<Rightarrow> (Ok (Inr out), r, w)
               | (Inl err, w) \<Rightarrow>
                   if binary_failure_is_request_level err then decoded r w
                   else if binary_failure_is_pre_execution err then
                     (case retry_binary_with_registration R name language args r w of
                        (Some out, w) \<Rightarrow> (Ok (Inr out), r, w)
                      | (None, w) \<Rightarrow> decoded (record_json_fallback name r) w)
                   else (Ok (Inl err), r, w))))"

end
