(* ===== verification/Registry_Laws.thy ===== *)
theory Registry_Laws
  imports Registry "HOL-Library.Sublist"
begin

text \<open>
  Properties of the tool registry: the two caches keyed by the generation counter are invisible, the
  list holds every registered name once with the built-in tools first and unshadowed, and a binary
  call runs its tool at most once except on one path of the retry.
\<close>

subsection \<open>Caches keyed by a version\<close>

text \<open>A cached value is fresh when its version is no later than the current one and, if it is the
  current one, the value is the current view.\<close>

definition fresh :: "(u64 \<times> 'a) option \<Rightarrow> u64 \<Rightarrow> 'a \<Rightarrow> bool" where
  "fresh c g x \<longleftrightarrow> (case c of None \<Rightarrow> True | Some (h, y) \<Rightarrow> h \<le> g \<and> (h = g \<longrightarrow> y = x))"

text \<open>What a versioned source promises to the caches in front of it.\<close>

locale versioned =
  fixes gen :: "'r \<Rightarrow> u64" and view :: "'r \<Rightarrow> 'a" and step :: "'r \<Rightarrow> 'r \<Rightarrow> bool"
  assumes gen_mono: "step r r' \<Longrightarrow> gen r \<le> gen r'"
    and same_gen: "step r r' \<Longrightarrow> gen r' = gen r \<Longrightarrow> view r' = view r"
begin

lemma fresh_step: "fresh c (gen r) (view r) \<Longrightarrow> step r r' \<Longrightarrow> fresh c (gen r') (view r')"
  using gen_mono [of r r'] same_gen [of r r'] by (auto simp: fresh_def split: option.splits)

lemma fresh_store: "fresh (Some (gen r, view r)) (gen r) (view r)"
  by (simp add: fresh_def)

lemma fresh_hit: "fresh (Some (g, x)) (gen r) (view r) \<Longrightarrow> g = gen r \<Longrightarrow> x = view r"
  by (simp add: fresh_def)

lemma versioned_image: "versioned gen (\<lambda>r. f (view r)) step"
  using gen_mono same_gen by unfold_locales auto

end

subsection \<open>The registry is a versioned source\<close>

text \<open>The tool list as the sources determine it, without any cache.\<close>

definition registry_view :: "((string \<times> tool) list \<Rightarrow> (string \<times> tool) list) \<Rightarrow> registry \<Rightarrow> tool list" where
  "registry_view iter r = build_tools iter (case rg_discovered r of Some ts \<Rightarrow> ts | None \<Rightarrow> []) r"

datatype registry_op =
    Load_Plugins "loaded_plugin list"
  | Register_Tool tool
  | List_Tools "string + tool list"
  | Convert_Tool "string + tool list" string bytes

fun registry_apply ::
  "((string \<times> tool) list \<Rightarrow> (string \<times> tool) list) \<Rightarrow> (string list \<Rightarrow> string) \<Rightarrow> registry_op \<Rightarrow> registry \<Rightarrow> registry" where
  "registry_apply iter pick (Load_Plugins ps) r = load_plugins ps r"
| "registry_apply iter pick (Register_Tool t) r = register_tool_lazy t r"
| "registry_apply iter pick (List_Tools d) r = snd (get_tools iter d r)"
| "registry_apply iter pick (Convert_Tool d name frame) r = cache_nmcp_frame iter pick d name frame r"

definition room :: "nat \<Rightarrow> registry \<Rightarrow> bool" where
  "room n r \<longleftrightarrow> unat (rg_generation r) + n < 2 ^ 64"

lemma bump_gen:
  assumes "room 1 r"
  shows "rg_generation r < rg_generation (bump_registry_generation r)"
    "unat (rg_generation (bump_registry_generation r)) = unat (rg_generation r) + 1"
  using assms u64_succ [of "rg_generation r"] by (auto simp: room_def bump_registry_generation_def)

text \<open>What an operation may do: keep the version and the view, or move to a later version.\<close>

definition moves :: "((string \<times> tool) list \<Rightarrow> (string \<times> tool) list) \<Rightarrow> nat \<Rightarrow> registry \<Rightarrow> registry \<Rightarrow> bool" where
  "moves iter n r r' \<longleftrightarrow> unat (rg_generation r') \<le> unat (rg_generation r) + n
     \<and> (rg_generation r' = rg_generation r \<and> registry_view iter r' = registry_view iter r \<or> rg_generation r < rg_generation r')"

lemma moves_bump:
  "rg_generation r' = rg_generation r \<Longrightarrow> room 1 r \<Longrightarrow> moves iter 1 r (bump_registry_generation r')"
  using bump_gen [of r'] by (auto simp: moves_def room_def)

lemma moves_trans: "moves iter m a b \<Longrightarrow> moves iter n b c \<Longrightarrow> moves iter (m + n) a c"
  by (auto simp: moves_def)

lemma moves_mono: "moves iter m a b \<Longrightarrow> m \<le> n \<Longrightarrow> moves iter n a b"
  by (auto simp: moves_def)

lemma moves_refl: "moves iter n r r"
  by (simp add: moves_def)

text \<open>Both caches in front of the registry rely on this contract: the cached list and the encoded list.\<close>

interpretation tools: versioned rg_generation "registry_view iter" "moves iter n" for iter n
  by unfold_locales (auto simp: moves_def)

interpretation encoded: versioned rg_generation "\<lambda>r. fst (encode_tools_list_result [] (registry_view iter r))"
    "moves iter n" for iter n
  by (rule tools.versioned_image)

lemma view_cache [simp]: "registry_view iter (r\<lparr>rg_tools_cache := c\<rparr>) = registry_view iter r"
  by (simp add: registry_view_def build_tools_def)

lemma discover_once_moves:
  assumes "room 1 r" "discover_once d r = (ts, r')"
  shows "moves iter 1 r r' \<and> rg_discovered r' = Some ts \<and> rg_tools_cache r' = rg_tools_cache r"
proof (cases "rg_discovered r")
  case None
  show ?thesis
  proof (cases d)
    case (Inl e)
    with None assms(2) show ?thesis by (auto simp: discover_once_def moves_def registry_view_def build_tools_def)
  next
    case (Inr x)
    with None assms show ?thesis using moves_bump [of "r\<lparr>rg_discovered := Some x\<rparr>" r iter]
      by (auto simp: discover_once_def bump_registry_generation_def)
  qed
next
  case (Some x)
  with assms(2) show ?thesis by (simp add: discover_once_def moves_refl)
qed

lemma get_tools_hit: "rg_tools_cache r = Some (rg_generation r, x) \<Longrightarrow> get_tools iter d r = (x, r)"
  by (simp add: get_tools_def)

lemma get_tools_miss:
  assumes "\<nexists>x. rg_tools_cache r = Some (rg_generation r, x)" "discover_once d r = (dyn, r1)"
  shows "get_tools iter d r = (build_tools iter dyn r1, r1\<lparr>rg_tools_cache := Some (rg_generation r, build_tools iter dyn r1)\<rparr>)"
  using assms by (auto simp: get_tools_def Let_def split: option.splits)

lemma get_tools_moves:
  assumes "room 1 r"
  shows "moves iter 1 r (snd (get_tools iter d r))"
proof (cases "\<exists>x. rg_tools_cache r = Some (rg_generation r, x)")
  case True
  then show ?thesis by (auto simp: get_tools_hit moves_refl)
next
  case False
  obtain dyn r1 where d: "discover_once d r = (dyn, r1)" by force
  then show ?thesis using discover_once_moves [OF assms d, of iter] by (simp add: get_tools_miss [OF False d] moves_def)
qed

lemma get_tools_exact:
  assumes "room 1 r" "fresh (rg_tools_cache r) (rg_generation r) (registry_view iter r)" "get_tools iter d r = (ts, r')"
  shows "ts = registry_view iter r' \<and> fresh (rg_tools_cache r') (rg_generation r') (registry_view iter r')"
proof (cases "\<exists>x. rg_tools_cache r = Some (rg_generation r, x)")
  case True
  with assms(2,3) show ?thesis by (auto simp: get_tools_hit fresh_def)
next
  case False
  obtain dyn r1 where d: "discover_once d r = (dyn, r1)" by force
  note m = discover_once_moves [OF assms(1) d, of iter]
  then have "registry_view iter r1 = build_tools iter dyn r1" by (simp add: registry_view_def)
  with m assms(3) show ?thesis by (auto simp: get_tools_miss [OF False d] moves_def fresh_def order.strict_implies_order)
qed

lemma cache_nmcp_frame_moves:
  assumes "room 3 r"
  shows "moves iter 3 r (cache_nmcp_frame iter pick d name frame r)"
proof -
  let ?r1 = "bump_registry_generation (r\<lparr>rg_frames := cache_frame pick name frame (rg_frames r)\<rparr>)"
  obtain ts r2 where g: "get_tools iter d ?r1 = (ts, r2)" by force
  have m1: "moves iter 1 r ?r1" using assms by (intro moves_bump) (auto simp: room_def)
  then have "room 1 ?r1" using assms by (auto simp: moves_def room_def)
  from get_tools_moves [OF this, of iter d] have m2: "moves iter 1 ?r1 r2" by (simp add: g)
  have "room 1 r2" using m1 m2 assms by (auto simp: moves_def room_def)
  then have m3: "moves iter 1 r2 (cache_nmcp_frame iter pick d name frame r)"
    unfolding cache_nmcp_frame_def Let_def g prod.case by (intro moves_bump) simp_all
  from moves_trans [OF moves_trans [OF m1 m2] m3] show ?thesis by (simp add: eval_nat_numeral)
qed

lemma registry_apply_moves:
  assumes "room 3 r"
  shows "moves iter 3 r (registry_apply iter pick op r)"
proof -
  have room1: "room 1 r" using assms by (auto simp: room_def)
  have m: "moves iter 1 r r' \<Longrightarrow> moves iter 3 r r'" for r' by (erule moves_mono) simp
  show ?thesis
  proof (cases op)
    case (Register_Tool t)
    then show ?thesis using room1 by (auto simp: register_tool_lazy_def moves_refl intro!: m moves_bump)
  qed (use assms room1 in \<open>auto simp: load_plugins_def intro!: m moves_bump get_tools_moves cache_nmcp_frame_moves\<close>)
qed

lemma registry_apply_fresh:
  assumes "room 3 r" "fresh (rg_tools_cache r) (rg_generation r) (registry_view iter r)" "r' = registry_apply iter pick op r"
  shows "fresh (rg_tools_cache r') (rg_generation r') (registry_view iter r')"
proof -
  have room1: "room 1 r" using assms(1) by (auto simp: room_def)
  have same: "fresh (rg_tools_cache r') (rg_generation r') (registry_view iter r')" if "rg_tools_cache r' = rg_tools_cache r"
    using tools.fresh_step [OF assms(2) registry_apply_moves [OF assms(1), of iter pick op]] that assms(3) by simp
  show ?thesis
  proof (cases op)
    case (List_Tools d)
    then show ?thesis using get_tools_exact [OF room1 assms(2) prod.collapse [symmetric], of d] assms(3) by simp
  next
    case (Convert_Tool d name frame)
    let ?r1 = "bump_registry_generation (r\<lparr>rg_frames := cache_frame pick name frame (rg_frames r)\<rparr>)"
    obtain ts r2 where g: "get_tools iter d ?r1 = (ts, r2)" by force
    have m1: "moves iter 1 r ?r1" using room1 by (intro moves_bump) auto
    then have "room 1 ?r1" using assms(1) by (auto simp: moves_def room_def)
    moreover have "fresh (rg_tools_cache ?r1) (rg_generation ?r1) (registry_view iter ?r1)"
      using tools.fresh_step [OF assms(2) m1] by (simp add: bump_registry_generation_def)
    ultimately have f2: "fresh (rg_tools_cache r2) (rg_generation r2) (registry_view iter r2)"
      and m2: "moves iter 1 ?r1 r2"
      using get_tools_exact [OF _ _ g] get_tools_moves [of ?r1 iter d] g by auto
    have "room 1 r2" using m1 m2 assms(1) by (auto simp: moves_def room_def)
    then have "moves iter 1 r2 r'" "rg_tools_cache r' = rg_tools_cache r2"
      unfolding assms(3) Convert_Tool registry_apply.simps cache_nmcp_frame_def Let_def g prod.case
      by (intro moves_bump) (simp_all add: bump_registry_generation_def)
    then show ?thesis using tools.fresh_step [OF f2] by simp
  next
    case (Load_Plugins ps)
    then show ?thesis by (intro same) (simp add: assms(3) load_plugins_def bump_registry_generation_def)
  next
    case (Register_Tool t)
    then show ?thesis by (intro same) (simp add: assms(3) register_tool_lazy_def bump_registry_generation_def)
  qed
qed

subsection \<open>Requests for the list\<close>

datatype list_op = Registry_Op registry_op | List_Encoded "string + tool list"

fun list_apply ::
  "((string \<times> tool) list \<Rightarrow> (string \<times> tool) list) \<Rightarrow> (string list \<Rightarrow> string) \<Rightarrow> registry \<times> nda_globals \<Rightarrow> list_op
   \<Rightarrow> registry \<times> nda_globals" where
  "list_apply iter pick (r, g) (Registry_Op op) = (registry_apply iter pick op r, g)"
| "list_apply iter pick (r, g) (List_Encoded d) =
     (case encoded_tools_list_result registry_generation (get_tools iter d) g r of (bs, g', r') \<Rightarrow> (r', g'))"

definition caches_ok :: "((string \<times> tool) list \<Rightarrow> (string \<times> tool) list) \<Rightarrow> registry \<times> nda_globals \<Rightarrow> bool" where
  "caches_ok iter s \<longleftrightarrow> fresh (rg_tools_cache (fst s)) (rg_generation (fst s)) (registry_view iter (fst s))
     \<and> fresh (tools_list_cache (snd s)) (rg_generation (fst s)) (fst (encode_tools_list_result [] (registry_view iter (fst s))))"

lemma encoded_list_exact:
  assumes "room 1 r" "caches_ok iter (r, g)"
    "encoded_tools_list_result registry_generation (get_tools iter d) g r = (bs, g', r')"
  shows "bs = fst (encode_tools_list_result [] (registry_view iter r')) \<and> caches_ok iter (r', g') \<and> moves iter 1 r r'"
proof (cases "\<exists>x. tools_list_cache g = Some (rg_generation r, x)")
  case True
  with assms(2,3) show ?thesis
    by (auto simp: encoded_tools_list_result_def registry_generation_def caches_ok_def fresh_def moves_refl)
next
  case False
  obtain ts r1 where g: "get_tools iter d r = (ts, r1)" by force
  have fr: "fresh (rg_tools_cache r) (rg_generation r) (registry_view iter r)"
    and fe: "fresh (tools_list_cache g) (rg_generation r) (fst (encode_tools_list_result [] (registry_view iter r)))"
    using assms(2) by (simp_all add: caches_ok_def)
  have m: "moves iter 1 r r1" using get_tools_moves [OF assms(1), of iter d] by (simp add: g)
  have "r' = r1" "bs = fst (encode_tools_list_result [] ts)"
    "g' = (if rg_generation r1 = rg_generation r then g\<lparr>tools_list_cache := Some (rg_generation r1, bs)\<rparr> else g)"
    using False assms(3) by (auto simp: encoded_tools_list_result_def registry_generation_def g Let_def split: option.splits)
  with get_tools_exact [OF assms(1) fr g] encoded.fresh_step [OF fe m] m show ?thesis
    by (auto simp: caches_ok_def fresh_def)
qed

lemma list_apply_ok:
  assumes "room 3 (fst s)" "caches_ok iter s"
  shows "caches_ok iter (list_apply iter pick s op) \<and> moves iter 3 (fst s) (fst (list_apply iter pick s op))"
proof -
  obtain r g where s: "s = (r, g)" by (cases s)
  show ?thesis
  proof (cases op)
    case (Registry_Op rop)
    then show ?thesis using assms registry_apply_moves [of r iter pick rop] registry_apply_fresh [of r iter _ pick rop]
        encoded.fresh_step [of "tools_list_cache g" r iter 3]
      by (auto simp: s caches_ok_def)
  next
    case (List_Encoded d)
    obtain bs g' r' where e: "encoded_tools_list_result registry_generation (get_tools iter d) g r = (bs, g', r')"
      by (metis prod_cases3)
    have "room 1 r" using assms(1) by (auto simp: s room_def)
    with encoded_list_exact [OF _ _ e] assms(2) moves_mono [of iter 1 r r' 3] show ?thesis
      by (auto simp: s List_Encoded e)
  qed
qed

definition list_run ::
  "((string \<times> tool) list \<Rightarrow> (string \<times> tool) list) \<Rightarrow> (string list \<Rightarrow> string) \<Rightarrow> nda_globals \<Rightarrow> list_op list \<Rightarrow> registry \<times> nda_globals" where
  "list_run iter pick g ops = foldl (list_apply iter pick) (registry_initial, g) ops"

lemma list_run_ok:
  assumes "tools_list_cache g = None" "3 * length ops + 3 < 2 ^ 64"
  shows "caches_ok iter (list_run iter pick g ops) \<and> unat (rg_generation (fst (list_run iter pick g ops))) \<le> 3 * length ops"
  using assms(2)
proof (induction ops rule: rev_induct)
  case Nil
  then show ?case using assms(1) by (simp add: list_run_def caches_ok_def fresh_def registry_initial_def)
next
  case (snoc op ops)
  let ?s = "list_run iter pick g ops"
  have "caches_ok iter ?s" "unat (rg_generation (fst ?s)) \<le> 3 * length ops" using snoc by auto
  moreover from this have "room 3 (fst ?s)" using snoc.prems by (simp add: room_def)
  ultimately show ?case using list_apply_ok [of ?s iter pick op] by (simp add: list_run_def moves_def)
qed

text \<open>C33: Both caches of the tool list are invisible. After any run of plugin loads, macro registrations,
  conversions and list requests, the JSON list and the encoded native list are the ones built from the
  sources as they then are, for as long as the 64-bit generation counter cannot wrap.\<close>

theorem tool_caches_exact:
  assumes "tools_list_cache g = None" "3 * length ops + 3 < 2 ^ 64" "list_run iter pick g ops = (r, g1)"
  shows "(case get_tools iter d r of (ts, r') \<Rightarrow> ts = registry_view iter r')
    \<and> (case encoded_tools_list_result registry_generation (get_tools iter d) g1 r of (bs, g2, r') \<Rightarrow>
         bs = fst (encode_tools_list_result [] (registry_view iter r')))"
proof -
  have ok: "caches_ok iter (r, g1)" and "unat (rg_generation r) \<le> 3 * length ops"
    using list_run_ok [OF assms(1,2), of iter pick] assms(3) by auto
  then have room: "room 1 r" using assms(2) by (simp add: room_def)
  have "fresh (rg_tools_cache r) (rg_generation r) (registry_view iter r)" using ok by (simp add: caches_ok_def)
  then have "fst (get_tools iter d r) = registry_view iter (snd (get_tools iter d r))"
    using get_tools_exact [OF room _ prod.collapse [symmetric], of iter d] by blast
  moreover obtain bs g2 r' where e: "encoded_tools_list_result registry_generation (get_tools iter d) g1 r = (bs, g2, r')"
    by (metis prod_cases3)
  ultimately show ?thesis using encoded_list_exact [OF room ok e] by (auto simp: case_prod_beta)
qed

subsection \<open>What the list holds\<close>

definition list_acc_ok :: "string list \<times> tool list \<Rightarrow> bool" where
  "list_acc_ok acc \<longleftrightarrow> set (fst acc) = set (map tool_name (snd acc)) \<and> distinct (map tool_name (snd acc))"

lemma push_unknown_extends:
  assumes "\<forall>(n, t) \<in> set xs. tool_name t = n" "list_acc_ok acc"
  shows "list_acc_ok (push_unknown xs acc)
    \<and> set (fst (push_unknown xs acc)) = set (fst acc) \<union> fst ` set xs
    \<and> prefix (snd acc) (snd (push_unknown xs acc))"
  using assms
proof (induction xs acc rule: push_unknown.induct)
  case (2 name t rest known tools)
  show ?case
  proof (cases "name \<in> set known")
    case False
    have "list_acc_ok (name # known, tools @ [t])" using 2(3,4) False by (auto simp: list_acc_ok_def)
    with 2(1) [OF False] 2(3) False show ?thesis by (auto simp: prefix_def)
  qed (use 2(2,3,4) in auto)
qed auto

lemma named_ok [simp]: "\<forall>(n, t) \<in> set (named ts). tool_name t = n" "fst ` set (named ts) = tool_name ` set ts"
  by (auto simp: named_def image_image)

text \<open>The names of the sources, without the deprecated ones of the external engine.\<close>

definition source_names :: "registry \<Rightarrow> string set" where
  "source_names r = set BUILTIN_TOOL_NAMES
     \<union> (tool_name ` set (case rg_discovered r of Some ts \<Rightarrow> ts | None \<Rightarrow> []) - set deprecated_names)
     \<union> fst ` set (rg_converted r) \<union> tool_name ` set (rg_macro r)
     \<union> tool_name ` set (plugins_to_registry_tools (rg_plugins r))"

text \<open>What the code relies on of the iteration of a map: every entry comes up.\<close>

definition iterates :: "((string \<times> tool) list \<Rightarrow> (string \<times> tool) list) \<Rightarrow> bool" where
  "iterates iter \<longleftrightarrow> (\<forall>m. set (iter m) = set m)"

definition converted_ok :: "registry \<Rightarrow> bool" where
  "converted_ok r \<longleftrightarrow> (\<forall>(n, t) \<in> set (rg_converted r). tool_name t = n)"

lemma get_tools_converted: "rg_converted (snd (get_tools iter d r)) = rg_converted r"
  by (auto simp: get_tools_def discover_once_def bump_registry_generation_def Let_def split: option.split sum.split prod.split)

lemma registry_apply_converted: "converted_ok r \<Longrightarrow> converted_ok (registry_apply iter pick op r)"
proof (cases op)
  case (Convert_Tool d name frame)
  assume "converted_ok r"
  then show ?thesis
    using get_tools_converted [of iter d "bump_registry_generation (r\<lparr>rg_frames := cache_frame pick name frame (rg_frames r)\<rparr>)"]
    by (auto simp: Convert_Tool cache_nmcp_frame_def Let_def converted_ok_def bump_registry_generation_def case_prod_beta
        dest: set_update)
qed (auto simp: converted_ok_def load_plugins_def register_tool_lazy_def bump_registry_generation_def get_tools_converted)

lemma list_run_converted: "converted_ok (fst (list_run iter pick g ops))"
proof (induction ops rule: rev_induct)
  case Nil
  then show ?case by (simp add: list_run_def converted_ok_def registry_initial_def)
next
  case (snoc op ops)
  obtain r g' where s: "list_run iter pick g ops = (r, g')" by force
  show ?case
  proof (cases op)
    case (Registry_Op rop)
    then show ?thesis using snoc s registry_apply_converted by (auto simp: list_run_def)
  next
    case (List_Encoded d)
    have "rg_converted (snd (snd (encoded_tools_list_result registry_generation (get_tools iter d) g' r))) = rg_converted r"
      by (auto simp: encoded_tools_list_result_def Let_def case_prod_beta get_tools_converted split: option.split)
    then show ?thesis using snoc s List_Encoded by (simp add: list_run_def converted_ok_def case_prod_beta)
  qed
qed

lemma filter_names: "tool_name ` set (filter (\<lambda>t. tool_name t \<notin> D) ts) = tool_name ` set ts - D"
  by auto

text \<open>C34: In every reachable state the tool list shows each registered name exactly once: the built-in
  tools first, with their own definitions, and then every discovered tool that is not deprecated,
  every converted, every macro and every plugin tool whose name is not taken.\<close>

theorem tools_listed:
  assumes "iterates iter" "list_run iter pick g ops = (r, g1)"
  shows "distinct (map tool_name (registry_view iter r)) \<and> set (map tool_name (registry_view iter r)) = source_names r
    \<and> prefix get_builtin_tools (registry_view iter r)"
proof -
  let ?dyn = "case rg_discovered r of Some ts \<Rightarrow> ts | None \<Rightarrow> []"
  let ?a0 = "(map tool_name get_builtin_tools, get_builtin_tools)"
  let ?a1 = "push_unknown (named (filter (\<lambda>t. tool_name t \<notin> set deprecated_names) ?dyn)) ?a0"
  let ?a2 = "push_unknown (iter (rg_converted r)) ?a1"
  let ?a3 = "push_unknown (named (rg_macro r)) ?a2"
  let ?a4 = "push_unknown (named (plugins_to_registry_tools (rg_plugins r))) ?a3"
  have it: "set (iter m) = set m" for m using assms(1) by (simp add: iterates_def)
  have conv: "\<forall>(n, t) \<in> set (iter (rg_converted r)). tool_name t = n"
    using list_run_converted [of iter pick g ops] assms(2) by (simp add: converted_ok_def it)
  have a0: "list_acc_ok ?a0" using builtin_distinct by (simp add: list_acc_ok_def)
  note p1 = push_unknown_extends [OF named_ok(1) a0, of "filter (\<lambda>t. tool_name t \<notin> set deprecated_names) ?dyn"]
  note p2 = push_unknown_extends [OF conv p1 [THEN conjunct1]]
  note p3 = push_unknown_extends [OF named_ok(1) p2 [THEN conjunct1], of "rg_macro r"]
  note p4 = push_unknown_extends [OF named_ok(1) p3 [THEN conjunct1], of "plugins_to_registry_tools (rg_plugins r)"]
  have view: "registry_view iter r = snd ?a4" by (simp add: registry_view_def build_tools_def Let_def)
  have names: "set (map tool_name (snd ?a4)) = set (fst ?a4)" "distinct (map tool_name (snd ?a4))"
    using p4 by (simp_all add: list_acc_ok_def)
  have "set (fst ?a4) = source_names r"
    using p1 p2 p3 p4 builtin_listed by (simp only: source_names_def it named_ok(2) filter_names fst_conv)
  moreover have "prefix get_builtin_tools (snd ?a4)"
    using p1 p2 p3 p4 by (auto intro: prefix_order.trans)
  ultimately show ?thesis using names by (simp only: view)
qed

subsection \<open>How often a binary call runs its tool\<close>

text \<open>
  What the source documents of the runtimes, with a counter of the executions of tool bodies: a
  registration runs nothing, a binary call whose error is of a kind that proves that the body did not
  run runs nothing, and every other call runs the body once.
\<close>

definition counts_runs :: "'w runtime \<Rightarrow> ('w \<Rightarrow> nat) \<Rightarrow> bool" where
  "counts_runs R runs \<longleftrightarrow>
     (\<forall>n l src w. runs (snd (rt_register R n l src w)) = runs w)
   \<and> (\<forall>n v w. runs (snd (rt_call_tool R n v w)) = runs w + 1)
   \<and> (\<forall>n l a w. runs (snd (rt_call_binary R n l a w)) =
        (case fst (rt_call_binary R n l a w) of
           Inl e \<Rightarrow> if binary_failure_is_request_level e \<or> binary_failure_is_pre_execution e then runs w else runs w + 1
         | Inr _ \<Rightarrow> runs w + 1))"

lemma counts_runsD:
  assumes "counts_runs R runs"
  shows "rt_register R n l src w = (x, w') \<Longrightarrow> runs w' = runs w"
    "rt_call_tool R n v w = (res, w') \<Longrightarrow> runs w' = runs w + 1"
    "rt_call_binary R n l a w = (Inr out, w') \<Longrightarrow> runs w' = runs w + 1"
    "rt_call_binary R n l a w = (Inl e, w') \<Longrightarrow>
       runs w' = (if binary_failure_is_request_level e \<or> binary_failure_is_pre_execution e then runs w else runs w + 1)"
proof -
  have c: "runs (snd (rt_register R n l src w)) = runs w" "runs (snd (rt_call_tool R n v w)) = runs w + 1"
    "runs (snd (rt_call_binary R n l a w)) =
        (case fst (rt_call_binary R n l a w) of
           Inl e \<Rightarrow> if binary_failure_is_request_level e \<or> binary_failure_is_pre_execution e then runs w else runs w + 1
         | Inr _ \<Rightarrow> runs w + 1)"
    using assms unfolding counts_runs_def by blast+
  show "rt_register R n l src w = (x, w') \<Longrightarrow> runs w' = runs w" using c(1) by simp
  show "rt_call_tool R n v w = (res, w') \<Longrightarrow> runs w' = runs w + 1" using c(2) by simp
  show "rt_call_binary R n l a w = (Inr out, w') \<Longrightarrow> runs w' = runs w + 1" using c(3) by simp
  show "rt_call_binary R n l a w = (Inl e, w') \<Longrightarrow>
       runs w' = (if binary_failure_is_request_level e \<or> binary_failure_is_pre_execution e then runs w else runs w + 1)"
    using c(3) by simp
qed

lemma decoded_runs:
  assumes "counts_runs R runs" "call_tool_decoded R name args w = (res, w')"
  shows "res \<noteq> Panic \<and> runs w' \<le> runs w + 1"
  using assms by (auto simp: call_tool_decoded_def counts_runsD(2) split: rust.splits prod.splits)

lemma ensure_registered_runs:
  "counts_runs R runs \<Longrightarrow> ensure_registered R name l r w = (b, w') \<Longrightarrow> runs w' = runs w"
  by (auto simp: ensure_registered_def counts_runsD(1) split: if_splits option.splits prod.splits sum.splits)

lemma retry_runs:
  assumes "counts_runs R runs" "retry_binary_with_registration R name l args r w = (x, w')"
  shows "runs w' \<le> runs w + 1"
  using assms
  by (auto simp: retry_binary_with_registration_def counts_runsD(1) counts_runsD(3) counts_runsD(4)
      split: option.splits prod.splits sum.splits if_splits)

text \<open>The one path that may run a tool again: the call is retried, and the retry itself executes and fails.\<close>

definition retry_ran :: "'w runtime \<Rightarrow> ('w \<Rightarrow> nat) \<Rightarrow> string \<Rightarrow> bytes \<Rightarrow> registry \<Rightarrow> 'w \<Rightarrow> bool" where
  "retry_ran R runs name args r w \<longleftrightarrow>
     (\<exists>l w1 e w2 w3. ensure_registered R name l r w = (True, w1) \<and> rt_call_binary R name l args w1 = (Inl e, w2)
        \<and> binary_failure_is_pre_execution e
        \<and> retry_binary_with_registration R name l args r w2 = (None, w3) \<and> runs w3 = runs w2 + 1)"

text \<open>The branches of the dispatcher.\<close>

definition decoded_call :: "'w runtime \<Rightarrow> string \<Rightarrow> bytes \<Rightarrow> registry \<Rightarrow> 'w \<Rightarrow> (string + string) rust \<times> registry \<times> 'w" where
  "decoded_call R name args r w = (case call_tool_decoded R name args w of (res, w) \<Rightarrow> (res, r, w))"

definition binary_language :: "'w runtime \<Rightarrow> string \<Rightarrow> registry \<Rightarrow> 'w \<Rightarrow> string option" where
  "binary_language R name r w = (case rt_language R name w of Some l \<Rightarrow> Some l | None \<Rightarrow> manifest_wasm_language name r)"

lemma call_binary_eq:
  "call_tool_binary R name args r w =
     (if is_builtin_tool name then decoded_call R name args r w
      else case binary_language R name r w of
        None \<Rightarrow> decoded_call R name args r w
      | Some l \<Rightarrow>
          if name \<in> set (rg_fallback r) then decoded_call R name args r w
          else if \<not> fst (ensure_registered R name l r w)
            then decoded_call R name args (record_json_fallback name r) (snd (ensure_registered R name l r w))
          else case rt_call_binary R name l args (snd (ensure_registered R name l r w)) of
            (Inr out, w) \<Rightarrow> (Ok (Inr out), r, w)
          | (Inl err, w) \<Rightarrow>
              if binary_failure_is_request_level err then decoded_call R name args r w
              else if binary_failure_is_pre_execution err then
                (case retry_binary_with_registration R name l args r w of
                   (Some out, w) \<Rightarrow> (Ok (Inr out), r, w)
                 | (None, w) \<Rightarrow> decoded_call R name args (record_json_fallback name r) w)
              else (Ok (Inl err), r, w))"
proof -
  have b: "(case p of (True, w) \<Rightarrow> f w | (False, w) \<Rightarrow> g w) = (if \<not> fst p then g (snd p) else f (snd p))"
    for p :: "bool \<times> 'w" and f g :: "'w \<Rightarrow> (string + string) rust \<times> registry \<times> 'w" by (cases p) (simp split: bool.split)
  show ?thesis unfolding call_tool_binary_def Let_def decoded_call_def binary_language_def b ..
qed

lemma decoded_call_runs:
  assumes "counts_runs R runs" "decoded_call R name args r w = (res, r', w')"
  shows "res \<noteq> Panic \<and> runs w' \<le> runs w + 1"
  using decoded_runs [OF assms(1) prod.collapse [symmetric], of name args w] assms(2)
  by (auto simp: decoded_call_def case_prod_beta)

lemma binary_call_runs:
  assumes "counts_runs R runs" "ensure_registered R name l r w = (True, w1)" "rt_call_binary R name l args w1 = (b, w2)"
    "call_tool_binary R name args r w = (res, r', w')" "\<not> is_builtin_tool name" "name \<notin> set (rg_fallback r)"
    "binary_language R name r w = Some l"
  shows "res \<noteq> Panic \<and> runs w' \<le> runs w + 2 \<and> (runs w' \<le> runs w + 1 \<or> retry_ran R runs name args r w)"
proof -
  note c = counts_runsD [OF assms(1)] and dec = decoded_call_runs [OF assms(1)]
  note call = assms(4) [unfolded call_binary_eq, simplified assms(2,3,5,6,7) option.case if_False if_True fst_conv snd_conv not_True_eq_False simp_thms]
  have w1: "runs w1 = runs w" by (rule ensure_registered_runs [OF assms(1,2)])
  show ?thesis
  proof (cases b)
    case (Inr out)
    then show ?thesis using call c(3) [of name l args w1 out w2] assms(3) w1 by auto
  next
    case (Inl e)
    note w2 = c(4) [OF assms(3) [unfolded Inl]]
    consider "binary_failure_is_request_level e"
      | "\<not> binary_failure_is_request_level e" "binary_failure_is_pre_execution e"
      | "\<not> binary_failure_is_request_level e" "\<not> binary_failure_is_pre_execution e" by blast
    then show ?thesis
    proof cases
      case 1
      then have "decoded_call R name args r w2 = (res, r', w')" using call Inl by simp
      from dec [OF this] show ?thesis using 1 w1 w2 by simp
    next
      case 2
      obtain x w3 where x: "retry_binary_with_registration R name l args r w2 = (x, w3)" by force
      have w3: "runs w3 \<le> runs w2 + 1" by (rule retry_runs [OF assms(1) x])
      have again: "retry_ran R runs name args r w" if "x = None" "runs w3 = runs w2 + 1"
        using assms(2,3) Inl 2(2) x that unfolding retry_ran_def by blast
      show ?thesis
      proof (cases x)
        case None
        then have "decoded_call R name args (record_json_fallback name r) w3 = (res, r', w')" using call Inl 2 x by simp
        from dec [OF this] show ?thesis using again None 2 w1 w2 w3 by fastforce
      next
        case (Some out)
        then show ?thesis using call Inl 2 x w1 w2 w3 by auto
      qed
    next
      case 3
      then show ?thesis using call Inl w1 w2 by auto
    qed
  qed
qed


subsection \<open>A call that runs twice\<close>

text \<open>
  A runtime that knows the language of a tool but has lost its code until it is registered again; the
  tool itself always fails. The world is whether the code is there, and how often the tool ran.
\<close>

definition evicted_runtime :: "(bool \<times> nat) runtime" where
  "evicted_runtime =
     \<lparr>rt_language = (\<lambda>n w. Some ''javascript''), rt_read_file = (\<lambda>f w. None),
      rt_register = (\<lambda>n l src w. (Inr (), True, snd w)),
      rt_call_binary = (\<lambda>n l a w. if fst w then (Inl ''disk full'', True, Suc (snd w))
                                 else (Inl ''Unknown javascript tool: append'', w)),
      rt_call_tool = (\<lambda>n v w. (Inl ''disk full'', fst w, Suc (snd w)))\<rparr>"

definition append_plugin :: loaded_plugin where
  "append_plugin = \<lparr>lp_name = ''notes'', lp_version = ''1.0'', lp_tools = [\<lparr>pt_name = ''append'',
     pt_description = ''adds a line'', pt_input_schema = Null,
     pt_executor = \<lparr>ex_type = ''wasm'', ex_command = [], ex_args = [], ex_working_dir = None, ex_env = [], ex_timeout = 30,
       ex_language = Some ''javascript'', ex_source = Some ''...'', ex_source_file = None,
       ex_handler_function = None\<rparr>\<rparr>], lp_path = ''notes.json''\<rparr>"

lemma sample_errors:
  "\<not> binary_failure_is_request_level ''disk full''" "\<not> binary_failure_is_pre_execution ''disk full''"
  "\<not> binary_failure_is_request_level ''Unknown javascript tool: append''"
  "binary_failure_is_pre_execution ''Unknown javascript tool: append''"
  by code_simp+

lemma evicted_ops [simp]:
  "rt_language evicted_runtime n w = Some ''javascript''"
  "rt_register evicted_runtime n l src w = (Inr (), True, snd w)"
  "rt_call_binary evicted_runtime n l a w =
     (if fst w then (Inl ''disk full'', True, Suc (snd w)) else (Inl ''Unknown javascript tool: append'', w))"
  "rt_call_tool evicted_runtime n v w = (Inl ''disk full'', fst w, Suc (snd w))"
  by (simp_all add: evicted_runtime_def)

lemma evicted_counts: "counts_runs evicted_runtime snd"
  by (simp add: counts_runs_def sample_errors)

lemma append_not_builtin: "\<not> is_builtin_tool ''append''"
  by (simp add: is_builtin_tool_def BUILTIN_TOOL_NAMES_def)

text \<open>C36: The retry after a registration can run a tool twice for one call. When the tool's own failure
  comes from the retried attempt, its error is dropped and the call is served again on the decoded
  path, although the fall-back is documented to be a single execution.\<close>

theorem retry_runs_twice:
  "counts_runs evicted_runtime snd
   \<and> call_tool_binary evicted_runtime ''append'' [0x04] (registry_initial\<lparr>rg_plugins := [append_plugin]\<rparr>) (False, 0)
     = (Ok (Inl ''disk full''), registry_initial\<lparr>rg_plugins := [append_plugin], rg_fallback := [''append'']\<rparr>, True, 2)"
proof -
  let ?r = "registry_initial\<lparr>rg_plugins := [append_plugin]\<rparr>" and ?R = evicted_runtime
  have no_fallback: "rg_fallback registry_initial = []" by (simp add: registry_initial_def)
  have src: "plugin_wasm_source ?R ''append'' ''javascript'' ?r w = Some ''...''" for w
    by (simp add: plugin_wasm_source_def append_plugin_def map_filter_simps)
  have retry: "retry_binary_with_registration ?R ''append'' ''javascript'' [4] ?r (False, 0) = (None, True, 1)"
    by (simp add: retry_binary_with_registration_def src)
  have "tlv_encodable Null" by (simp add: tlv_encodable_def)
  then have "decode_json_value [4] = Ok (Null, 1)" using decode_tlv [of Null "[]"] by simp
  then have dec: "decoded_call ?R ''append'' [4] r (True, Suc 0) = (Ok (Inl ''disk full''), r, True, 2)" for r
    by (simp add: decoded_call_def call_tool_decoded_def)
  have "binary_language ?R ''append'' ?r (False, 0) = Some ''javascript''"
    "ensure_registered ?R ''append'' ''javascript'' ?r (False, 0) = (True, False, 0)"
    "rt_call_binary ?R ''append'' ''javascript'' [4] (False, 0) = (Inl ''Unknown javascript tool: append'', False, 0)"
    by (simp_all add: binary_language_def ensure_registered_def)
  then show ?thesis
    by (simp add: call_binary_eq append_not_builtin evicted_counts sample_errors retry dec record_json_fallback_def no_fallback)
qed

subsection \<open>Witnesses\<close>


definition sample_list_ops :: "list_op list" where
  "sample_list_ops = [List_Encoded (Inl ''no engine''), Registry_Op (Register_Tool
     \<lparr>tool_name = ''greet'', tool_description = ''says hello'', tool_input_schema = Null\<rparr>)]"

theorem tool_caches_exact_witness:
  "case get_tools (\<lambda>m. m) (Inl ''no engine'') (fst (list_run (\<lambda>m. m) hd sample_off sample_list_ops)) of
     (ts, r') \<Rightarrow> ts = registry_view (\<lambda>m. m) r'"
  using tool_caches_exact [of sample_off sample_list_ops "\<lambda>m. m" hd, OF _ _ prod.collapse [symmetric]]
  by (simp add: sample_off_def sample_list_ops_def)

theorem tools_listed_witness:
  "prefix get_builtin_tools (registry_view (\<lambda>m. m) (fst (list_run (\<lambda>m. m) hd sample_off sample_list_ops)))"
  using tools_listed [OF _ prod.collapse [symmetric], of "\<lambda>m. m" hd sample_off sample_list_ops]
  by (simp add: iterates_def)

end
