(* ===== verification/Json_Rpc.thy ===== *)
theory Json_Rpc
  imports Server_State
begin

text \<open>
  The JSON-RPC dispatcher (\<open>protocol/json_rpc.rs\<close>) with the builders it shares with the other
  transports (\<open>protocol/mod.rs\<close>): one definition per arm of \<open>dispatch\<close>, the bookkeeping of
  cancelled identifiers, paging of the tool list, and the rule that notifications get no reply.
  Logging statements are left out. The reading of lines from standard input is modelled from
  the trimmed line on; the parser and the printer of JSON text are arguments.
\<close>

subsection \<open>Replies\<close>

definition rpc_result :: "value \<Rightarrow> value \<Rightarrow> value" where
  "rpc_result rid r = json_obj [(''jsonrpc'', String ''2.0''), (''id'', rid), (''result'', r)]"

text \<open>Error codes are negative numbers of the standard, \<open>-32602\<close> and the like.\<close>

definition rpc_code :: "int \<Rightarrow> value" where
  "rpc_code c = json_i64 (word_of_int c)"

definition rpc_error :: "value \<Rightarrow> int \<Rightarrow> string \<Rightarrow> value" where
  "rpc_error rid code msg =
     json_obj [(''jsonrpc'', String ''2.0''), (''id'', rid),
       (''error'', json_obj [(''code'', rpc_code code), (''message'', String msg)])]"

definition text_result :: "string \<Rightarrow> bool \<Rightarrow> value" where
  "text_result text is_error =
     json_obj [(''content'', Array [json_obj [(''type'', String ''text''), (''text'', String text)]]),
       (''isError'', Bool is_error)]"

definition quoted :: "string \<Rightarrow> string" where
  "quoted s = [CHR 0x27] @ s @ [CHR 0x27]"

subsection \<open>Shared builders\<close>

definition build_initialize_response :: "bool \<Rightarrow> value" where
  "build_initialize_response include_extra =
     (let capabilities = [(''tools'', json_obj [(''listChanged'', Bool True)]),
            (''resources'', json_obj [(''subscribe'', Bool False), (''listChanged'', Bool False)]),
            (''prompts'', json_obj [(''listChanged'', Bool False)]),
            (''sampling'', json_obj []), (''logging'', json_obj [])]
            @ (if include_extra then [(''elicitation'', json_obj [])] else [])
      in json_obj [(''protocolVersion'', String PROTOCOL_VERSION), (''capabilities'', json_obj capabilities),
           (''serverInfo'', json_obj [(''name'', String ''velocity-mcp-rust-server''), (''version'', String VERSION)])])"

definition parse_level :: "string \<Rightarrow> level option" where
  "parse_level l =
     (if l = ''debug'' then Some DEBUG
      else if l = ''info'' then Some INFO
      else if l = ''notice'' \<or> l = ''warning'' then Some WARN
      else if l = ''error'' then Some ERROR
      else if l = ''critical'' \<or> l = ''alert'' \<or> l = ''emergency'' then Some ERROR
      else None)"

definition logging_set_level_response :: "value \<Rightarrow> string \<Rightarrow> 'w server \<Rightarrow> value \<times> 'w server" where
  "logging_set_level_response rid level_str s =
     (case parse_level level_str of
        None \<Rightarrow> (rpc_error rid (- 32602) (''Invalid log level: '' @ quoted level_str), s)
      | Some l \<Rightarrow> (rpc_result rid (json_obj []), s\<lparr>sv_log_level := l\<rparr>))"

definition DEFAULT_PAGE_SIZE :: nat where [simp]: "DEFAULT_PAGE_SIZE = 100"
definition MAX_CANCELLED_IDS :: nat where [simp]: "MAX_CANCELLED_IDS = 1024"
definition MAX_REQUEST_SIZE :: nat where [simp]: "MAX_REQUEST_SIZE = 1048576"

definition usize_saturating_add :: "nat \<Rightarrow> nat \<Rightarrow> nat" where
  "usize_saturating_add a b = min (a + b) (2 ^ 64 - 1)"

definition page_start :: "string option \<Rightarrow> nat" where
  "page_start cursor =
     (case cursor of Some c \<Rightarrow> (case parse_uint 64 c of Some n \<Rightarrow> n | None \<Rightarrow> 0) | None \<Rightarrow> 0)"

definition page_end :: "nat \<Rightarrow> nat \<Rightarrow> nat" where
  "page_end start len = min (usize_saturating_add start DEFAULT_PAGE_SIZE) len"

definition page_of :: "nat \<Rightarrow> 'a list \<Rightarrow> 'a list rust" where
  "page_of start xs = (if start < length xs then rs_slice xs start (page_end start (length xs)) else Ok [])"

definition tools_list_page_response ::
  "'w backend \<Rightarrow> value \<Rightarrow> string option \<Rightarrow> 'w server \<Rightarrow> value rust \<times> 'w server" where
  "tools_list_page_response B rid cursor s =
     (let (all_tools, w) = bk_get_tools B (sv_world s);
          s = s\<lparr>sv_world := w\<rparr>;
          start = page_start cursor;
          fin = page_end start (length all_tools)
      in (rbind (page_of start all_tools) (\<lambda>page_tools.
            let result = json_obj [(''tools'', Array (map tool_json page_tools))] in
            rbind (if fin < length all_tools
                   then value_set result ''nextCursor'' (String (dec_of_nat fin)) else Ok result)
              (\<lambda>result. Ok (rpc_result rid result))), s))"

subsection \<open>Cancellation\<close>

definition id_to_key :: "text_ops \<Rightarrow> value \<Rightarrow> string" where
  "id_to_key T rid =
     (case rid of
        String s \<Rightarrow> s
      | Number n \<Rightarrow>
          (case n of PosInt u \<Rightarrow> dec_of_nat (unat u)
           | NegInt i \<Rightarrow> ''-'' @ dec_of_nat (unat (- i))
           | Float f \<Rightarrow> float_display T f)
      | _ \<Rightarrow> value_debug T rid)"

definition cancellation_key :: "text_ops \<Rightarrow> audit_state \<Rightarrow> value \<Rightarrow> string" where
  "cancellation_key T a rid =
     (case current_session_id a of
        Some sid \<Rightarrow> sid @ '':'' @ id_to_key T rid
      | None \<Rightarrow> id_to_key T rid)"

definition is_cancelled :: "text_ops \<Rightarrow> value \<Rightarrow> 'w server \<Rightarrow> bool" where
  "is_cancelled T rid s \<longleftrightarrow> cancellation_key T (sv_audit s) rid \<in> set (sv_cancelled s)"

text \<open>Inserting a key into the set, which is emptied first when it is full.\<close>

definition insert_cancelled :: "string \<Rightarrow> string list \<Rightarrow> string list" where
  "insert_cancelled key ids =
     (let ids = (if length ids \<ge> MAX_CANCELLED_IDS then [] else ids)
      in if key \<in> set ids then ids else ids @ [key])"

definition add_cancelled :: "text_ops \<Rightarrow> value \<Rightarrow> 'w server \<Rightarrow> 'w server" where
  "add_cancelled T rid s =
     s\<lparr>sv_cancelled := insert_cancelled (cancellation_key T (sv_audit s) rid) (sv_cancelled s)\<rparr>"

definition remove_cancelled :: "text_ops \<Rightarrow> value \<Rightarrow> 'w server \<Rightarrow> 'w server" where
  "remove_cancelled T rid s =
     s\<lparr>sv_cancelled := removeAll (cancellation_key T (sv_audit s) rid) (sv_cancelled s)\<rparr>"

definition is_request_shaped :: "value \<Rightarrow> bool" where
  "is_request_shaped v \<longleftrightarrow> Option.bind (value_get v ''method'') as_str \<noteq> None"

subsection \<open>The arms of the dispatcher\<close>

definition param :: "value \<Rightarrow> string \<Rightarrow> value" where
  "param request k = value_index (value_index request ''params'') k"

definition dispatch_logging :: "value \<Rightarrow> value \<Rightarrow> 'w server \<Rightarrow> value \<times> 'w server" where
  "dispatch_logging request rid s =
     (let level_str = str_or (param request ''level'') ''info'' in
      case parse_level level_str of
        None \<Rightarrow> (rpc_error rid (- 32602) (''Invalid log level: '' @ quoted level_str), s)
      | Some l \<Rightarrow> (rpc_result rid (json_obj []), s\<lparr>sv_log_level := l\<rparr>))"

definition dispatch_cancelled :: "text_ops \<Rightarrow> value \<Rightarrow> 'w server \<Rightarrow> 'w server" where
  "dispatch_cancelled T request s =
     (let request_id = param request ''requestId'' in
      if \<not> is_null request_id then add_cancelled T request_id s else s)"

definition dispatch_tools_list :: "'w backend \<Rightarrow> value \<Rightarrow> value \<Rightarrow> 'w server \<Rightarrow> value rust \<times> 'w server" where
  "dispatch_tools_list B request rid s =
     (let (all_tools, w) = bk_get_tools B (sv_world s);
          s = s\<lparr>sv_world := w\<rparr>;
          cursor = as_str (param request ''cursor'');
          start = page_start cursor;
          fin = page_end start (length all_tools)
      in (rbind (page_of start all_tools) (\<lambda>page_tools.
            let next_cursor = (if fin < length all_tools then Some (String (dec_of_nat fin)) else None);
                result = json_obj [(''tools'', Array (map tool_json page_tools))] in
            rbind (case next_cursor of Some nc \<Rightarrow> value_set result ''nextCursor'' nc | None \<Rightarrow> Ok result)
              (\<lambda>result. Ok (rpc_result rid result))), s))"

definition rate_limited_text :: "string \<Rightarrow> string" where
  "rate_limited_text name =
     ''Rate limit exceeded for tool '' @ quoted name @ ''. Please slow down.'' @ newline @ newline
     @ ''Error type: RATE_LIMITED'' @ newline
     @ ''Hint: Wait a moment before retrying, or reduce request frequency.''"

text \<open>Running the tool: the outcome is audited, and a failure is rendered for the client.\<close>

definition run_tool ::
  "'w backend \<Rightarrow> text_ops \<Rightarrow> readings \<Rightarrow> string \<Rightarrow> value \<Rightarrow> 'w server \<Rightarrow> string \<times> bool \<times> 'w server" where
  "run_tool B T rd name arguments s =
     (case bk_call_tool B name arguments (sv_world s) of (result, arrived, w) \<Rightarrow>
        let s = s\<lparr>sv_world := w, sv_cancelled := fold insert_cancelled arrived (sv_cancelled s)\<rparr> in
        (case result of
           Inr res \<Rightarrow> (res, False, audit_call rd name Success s)
         | Inl err_msg \<Rightarrow> (tool_error_text T name err_msg, True, audit_call rd name (Error err_msg) s)))"

definition dispatch_tools_call ::
  "'w backend \<Rightarrow> text_ops \<Rightarrow> readings \<Rightarrow> value \<Rightarrow> value \<Rightarrow> 'w server \<Rightarrow> value \<times> 'w server" where
  "dispatch_tools_call B T rd request rid s =
     (let name = str_or (param request ''name'') []; arguments = param request ''arguments'' in
      if is_cancelled T rid s then
        (rpc_result rid (text_result ''Request was cancelled'' True), remove_cancelled T rid s)
      else case check_rate_limit rd s of (ok, s) \<Rightarrow>
        if \<not> ok then
          (rpc_result rid (text_result (rate_limited_text name) True),
           audit_call rd name (Rejected ''rate limited'') s)
        else case run_tool B T rd name arguments s of (output_text, is_error, s) \<Rightarrow>
          if is_cancelled T rid s then
            (rpc_result rid (text_result ''Request was cancelled during execution'' True), remove_cancelled T rid s)
          else (rpc_result rid (text_result output_text is_error), s))"

text \<open>An arm that answers with a provider's value or with its sanitised error.\<close>

definition reply_or_text :: "text_ops \<Rightarrow> value \<Rightarrow> string + value \<Rightarrow> value" where
  "reply_or_text T rid r =
     (case r of Inr result \<Rightarrow> rpc_result rid result
      | Inl e \<Rightarrow> rpc_result rid (text_result (sanitize_error T e) True))"

definition reply_or_error :: "text_ops \<Rightarrow> value \<Rightarrow> string + value \<Rightarrow> value" where
  "reply_or_error T rid r =
     (case r of Inr result \<Rightarrow> rpc_result rid result
      | Inl e \<Rightarrow> rpc_error rid (- 32603) (sanitize_error T e))"

definition with_world :: "('w \<Rightarrow> 'a \<times> 'w) \<Rightarrow> 'w server \<Rightarrow> 'a \<times> 'w server" where
  "with_world f s = (case f (sv_world s) of (x, w) \<Rightarrow> (x, s\<lparr>sv_world := w\<rparr>))"

definition dispatch_resources :: "'w backend \<Rightarrow> text_ops \<Rightarrow> string \<Rightarrow> value \<Rightarrow> value \<Rightarrow> 'w server \<Rightarrow> (value \<times> 'w server) option" where
  "dispatch_resources B T method request rid s =
     (let cursor = as_str (param request ''cursor''); uri = str_or (param request ''uri'') [];
          subscriber_id = str_or (param request ''subscriberId'') ''default'' in
      if method = ''resources/list'' then
        Some (case with_world (bk_resources_list B cursor) s of (r, s) \<Rightarrow> (rpc_result rid r, s))
      else if method = ''resources/read'' then
        Some (case with_world (bk_resources_read B uri) s of (r, s) \<Rightarrow> (reply_or_text T rid r, s))
      else if method = ''resources/templates/list'' then
        Some (case with_world (bk_templates_list B cursor) s of (r, s) \<Rightarrow> (rpc_result rid r, s))
      else if method = ''resources/subscribe'' then
        Some (case with_world (bk_subscribe B uri subscriber_id) s of (r, s) \<Rightarrow> (reply_or_text T rid r, s))
      else if method = ''resources/unsubscribe'' then
        Some (case with_world (bk_unsubscribe B uri subscriber_id) s of (r, s) \<Rightarrow> (reply_or_text T rid r, s))
      else None)"

definition dispatch_prompts :: "'w backend \<Rightarrow> text_ops \<Rightarrow> string \<Rightarrow> value \<Rightarrow> value \<Rightarrow> 'w server \<Rightarrow> (value \<times> 'w server) option" where
  "dispatch_prompts B T method request rid s =
     (if method = ''prompts/list'' then
        Some (case with_world (bk_prompts_list B (as_str (param request ''cursor''))) s of (r, s) \<Rightarrow> (rpc_result rid r, s))
      else if method = ''prompts/get'' then
        Some (case with_world (bk_prompts_get B (str_or (param request ''name'') []) (param request ''arguments'')) s of
                (r, s) \<Rightarrow> (reply_or_text T rid r, s))
      else if method = ''sampling/createMessage'' then
        Some (case with_world (bk_sampling B (value_index request ''params'')) s of
                (r, s) \<Rightarrow> (reply_or_error T rid r, s))
      else None)"

definition health_response :: "string \<Rightarrow> value \<Rightarrow> value" where
  "health_response mode rid =
     rpc_result rid (json_obj [(''status'', String ''healthy''), (''mode'', String mode), (''version'', String VERSION)])"

definition some_ok :: "value \<times> 'w server \<Rightarrow> value option rust \<times> 'w server" where
  "some_ok r = (Ok (Some (fst r)), snd r)"

definition dispatch ::
  "'w backend \<Rightarrow> text_ops \<Rightarrow> bool \<Rightarrow> readings \<Rightarrow> value \<Rightarrow> 'w server \<Rightarrow> value option rust \<times> 'w server" where
  "dispatch B T oauth2 rd request s =
     (let method = str_or (value_index request ''method'') []; rid = value_index request ''id'' in
      if method = ''initialize'' then (Ok (Some (rpc_result rid (build_initialize_response True))), s)
      else if method = ''notifications/initialized'' then (Ok None, s)
      else if method = ''notifications/cancelled'' then (Ok None, dispatch_cancelled T request s)
      else if method = ''notifications/progress'' then
        (Ok None, s\<lparr>sv_world := bk_progress B (value_index request ''params'') (sv_world s)\<rparr>)
      else if method = ''ping'' then (Ok (Some (rpc_result rid (json_obj []))), s)
      else if method = ''logging/setLevel'' then some_ok (dispatch_logging request rid s)
      else if method = ''tools/list'' then
        (case dispatch_tools_list B request rid s of (r, s) \<Rightarrow> (rbind r (\<lambda>v. Ok (Some v)), s))
      else if method = ''tools/call'' then some_ok (dispatch_tools_call B T rd request rid s)
      else if method = ''health/check'' then (Ok (Some (health_response ''stdio'' rid)), s)
      else case dispatch_resources B T method request rid s of
        Some r \<Rightarrow> some_ok r
      | None \<Rightarrow>
          (case dispatch_prompts B T method request rid s of
             Some r \<Rightarrow> some_ok r
           | None \<Rightarrow>
               if oauth2 \<and> method = ''connector/call'' then
                 some_ok (case with_world (bk_connector B (value_index request ''params'')) s of
                            (r, s) \<Rightarrow> (reply_or_error T rid r, s))
               else if method = ''elicitation/create'' then
                 (Ok (Some (rpc_result rid (json_obj [(''action'', String ''accept''),
                    (''message'', String ''Elicitation acknowledged'')]))), s)
               else if method = ''roots/list'' then
                 (Ok (Some (rpc_result rid (json_obj [(''roots'', Array [])]))), s)
               else if \<not> is_null rid then
                 (Ok (Some (rpc_error rid (- 32601) (''Method '' @ quoted method @ '' not found''))), s)
               else (Ok None, s)))"

definition handle_request ::
  "'w backend \<Rightarrow> text_ops \<Rightarrow> bool \<Rightarrow> readings \<Rightarrow> value \<Rightarrow> 'w server \<Rightarrow> value option rust \<times> 'w server" where
  "handle_request B T oauth2 rd request s =
     (case dispatch B T oauth2 rd request s of (response, s) \<Rightarrow>
        (rbind response (\<lambda>r. case value_get request ''id'' of None \<Rightarrow> Ok None | Some _ \<Rightarrow> Ok r), s))"

subsection \<open>One line of standard input\<close>

definition invalid_line :: "int \<Rightarrow> string \<Rightarrow> value" where
  "invalid_line code msg =
     json_obj [(''jsonrpc'', String ''2.0''),
       (''error'', json_obj [(''code'', rpc_code code), (''message'', String msg)]), (''id'', Null)]"

text \<open>What the loop prints for a trimmed line: at most one response.\<close>

definition stdio_line ::
  "(string \<Rightarrow> value option) \<Rightarrow> 'w backend \<Rightarrow> text_ops \<Rightarrow> bool \<Rightarrow> readings \<Rightarrow> string \<Rightarrow> 'w server
   \<Rightarrow> value option rust \<times> 'w server" where
  "stdio_line from_str B T oauth2 rd trimmed s =
     (if trimmed = [] then (Ok None, s)
      else if length trimmed > MAX_REQUEST_SIZE then (Ok (Some (invalid_line (- 32700) ''Request too large'')), s)
      else case from_str trimmed of
        None \<Rightarrow> (Ok (Some (invalid_line (- 32700) ''Parse error'')), s)
      | Some request \<Rightarrow>
          (case handle_request B T oauth2 rd request s of (r, s) \<Rightarrow>
             (rbind r (\<lambda>r. case r of
                Some response \<Rightarrow> Ok (Some response)
              | None \<Rightarrow>
                  if is_request_shaped request then Ok None
                  else if is_array request then
                    Ok (Some (invalid_line (- 32600) ''Invalid Request: batch requests are not supported over stdio''))
                  else Ok (Some (invalid_line (- 32600) ''Invalid Request: expected a JSON-RPC 2.0 request object''))),
              s)))"

end
