(* ===== verification/Json_Rpc_Laws.thy ===== *)
theory Json_Rpc_Laws
  imports Json_Rpc
begin

text \<open>
  Properties of the JSON-RPC dispatcher: every reply is a well-formed response to its request and
  nothing panics, paging delivers every tool exactly once, the page builder shared with the other
  transports answers like the dispatcher, a cancelled request does not run, every call that is not
  cancelled is audited once, and the bounds of the shared state are kept.
\<close>

subsection \<open>Replies\<close>

text \<open>A response object: version, the identifier of the request, and either a result or an error.\<close>

definition response_to :: "value \<Rightarrow> value \<Rightarrow> bool" where
  "response_to rid r \<longleftrightarrow> value_get r ''jsonrpc'' = Some (String ''2.0'') \<and> value_get r ''id'' = Some rid
     \<and> (value_get r ''result'' = None) \<noteq> (value_get r ''error'' = None)"

definition notifications :: "string list" where
  "notifications = [''notifications/initialized'', ''notifications/cancelled'', ''notifications/progress'']"

definition request_methods :: "bool \<Rightarrow> string list" where
  "request_methods oauth2 =
     [''initialize'', ''ping'', ''logging/setLevel'', ''tools/list'', ''tools/call'', ''health/check'',
      ''resources/list'', ''resources/read'', ''resources/templates/list'', ''resources/subscribe'',
      ''resources/unsubscribe'', ''prompts/list'', ''prompts/get'', ''sampling/createMessage'',
      ''elicitation/create'', ''roots/list''] @ (if oauth2 then [''connector/call''] else [])"

lemma response_to_rpc [simp]: "response_to rid (rpc_result rid x)" "response_to rid (rpc_error rid c m)"
  by (simp_all add: response_to_def rpc_result_def rpc_error_def)

lemma response_to_reply [simp]: "response_to rid (reply_or_text T rid r)" "response_to rid (reply_or_error T rid r)"
  by (simp_all add: reply_or_text_def reply_or_error_def split: sum.split)

lemma page_start_bound: "page_start cursor < 2 ^ 64"
  by (auto simp: page_start_def dest: parse_uint_bound split: option.split)

lemma page_of_start: "page_of (page_start cursor) xs =
  Ok (take (page_end (page_start cursor) (length xs) - page_start cursor) (drop (page_start cursor) xs))"
proof (cases "page_start cursor < length xs")
  case True
  then have "page_start cursor \<le> page_end (page_start cursor) (length xs)"
    using page_start_bound [of cursor] by (simp add: page_end_def usize_saturating_add_def)
  moreover have "page_end (page_start cursor) (length xs) \<le> length xs"
    by (simp add: page_end_def)
  ultimately show ?thesis using True by (simp add: page_of_def rs_slice_Ok)
qed (simp add: page_of_def)

text \<open>The page from a cursor, as the reply carries it.\<close>

definition tools_page :: "string option \<Rightarrow> tool list \<Rightarrow> value" where
  "tools_page cursor ts =
     (let start = page_start cursor; fin = page_end start (length ts);
          tools = (''tools'', Array (map tool_json (take (fin - start) (drop start ts))))
      in json_obj (if fin < length ts then [tools, (''nextCursor'', String (dec_of_nat fin))] else [tools]))"

lemma value_set_json_obj: "value_set (json_obj kvs) k v = Ok (json_obj (kvs @ [(k, v)]))"
  by (simp add: json_obj_def)

lemma tools_list_page_response_eq:
  "tools_list_page_response B rid cursor s =
     (case bk_get_tools B (sv_world s) of (ts, w) \<Rightarrow>
        (Ok (rpc_result rid (tools_page cursor ts)), s\<lparr>sv_world := w\<rparr>))"
  by (simp add: tools_list_page_response_def page_of_start tools_page_def value_set_json_obj Let_def case_prod_beta)

lemma dispatch_tools_list_eq:
  "dispatch_tools_list B request rid s = tools_list_page_response B rid (as_str (param request ''cursor'')) s"
  by (simp add: tools_list_page_response_eq dispatch_tools_list_def page_of_start tools_page_def
      value_set_json_obj Let_def case_prod_beta)

lemma dispatch_tools_list_Ok:
  "\<exists>r s'. dispatch_tools_list B request rid s = (Ok (rpc_result rid r), s')"
  by (auto simp: dispatch_tools_list_eq tools_list_page_response_eq case_prod_beta)

lemma response_to_logging [simp]: "response_to rid (fst (dispatch_logging request rid s))"
  by (simp add: dispatch_logging_def Let_def split: option.split)

lemma response_to_call [simp]: "response_to rid (fst (dispatch_tools_call B T rd request rid s))"
  by (simp add: dispatch_tools_call_def Let_def case_prod_beta)

lemma dispatch_resources_reply:
  "dispatch_resources B T method request rid s = Some r \<Longrightarrow> response_to rid (fst r)"
  by (auto simp: dispatch_resources_def Let_def case_prod_beta split: if_splits)

lemma dispatch_prompts_reply:
  "dispatch_prompts B T method request rid s = Some r \<Longrightarrow> response_to rid (fst r)"
  by (auto simp: dispatch_prompts_def case_prod_beta split: if_splits)

lemma dispatch_resources_None:
  "dispatch_resources B T method request rid s = None \<longleftrightarrow>
     method \<notin> {''resources/list'', ''resources/read'', ''resources/templates/list'', ''resources/subscribe'',
       ''resources/unsubscribe''}"
  by (auto simp: dispatch_resources_def Let_def)

lemma dispatch_prompts_None:
  "dispatch_prompts B T method request rid s = None \<longleftrightarrow>
     method \<notin> {''prompts/list'', ''prompts/get'', ''sampling/createMessage''}"
  by (auto simp: dispatch_prompts_def)

definition answer_ok :: "bool \<Rightarrow> string \<Rightarrow> value \<Rightarrow> value option rust \<Rightarrow> bool" where
  "answer_ok oauth2 method rid a \<longleftrightarrow>
     (case a of
        Ok (Some r) \<Rightarrow> method \<notin> set notifications \<and> response_to rid r
      | Ok None \<Rightarrow> method \<in> set notifications \<or> rid = Null \<and> method \<notin> set (request_methods oauth2)
      | _ \<Rightarrow> False)"

lemma dispatch_rest_ok:
  fixes request :: "value"
  defines "rid \<equiv> value_index request ''id''" and "method \<equiv> str_or (value_index request ''method'') []"
  assumes "method \<notin> set notifications"
    "method \<notin> {''initialize'', ''ping'', ''logging/setLevel'', ''tools/list'', ''tools/call'', ''health/check''}"
  shows "answer_ok oauth2 method rid (fst (dispatch B T oauth2 rd request s))"
proof (cases "dispatch_resources B T method request rid s")
  case (Some r)
  then show ?thesis using assms dispatch_resources_reply [OF Some]
    by (simp add: dispatch_def notifications_def some_ok_def answer_ok_def)
next
  case None
  note res = this
  show ?thesis
  proof (cases "dispatch_prompts B T method request rid s")
    case (Some r)
    then show ?thesis using assms res dispatch_prompts_reply [OF Some]
      by (simp add: dispatch_def notifications_def some_ok_def answer_ok_def)
  next
    case pro: None
    have "fst (dispatch B T oauth2 rd request s) = Ok None \<Longrightarrow> rid = Null \<and> method \<notin> set (request_methods oauth2)"
      using assms res pro unfolding dispatch_resources_None dispatch_prompts_None
      by (auto simp: dispatch_def notifications_def some_ok_def request_methods_def is_null_def Let_def
          dispatch_resources_None [THEN iffD2] dispatch_prompts_None [THEN iffD2] split: if_splits)
    moreover have "\<exists>r. fst (dispatch B T oauth2 rd request s) = Ok r \<and> (\<forall>v. r = Some v \<longrightarrow> response_to rid v)"
      using assms res pro
      by (simp add: dispatch_def notifications_def some_ok_def case_prod_beta Let_def)
    ultimately show ?thesis using assms(3) by (auto simp: answer_ok_def split: option.split)
  qed
qed

lemma dispatch_ok:
  "answer_ok oauth2 (str_or (value_index request ''method'') []) (value_index request ''id'')
     (fst (dispatch B T oauth2 rd request s))"
proof -
  let ?m = "str_or (value_index request ''method'') []"
  consider "?m \<in> set notifications" | "?m = ''tools/list''"
    | "?m \<in> {''initialize'', ''ping'', ''logging/setLevel'', ''tools/call'', ''health/check''}"
    | "?m \<notin> set notifications"
      "?m \<notin> {''initialize'', ''ping'', ''logging/setLevel'', ''tools/list'', ''tools/call'', ''health/check''}"
    by auto
  then show ?thesis
  proof cases
    case 1
    then show ?thesis by (auto simp: dispatch_def notifications_def answer_ok_def)
  next
    case 2
    then show ?thesis using dispatch_tools_list_Ok [of B request "value_index request ''id''" s]
      by (auto simp: dispatch_def notifications_def answer_ok_def)
  next
    case 3
    then show ?thesis
      by (auto simp: dispatch_def notifications_def answer_ok_def some_ok_def health_response_def Let_def)
  qed (rule dispatch_rest_ok)
qed

text \<open>C16: A request value of any shape is handled without a panic and without an error. A request
  without an identifier member gets no reply. Any other request gets a response object that carries
  its identifier and exactly one of a result and an error, except for the three notifications and,
  with a null identifier, for unknown methods, which get none.\<close>

theorem replies_well_formed:
  "case (value_get request ''id'', fst (handle_request B T oauth2 rd request s)) of
     (None, a) \<Rightarrow> a = Ok None
   | (Some rid, a) \<Rightarrow> answer_ok oauth2 (str_or (value_index request ''method'') []) rid a"
proof (cases "value_get request ''id''")
  case None
  then show ?thesis using dispatch_ok [of oauth2 request B T rd s]
    by (auto simp: handle_request_def case_prod_beta answer_ok_def split: rust.splits)
next
  case (Some rid)
  then have "value_index request ''id'' = rid" by (simp add: value_index_def)
  with Some show ?thesis using dispatch_ok [of oauth2 request B T rd s]
    by (auto simp: handle_request_def case_prod_beta answer_ok_def split: rust.splits)
qed

subsection \<open>Paging\<close>

text \<open>A client that asks for the tool list and follows the cursors it is given.\<close>

definition list_request :: "string option \<Rightarrow> value" where
  "list_request cursor =
     json_obj [(''jsonrpc'', String ''2.0''), (''id'', Number (PosInt 1)), (''method'', String ''tools/list''),
       (''params'', json_obj (case cursor of Some c \<Rightarrow> [(''cursor'', String c)] | None \<Rightarrow> []))]"

fun fetch_tools ::
  "'w backend \<Rightarrow> text_ops \<Rightarrow> bool \<Rightarrow> readings \<Rightarrow> nat \<Rightarrow> string option \<Rightarrow> 'w server \<Rightarrow> value list option" where
  "fetch_tools B T oauth2 rd 0 cursor s = None"
| "fetch_tools B T oauth2 rd (Suc n) cursor s =
     (case handle_request B T oauth2 rd (list_request cursor) s of
        (Ok (Some r), s') \<Rightarrow>
          (case value_index (value_index r ''result'') ''tools'' of
             Array page \<Rightarrow>
               (case as_str (value_index (value_index r ''result'') ''nextCursor'') of
                  None \<Rightarrow> Some page
                | Some c \<Rightarrow> map_option ((@) page) (fetch_tools B T oauth2 rd n (Some c) s'))
           | _ \<Rightarrow> None)
      | _ \<Rightarrow> None)"

lemma handle_list_request:
  "handle_request B T oauth2 rd (list_request cursor) s =
     (case bk_get_tools B (sv_world s) of (ts, w) \<Rightarrow>
        (Ok (Some (rpc_result (Number (PosInt 1)) (tools_page cursor ts))), s\<lparr>sv_world := w\<rparr>))"
proof -
  have fields: "str_or (value_index (list_request cursor) ''method'') [] = ''tools/list''"
    "value_get (list_request cursor) ''id'' = Some (Number (PosInt 1))"
    "value_index (list_request cursor) ''id'' = Number (PosInt 1)"
    "as_str (param (list_request cursor) ''cursor'') = cursor"
    by (simp_all add: list_request_def str_or_def param_def split: option.split)
  show ?thesis
    by (simp add: handle_request_def dispatch_def fields dispatch_tools_list_eq tools_list_page_response_eq
        Let_def case_prod_beta)
qed

lemma fetch_tools_from:
  assumes "bk_get_tools B (sv_world s) = (ts, sv_world s)" "length ts < 2 ^ 64"
    "page_start cursor \<le> length ts" "length ts - page_start cursor < 100 * n + 1" "0 < n"
  shows "fetch_tools B T oauth2 rd n cursor s = Some (map tool_json (drop (page_start cursor) ts))"
  using assms
proof (induction n arbitrary: cursor)
  case (Suc n)
  let ?a = "page_start cursor"
  let ?b = "page_end ?a (length ts)"
  have fin: "?b = min (?a + 100) (length ts)"
    using Suc.prems(2) by (auto simp: page_end_def usize_saturating_add_def)
  have same: "s\<lparr>sv_world := sv_world s\<rparr> = s" by simp
  show ?case
  proof (cases "?a + 100 < length ts")
    case True
    then have cur: "page_start (Some (dec_of_nat (?a + 100))) = ?a + 100"
      using Suc.prems(2) by (simp add: page_start_def)
    have "fetch_tools B T oauth2 rd n (Some (dec_of_nat (?a + 100))) s
        = Some (map tool_json (drop (?a + 100) ts))"
      using Suc.IH [of "Some (dec_of_nat (?a + 100))"] True Suc.prems(1,2,4) by (simp add: cur)
    then show ?thesis using True Suc.prems(1)
      by (simp add: handle_list_request rpc_result_def tools_page_def fin same Let_def map_append [symmetric]
          take_drop_split [of ?a "?a + 100", simplified] del: map_append)
  next
    case False
    then show ?thesis using Suc.prems(1,3)
      by (simp add: handle_list_request rpc_result_def tools_page_def fin same Let_def)
  qed
qed simp

text \<open>C18: A client that starts without a cursor and follows the cursors of the replies receives every
  registered tool exactly once and in the order of the registry, and it needs no more than one
  request for each started hundred of tools, as long as the registry does not change meanwhile.\<close>

theorem paging_complete:
  assumes "bk_get_tools B (sv_world s) = (ts, sv_world s)" "length ts < 2 ^ 64" "length ts div 100 < n"
  shows "fetch_tools B T oauth2 rd n None s = Some (map tool_json ts)"
proof -
  have "length ts < 100 * n + 1" "0 < n" using assms(3) by auto
  then show ?thesis using fetch_tools_from [OF assms(1,2), of None n] by (simp add: page_start_def)
qed

subsection \<open>Cancellation\<close>

definition has_method :: "string \<Rightarrow> value \<Rightarrow> bool" where
  "has_method m request \<longleftrightarrow> as_str (value_index request ''method'') = Some m"

lemma handle_cancel:
  assumes "has_method ''notifications/cancelled'' note" "param note ''requestId'' = rid" "rid \<noteq> Null"
  shows "snd (handle_request B T oauth2 rd note s) = add_cancelled T rid s"
  using assms by (simp add: handle_request_def dispatch_def dispatch_cancelled_def has_method_def str_or_def
      is_null_def case_prod_beta)

lemma handle_call:
  assumes "has_method ''tools/call'' request" "value_get request ''id'' = Some rid"
  shows "handle_request B T oauth2 rd request s =
     (case dispatch_tools_call B T rd request rid s of (r, s') \<Rightarrow> (Ok (Some r), s'))"
  using assms by (simp add: handle_request_def dispatch_def some_ok_def has_method_def str_or_def
      value_index_def case_prod_beta)

lemma add_cancelled_marks: "is_cancelled T rid (add_cancelled T rid s)"
  by (simp add: is_cancelled_def add_cancelled_def insert_cancelled_def Let_def)

lemma remove_cancelled_clears: "\<not> is_cancelled T rid (remove_cancelled T rid s)"
  by (simp add: is_cancelled_def remove_cancelled_def)

text \<open>C22: After a cancellation notification for an identifier, the next tool call of the session
  with that identifier is refused: the tool does not run, no token is taken, nothing is audited,
  and the mark is used up, so that the identifier can be used again.\<close>

theorem cancelled_call_refused:
  assumes "has_method ''notifications/cancelled'' note" "param note ''requestId'' = rid" "rid \<noteq> Null"
    "has_method ''tools/call'' request" "value_get request ''id'' = Some rid"
    "handle_request B T oauth2 rd1 note s = (a, s1)" "handle_request B T oauth2 rd2 request s1 = (b, s2)"
  shows "b = Ok (Some (rpc_result rid (text_result ''Request was cancelled'' True)))
    \<and> sv_world s2 = sv_world s \<and> sv_limiter s2 = sv_limiter s \<and> sv_audit s2 = sv_audit s
    \<and> \<not> is_cancelled T rid s2"
proof -
  have s1: "s1 = add_cancelled T rid s" using handle_cancel [OF assms(1-3), of B T oauth2 rd1 s] assms(6) by simp
  have "b = Ok (Some (rpc_result rid (text_result ''Request was cancelled'' True)))
      \<and> s2 = remove_cancelled T rid (add_cancelled T rid s)"
    using assms(7) handle_call [OF assms(4,5), of B T oauth2 rd2 s1] add_cancelled_marks [of T rid s]
    by (simp add: s1 dispatch_tools_call_def Let_def)
  then show ?thesis by (simp add: remove_cancelled_clears) (simp add: remove_cancelled_def add_cancelled_def)
qed

lemma first_colon:
  "CHR '':'' \<notin> set a \<Longrightarrow> CHR '':'' \<notin> set b \<Longrightarrow> a @ CHR '':'' # x = b @ CHR '':'' # y \<Longrightarrow> a = b \<and> x = y"
  by (induction a arbitrary: b) (case_tac b; auto)+

text \<open>The server while it handles a message of a session.\<close>

definition in_session :: "string \<Rightarrow> 'w server \<Rightarrow> 'w server" where
  "in_session sid s = s\<lparr>sv_audit := set_session_context sid (sv_audit s)\<rparr>"



subsection \<open>Tool calls\<close>

lemmas server_updates = check_rate_limit_def audit_call_def audit_call_merkle_def remove_cancelled_def
  add_cancelled_def run_tool_def with_world_def

definition tool_call_entry :: "readings \<Rightarrow> string \<Rightarrow> audit_outcome \<Rightarrow> string option \<Rightarrow> audit_state \<Rightarrow> audit_entry" where
  "tool_call_entry rd name outcome merkle a =
     \<lparr>ae_sequence = audit_sequence a, ae_timestamp_ms = now_ms (rd_clock rd), ae_tool_name = name,
      ae_duration_us = elapsed_us (rd_clock rd), ae_outcome = outcome, ae_transport = current_transport a,
      ae_payload_size = None, ae_response_size = None, ae_merkle_root = merkle,
      ae_session_id = Some (session_or_default a)\<rparr>"

lemma record_tool_call_log:
  "session_log (session_or_default a) (record_tool_call pick clk name oc a) =
     audit_push \<lparr>ae_sequence = audit_sequence a, ae_timestamp_ms = now_ms clk, ae_tool_name = name,
      ae_duration_us = elapsed_us clk, ae_outcome = oc, ae_transport = current_transport a,
      ae_payload_size = None, ae_response_size = None, ae_merkle_root = None,
      ae_session_id = Some (session_or_default a)\<rparr> (session_log (session_or_default a) a)"
  by (simp add: record_tool_call_def record_full_log)

text \<open>What the backend answers to the call of a request, and the outcome the audit has to show.\<close>

definition called_tool :: "'w backend \<Rightarrow> value \<Rightarrow> 'w server \<Rightarrow> (string + string) \<times> string list \<times> 'w" where
  "called_tool B request s = bk_call_tool B (str_or (param request ''name'') []) (param request ''arguments'') (sv_world s)"

definition outcome_of :: "string + string \<Rightarrow> audit_outcome" where
  "outcome_of r = (case r of Inr _ \<Rightarrow> Success | Inl e \<Rightarrow> Error e)"


subsection \<open>The invariant of the shared state\<close>

definition server_ok :: "'w server \<Rightarrow> bool" where
  "server_ok s \<longleftrightarrow> registry_ok (audit_registry (sv_audit s)) \<and> limiter_ok (sv_limiter s)
     \<and> distinct (sv_cancelled s) \<and> length (sv_cancelled s) \<le> MAX_CANCELLED_IDS"

lemma insert_cancelled_ok:
  "distinct ids \<Longrightarrow> length ids \<le> MAX_CANCELLED_IDS \<Longrightarrow>
   distinct (insert_cancelled k ids) \<and> length (insert_cancelled k ids) \<le> MAX_CANCELLED_IDS"
  by (auto simp: insert_cancelled_def Let_def)

lemma fold_insert_cancelled_ok:
  "distinct ids \<Longrightarrow> length ids \<le> MAX_CANCELLED_IDS \<Longrightarrow>
   distinct (fold insert_cancelled ks ids) \<and> length (fold insert_cancelled ks ids) \<le> MAX_CANCELLED_IDS"
  using insert_cancelled_ok by (induction ks arbitrary: ids) auto

named_theorems server_intros

lemma server_ok_ops [server_intros]:
  "server_ok s \<Longrightarrow> server_ok (add_cancelled T rid s)"
  "server_ok s \<Longrightarrow> server_ok (remove_cancelled T rid s)"
  "server_ok s \<Longrightarrow> server_ok (snd (check_rate_limit rd s))"
  "server_ok s \<Longrightarrow> server_ok (s\<lparr>sv_world := w\<rparr>)"
  "server_ok s \<Longrightarrow> server_ok (s\<lparr>sv_log_level := l\<rparr>)"
  "server_ok s \<Longrightarrow> server_ok (snd (with_world f s))"
  using insert_cancelled_ok [of "sv_cancelled s" "cancellation_key T (sv_audit s) rid"]
    try_acquire_ok [of "sv_limiter s" "rd_now rd"]
  by (auto simp: server_ok_def server_updates distinct_removeAll case_prod_beta
      intro: order_trans [OF length_removeAll_less_eq])

lemma server_ok_audit [server_intros]:
  "picks_key (rd_pick rd) \<Longrightarrow> server_ok s \<Longrightarrow> server_ok (audit_call rd name oc s)"
  "picks_key (rd_pick rd) \<Longrightarrow> server_ok s \<Longrightarrow> server_ok (audit_call_merkle rd name oc mr s)"
  by (simp_all add: server_ok_def audit_call_def audit_call_merkle_def record_tool_call_def
      record_tool_call_with_merkle_def record_full_ok)

lemma server_ok_arrived [server_intros]:
  "server_ok s \<Longrightarrow> server_ok (s\<lparr>sv_world := w, sv_cancelled := fold insert_cancelled ks (sv_cancelled s)\<rparr>)"
  using fold_insert_cancelled_ok [of "sv_cancelled s" ks] by (simp add: server_ok_def)

lemma run_tool_ok [server_intros]:
  "picks_key (rd_pick rd) \<Longrightarrow> server_ok s \<Longrightarrow> server_ok (snd (snd (run_tool B T rd name args s)))"
  by (auto simp: run_tool_def Let_def intro!: server_intros split: prod.split sum.split)

lemma tools_call_ok [server_intros]:
  "picks_key (rd_pick rd) \<Longrightarrow> server_ok s \<Longrightarrow> server_ok (snd (dispatch_tools_call B T rd request rid s))"
  by (auto simp: dispatch_tools_call_def Let_def case_prod_beta intro!: server_intros)

lemma logging_ok [server_intros]: "server_ok s \<Longrightarrow> server_ok (snd (dispatch_logging request rid s))"
  by (auto simp: dispatch_logging_def Let_def intro: server_intros split: option.split)

lemma tools_list_ok [server_intros]: "server_ok s \<Longrightarrow> server_ok (snd (dispatch_tools_list B request rid s))"
  by (simp add: dispatch_tools_list_eq tools_list_page_response_eq case_prod_beta server_intros)

lemma cancelled_ok [server_intros]: "server_ok s \<Longrightarrow> server_ok (dispatch_cancelled T request s)"
  by (auto simp: dispatch_cancelled_def Let_def intro: server_intros)

lemma resources_ok: "server_ok s \<Longrightarrow> dispatch_resources B T method request rid s = Some r \<Longrightarrow> server_ok (snd r)"
  by (auto simp: dispatch_resources_def Let_def case_prod_beta intro: server_intros split: if_splits)

lemma prompts_ok: "server_ok s \<Longrightarrow> dispatch_prompts B T method request rid s = Some r \<Longrightarrow> server_ok (snd r)"
  by (auto simp: dispatch_prompts_def case_prod_beta intro: server_intros split: if_splits)

lemma server_ok_branch:
  "(c \<Longrightarrow> server_ok (snd a)) \<Longrightarrow> (\<not> c \<Longrightarrow> server_ok (snd b)) \<Longrightarrow> server_ok (snd (if c then a else b))"
  "(x = None \<Longrightarrow> server_ok (snd a)) \<Longrightarrow> (\<And>r. x = Some r \<Longrightarrow> server_ok (snd (f r)))
    \<Longrightarrow> server_ok (snd (case x of None \<Rightarrow> a | Some r \<Rightarrow> f r))"
  by (auto split: option.split)

lemma dispatch_server_ok:
  assumes "picks_key (rd_pick rd)" "server_ok s"
  shows "server_ok (snd (dispatch B T oauth2 rd request s))"
  unfolding dispatch_def Let_def using assms
  by (intro server_ok_branch)
    (simp_all add: some_ok_def case_prod_beta server_intros resources_ok prompts_ok)

text \<open>C21: Handling any request keeps the invariant of the shared state: at most 1024 sessions of at
  most 10000 entries each, no session mixing with another, tokens within the burst, and at most 1024
  distinct cancellation marks.\<close>

theorem handle_request_ok:
  assumes "picks_key (rd_pick rd)" "server_ok s"
  shows "server_ok (snd (handle_request B T oauth2 rd request s))"
  using dispatch_server_ok [OF assms] by (simp add: handle_request_def case_prod_beta)

subsection \<open>Witnesses\<close>

definition sample_backend :: "tool list \<Rightarrow> unit backend" where
  "sample_backend ts =
     \<lparr>bk_get_tools = (\<lambda>w. (ts, w)), bk_generation = (\<lambda>w. 1),
      bk_call_tool = (\<lambda>name args w. (if name = ''echo'' then Inr ''done'' else Inl ''Tool not found'', [], w)),
      bk_call_tool_binary = (\<lambda>name args w. (if name = ''echo'' then Inr ''done'' else Inl ''Tool not found'', [], w)),
      bk_resources_list = (\<lambda>c w. (Null, w)), bk_resources_read = (\<lambda>u w. (Inl ''none'', w)),
      bk_templates_list = (\<lambda>c w. (Null, w)), bk_subscribe = (\<lambda>u i w. (Inl ''none'', w)),
      bk_unsubscribe = (\<lambda>u i w. (Inl ''none'', w)), bk_prompts_list = (\<lambda>c w. (Null, w)),
      bk_prompts_get = (\<lambda>n a w. (Inl ''none'', w)), bk_sampling = (\<lambda>p w. (Inl ''none'', w)),
      bk_connector = (\<lambda>p w. (Inl ''none'', w)), bk_progress = (\<lambda>p w. w)\<rparr>"

definition sample_text :: text_ops where
  "sample_text = \<lparr>float_display = (\<lambda>f. ''0.5''), value_debug = (\<lambda>v. ''Null''),
     redact_windows = (\<lambda>s. s), redact_unix = (\<lambda>s. s)\<rparr>"

definition sample_readings :: readings where
  "sample_readings = \<lparr>rd_now = 0, rd_clock = \<lparr>now_ms = 7, elapsed_us = 3\<rparr>, rd_pick = hd\<rparr>"

definition sample_server :: "unit server" where
  "sample_server = \<lparr>sv_limiter = new_limiter 0, sv_audit = audit_initial, sv_log_level = INFO, sv_cancelled = [],
     sv_nda = sample_off, sv_world = ()\<rparr>"

definition sample_tools :: "tool list" where
  "sample_tools = [\<lparr>tool_name = ''echo'', tool_description = ''says it again'', tool_input_schema = Null\<rparr>]"

definition sample_cancel :: "value" where
  "sample_cancel = json_obj [(''method'', String ''notifications/cancelled''),
     (''params'', json_obj [(''requestId'', Number (PosInt 5))])]"

definition sample_call :: "value" where
  "sample_call = json_obj [(''id'', Number (PosInt 5)), (''method'', String ''tools/call''),
     (''params'', json_obj [(''name'', String ''echo'')])]"

lemma sample_requests:
  "has_method ''notifications/cancelled'' sample_cancel" "param sample_cancel ''requestId'' = Number (PosInt 5)"
  "has_method ''tools/call'' sample_call" "value_get sample_call ''id'' = Some (Number (PosInt 5))"
  "str_or (param sample_call ''name'') [] = ''echo''"
  by (simp_all add: has_method_def sample_cancel_def sample_call_def param_def str_or_def)

theorem paging_complete_witness:
  "fetch_tools (sample_backend sample_tools) sample_text True sample_readings 1 None sample_server
   = Some (map tool_json sample_tools)"
  by (rule paging_complete) (simp_all add: sample_backend_def sample_tools_def)

theorem cancelled_call_refused_witness:
  "fst (handle_request (sample_backend []) sample_text True sample_readings sample_call
     (snd (handle_request (sample_backend []) sample_text True sample_readings sample_cancel sample_server)))
   = Ok (Some (rpc_result (Number (PosInt 5)) (text_result ''Request was cancelled'' True)))"
  using cancelled_call_refused [OF sample_requests(1,2) _ sample_requests(3,4) prod.collapse [symmetric]
      prod.collapse [symmetric], THEN conjunct1] by simp



theorem handle_request_ok_witness:
  "server_ok (snd (handle_request (sample_backend []) sample_text True sample_readings sample_call sample_server))"
  by (rule handle_request_ok)
    (simp_all add: picks_key_def sample_readings_def server_ok_def sample_server_def audit_initial_def
      registry_ok_def new_limiter_def with_limits_ok)

end
