(* ===== verification/Memory_Interface.thy ===== *)
theory Memory_Interface
  imports Prelude
begin

text \<open>
  The contract of a field in a byte-addressed memory: it occupies a range of addresses, reading
  it returns what was last written, writing it changes nothing outside its range, and reading it
  depends on its range only. Two fields with disjoint ranges do not disturb each other. The
  shared memory protocol rests on these laws for each of its fields.
\<close>

locale mem_field =
  fixes off :: nat and width :: nat
    and rd :: "bytes \<Rightarrow> 'a" and wr :: "'a \<Rightarrow> bytes \<Rightarrow> bytes"
  assumes rd_wr: "off + width \<le> length m \<Longrightarrow> rd (wr x m) = x"
    and wr_length: "off + width \<le> length m \<Longrightarrow> length (wr x m) = length m"
    and wr_outside: "off + width \<le> length m \<Longrightarrow> i < off \<or> off + width \<le> i \<Longrightarrow> i < length m \<Longrightarrow> wr x m ! i = m ! i"
    and rd_inside: "off + width \<le> length m \<Longrightarrow> length m' = length m \<Longrightarrow>
      (\<forall>i. off \<le> i \<longrightarrow> i < off + width \<longrightarrow> m' ! i = m ! i) \<Longrightarrow> rd m' = rd m"
begin

lemma wr_wr_rd: "off + width \<le> length m \<Longrightarrow> rd (wr y (wr x m)) = y"
  by (simp add: rd_wr wr_length)

text \<open>A range of addresses outside the field keeps its contents.\<close>

lemma wr_slice:
  assumes "off + width \<le> length m" "b \<le> off \<or> off + width \<le> a" "b \<le> length m"
  shows "take (b - a) (drop a (wr x m)) = take (b - a) (drop a m)"
proof (intro nth_equalityI)
  fix i assume "i < length (take (b - a) (drop a (wr x m)))"
  then have i: "a + i < b" "a + i < length m" using assms by (auto simp: wr_length)
  then have "wr x m ! (a + i) = m ! (a + i)" using assms by (intro wr_outside) auto
  then show "take (b - a) (drop a (wr x m)) ! i = take (b - a) (drop a m) ! i"
    using i assms by (simp add: wr_length)
qed (use assms in \<open>simp add: wr_length\<close>)

end

locale two_fields = one: mem_field off width rd wr + two: mem_field off' width' rd' wr'
  for off width :: nat and rd :: "bytes \<Rightarrow> 'a" and wr and off' width' :: nat and rd' :: "bytes \<Rightarrow> 'b" and wr' +
  assumes apart: "off + width \<le> off' \<or> off' + width' \<le> off"
begin

lemma keeps_second: "off + width \<le> length m \<Longrightarrow> off' + width' \<le> length m \<Longrightarrow> rd' (wr x m) = rd' m"
  using apart by (intro two.rd_inside) (auto simp: one.wr_length intro!: one.wr_outside)

lemma keeps_first: "off + width \<le> length m \<Longrightarrow> off' + width' \<le> length m \<Longrightarrow> rd (wr' x m) = rd m"
  using apart by (intro one.rd_inside) (auto simp: two.wr_length intro!: two.wr_outside)

end

text \<open>The overwriting of a range, and the fields of fixed width it implements.\<close>

definition mem_write :: "nat \<Rightarrow> bytes \<Rightarrow> bytes \<Rightarrow> bytes" where
  "mem_write off src m = take off m @ src @ drop (off + length src) m"

lemma mem_write_copy: "off + length src \<le> length m \<Longrightarrow> rs_copy_at m off src = Ok (mem_write off src m)"
  by (simp add: rs_copy_at_def mem_write_def)

lemma mem_write_length [simp]: "off + length src \<le> length m \<Longrightarrow> length (mem_write off src m) = length m"
  by (simp add: mem_write_def)

lemma mem_write_nth:
  "off + length src \<le> length m \<Longrightarrow> i < length m \<Longrightarrow>
   mem_write off src m ! i = (if off \<le> i \<and> i < off + length src then src ! (i - off) else m ! i)"
  by (auto simp: mem_write_def nth_append min_def)

lemma mem_write_same: "off + length src \<le> length m \<Longrightarrow> take (length src) (drop off (mem_write off src m)) = src"
  by (simp add: mem_write_def)

text \<open>A field that stores the image of its contents under an encoding of fixed width.\<close>

lemma mem_field_encoded:
  assumes "\<And>x. length (enc x) = width" "\<And>x. dec (enc x) = x"
  shows "mem_field off width (\<lambda>m. dec (take width (drop off m))) (\<lambda>x. mem_write off (enc x))"
proof unfold_locales
  fix m m' :: bytes assume l: "off + width \<le> length m" "length m' = length m"
    and eq: "\<forall>i. off \<le> i \<longrightarrow> i < off + width \<longrightarrow> m' ! i = m ! i"
  have "take width (drop off m') = take width (drop off m)"
    using l eq by (intro nth_equalityI) auto
  then show "dec (take width (drop off m')) = dec (take width (drop off m))" by simp
next
  fix m :: bytes and x assume l: "off + width \<le> length m"
  then show "dec (take width (drop off (mem_write off (enc x) m))) = x"
    using mem_write_same [of off "enc x" m] assms by simp
qed (auto simp: assms mem_write_nth)

end
