(* ===== verification/Shmem.thy ===== *)
theory Shmem
  imports Memory_Interface
begin

text \<open>
  The shared memory buffer: the server side \<open>ipc/shmem.rs\<close> and the client side
  \<open>client/src/transport/shmem.rs\<close>. Both map the same 64 KiB file and the same pair of auto-reset
  events, so one record is their shared state. The Windows variants are modelled; the other
  platforms have no events, and the client refuses to run there.

  Memory fences and the flushing of pages have no effect on the contents and are left out.
  The waiting of the client is split from the two halves of \<open>send_raw\<close> around it, so that
  server steps can fall in between; a step relation in a later theory interleaves them.
\<close>

subsection \<open>Layout\<close>

definition STATE_OFFSET :: nat where [simp]: "STATE_OFFSET = 0"
definition INPUT_LEN_OFFSET :: nat where [simp]: "INPUT_LEN_OFFSET = 1"
definition OUTPUT_LEN_OFFSET :: nat where [simp]: "OUTPUT_LEN_OFFSET = 5"
definition REQUEST_SEQ_OFFSET :: nat where [simp]: "REQUEST_SEQ_OFFSET = 9"
definition INPUT_BUFFER_OFFSET :: nat where [simp]: "INPUT_BUFFER_OFFSET = 16"
definition OUTPUT_BUFFER_OFFSET :: nat where [simp]: "OUTPUT_BUFFER_OFFSET = 4096"
definition TOTAL_BUFFER_SIZE :: nat where [simp]: "TOTAL_BUFFER_SIZE = 65536"

definition STATE_IDLE :: u8 where [simp]: "STATE_IDLE = 0"
definition STATE_REQ_READY :: u8 where [simp]: "STATE_REQ_READY = 1"
definition STATE_PROCESSING :: u8 where [simp]: "STATE_PROCESSING = 2"
definition STATE_RES_READY :: u8 where [simp]: "STATE_RES_READY = 3"
definition STATE_ERROR :: u8 where [simp]: "STATE_ERROR = 4"

record shared_memory =
  mmap :: bytes
  h_req_event :: bool
  h_res_event :: bool

subsection \<open>Fields\<close>

definition read_u32 :: "nat \<Rightarrow> bytes \<Rightarrow> u32" where
  "read_u32 off m = u32_from_le_bytes (take 4 (drop off m))"

definition write_u32 :: "nat \<Rightarrow> u32 \<Rightarrow> bytes \<Rightarrow> bytes" where
  "write_u32 off x m = mem_write off (u32_to_le_bytes x) m"

definition read_u8 :: "nat \<Rightarrow> bytes \<Rightarrow> u8" where
  "read_u8 off m = hd (take 1 (drop off m))"

definition write_u8 :: "nat \<Rightarrow> u8 \<Rightarrow> bytes \<Rightarrow> bytes" where
  "write_u8 off x m = mem_write off [x] m"

lemma mem_field_u32: "mem_field off 4 (read_u32 off) (write_u32 off)"
  using mem_field_encoded [of u32_to_le_bytes 4 u32_from_le_bytes off]
  by (simp add: read_u32_def [abs_def] write_u32_def [abs_def])

lemma mem_field_u8: "mem_field off (Suc 0) (read_u8 off) (write_u8 off)"
  using mem_field_encoded [of "\<lambda>x. [x]" 1 hd off]
  by (simp add: read_u8_def [abs_def] write_u8_def [abs_def])

definition get_state :: "shared_memory \<Rightarrow> u8" where
  "get_state b = read_u8 STATE_OFFSET (mmap b)"

definition set_state :: "u8 \<Rightarrow> shared_memory \<Rightarrow> shared_memory" where
  "set_state st b = b\<lparr>mmap := write_u8 STATE_OFFSET st (mmap b)\<rparr>"

definition get_input_len :: "shared_memory \<Rightarrow> u32" where
  "get_input_len b = read_u32 INPUT_LEN_OFFSET (mmap b)"

definition set_input_len :: "u32 \<Rightarrow> shared_memory \<Rightarrow> shared_memory" where
  "set_input_len len b = b\<lparr>mmap := write_u32 INPUT_LEN_OFFSET len (mmap b)\<rparr>"

definition get_output_len :: "shared_memory \<Rightarrow> u32" where
  "get_output_len b = read_u32 OUTPUT_LEN_OFFSET (mmap b)"

definition set_output_len :: "u32 \<Rightarrow> shared_memory \<Rightarrow> shared_memory" where
  "set_output_len len b = b\<lparr>mmap := write_u32 OUTPUT_LEN_OFFSET len (mmap b)\<rparr>"

definition get_request_seq :: "shared_memory \<Rightarrow> u32" where
  "get_request_seq b = read_u32 REQUEST_SEQ_OFFSET (mmap b)"

definition set_request_seq :: "u32 \<Rightarrow> shared_memory \<Rightarrow> shared_memory" where
  "set_request_seq seq b = b\<lparr>mmap := write_u32 REQUEST_SEQ_OFFSET seq (mmap b)\<rparr>"

subsection \<open>The server side\<close>

text \<open>
  Opening resizes the file to the buffer size (\<open>set_len\<close> truncates or extends with zeros) and
  resets the header; the events are opened with whatever signal they carry.
\<close>

definition create_or_open :: "bytes \<Rightarrow> bool \<Rightarrow> bool \<Rightarrow> shared_memory" where
  "create_or_open file req res =
     set_state STATE_IDLE (set_output_len 0 (set_input_len 0
       \<lparr>mmap = take TOTAL_BUFFER_SIZE (file @ replicate TOTAL_BUFFER_SIZE 0),
        h_req_event = req, h_res_event = res\<rparr>))"

text \<open>Waiting for a request: the spin loop may see the state, otherwise the event is consumed.\<close>

definition wait_for_request :: "shared_memory \<Rightarrow> shared_memory option" where
  "wait_for_request b =
     (if get_state b = STATE_REQ_READY then Some b
      else if h_req_event b then Some (b\<lparr>h_req_event := False\<rparr>) else None)"

definition signal_request :: "shared_memory \<Rightarrow> shared_memory" where
  "signal_request b = b\<lparr>h_req_event := True\<rparr>"

definition signal_response :: "shared_memory \<Rightarrow> shared_memory" where
  "signal_response b = b\<lparr>h_res_event := True\<rparr>"

definition read_input_raw :: "shared_memory \<Rightarrow> bytes rust" where
  "read_input_raw b =
     (let len = unat (get_input_len b) in
      if len > OUTPUT_BUFFER_OFFSET - INPUT_BUFFER_OFFSET then Err ''Input length exceeds buffer limit''
      else rs_slice (mmap b) INPUT_BUFFER_OFFSET (INPUT_BUFFER_OFFSET + len))"

definition from_utf8 :: "bytes \<Rightarrow> string rust" where
  "from_utf8 bs = str_from_utf8 bs"

definition read_input :: "shared_memory \<Rightarrow> string rust" where
  "read_input b =
     (let len = unat (get_input_len b) in
      if len > OUTPUT_BUFFER_OFFSET - INPUT_BUFFER_OFFSET then Err ''Input length exceeds buffer limit''
      else rbind (rs_slice (mmap b) INPUT_BUFFER_OFFSET (INPUT_BUFFER_OFFSET + len)) from_utf8)"

definition write_output_raw :: "bytes \<Rightarrow> shared_memory \<Rightarrow> shared_memory \<times> unit rust" where
  "write_output_raw data b =
     (if length data > TOTAL_BUFFER_SIZE - OUTPUT_BUFFER_OFFSET then
        (set_output_len 0 b, Err ''Response length exceeds output buffer limit'')
      else case rs_copy_at (mmap b) OUTPUT_BUFFER_OFFSET data of
        Ok m \<Rightarrow> (set_output_len (word_of_nat (length data)) (b\<lparr>mmap := m\<rparr>), Ok ())
      | Err e \<Rightarrow> (b, Err e)
      | Panic \<Rightarrow> (b, Panic))"

definition write_output :: "string \<Rightarrow> shared_memory \<Rightarrow> shared_memory \<times> unit rust" where
  "write_output response b =
     (let bs = as_bytes response in
      if length bs > TOTAL_BUFFER_SIZE - OUTPUT_BUFFER_OFFSET then
        (set_output_len 0 b, Err ''Response length exceeds output buffer limit'')
      else case rs_copy_at (mmap b) OUTPUT_BUFFER_OFFSET bs of
        Ok m \<Rightarrow> (set_output_len (word_of_nat (length bs)) (b\<lparr>mmap := m\<rparr>), Ok ())
      | Err e \<Rightarrow> (b, Err e)
      | Panic \<Rightarrow> (b, Panic))"

definition read_output :: "shared_memory \<Rightarrow> string rust" where
  "read_output b =
     (let len = unat (get_output_len b) in
      if len > TOTAL_BUFFER_SIZE - OUTPUT_BUFFER_OFFSET then Err ''Output length exceeds buffer limit''
      else rbind (rs_slice (mmap b) OUTPUT_BUFFER_OFFSET (OUTPUT_BUFFER_OFFSET + len)) from_utf8)"

definition write_input :: "string \<Rightarrow> shared_memory \<Rightarrow> shared_memory \<times> unit rust" where
  "write_input request b =
     (let bs = as_bytes request in
      if length bs > OUTPUT_BUFFER_OFFSET - INPUT_BUFFER_OFFSET then
        (b, Err ''Request length exceeds input buffer limit'')
      else case rs_copy_at (mmap b) INPUT_BUFFER_OFFSET bs of
        Ok m \<Rightarrow> (set_input_len (word_of_nat (length bs)) (b\<lparr>mmap := m\<rparr>), Ok ())
      | Err e \<Rightarrow> (b, Err e)
      | Panic \<Rightarrow> (b, Panic))"

subsection \<open>The client side\<close>

definition SharedMemory :: "string \<Rightarrow> 'a rust" where
  "SharedMemory msg = Err (''Shared memory error: '' @ msg)"

definition TimedOut :: "'a rust" where
  "TimedOut = Err ''Request timed out''"

definition StaleResponse :: "string \<Rightarrow> 'a rust" where
  "StaleResponse msg = Err (''Stale response: '' @ msg)"

record shmem_client =
  next_seq :: u32

text \<open>The first half of \<open>send_raw\<close>: publish the request. The result is the sequence number sent.\<close>

definition send_request :: "bytes \<Rightarrow> shmem_client \<Rightarrow> shared_memory \<Rightarrow> (u32 \<times> shmem_client \<times> shared_memory) rust" where
  "send_request data c b =
     (let max_input = OUTPUT_BUFFER_OFFSET - INPUT_BUFFER_OFFSET in
      if length data > max_input then
        SharedMemory (''Request '' @ dec_of_nat (length data) @ '' bytes exceeds input buffer limit ''
                      @ dec_of_nat max_input)
      else
        let b = set_input_len (word_of_nat (length data)) b in
        rbind (rs_copy_at (mmap b) INPUT_BUFFER_OFFSET data) (\<lambda>m.
          let b = b\<lparr>mmap := m\<rparr>;
              sent_seq = next_seq c;
              c = c\<lparr>next_seq := next_seq c + 1\<rparr>;
              b = set_request_seq sent_seq b;
              b = set_state STATE_REQ_READY b;
              b = signal_request b
          in Ok (sent_seq, c, b)))"

definition reset_to_idle :: "shared_memory \<Rightarrow> shared_memory" where
  "reset_to_idle b = set_state STATE_IDLE b"

definition cleanup_after_timeout :: "shared_memory \<Rightarrow> shared_memory" where
  "cleanup_after_timeout b = reset_to_idle (b\<lparr>h_res_event := False\<rparr>)"

text \<open>The waiting ends well when the state byte says so.\<close>

definition response_ready :: "shared_memory \<Rightarrow> bool" where
  "response_ready b \<longleftrightarrow> get_state b = STATE_RES_READY \<or> get_state b = STATE_ERROR"

definition read_output_len :: "shared_memory \<Rightarrow> nat" where
  "read_output_len b = unat (read_u32 OUTPUT_LEN_OFFSET (mmap b))"

text \<open>The second half of \<open>send_raw\<close>, after a successful wait.\<close>

definition receive_error :: "shared_memory \<Rightarrow> shared_memory \<times> bytes rust" where
  "receive_error b =
     (let b = reset_to_idle b; out_len = read_output_len b in
      (b, if out_len > 0 \<and> out_len \<le> TOTAL_BUFFER_SIZE - OUTPUT_BUFFER_OFFSET then
            rbind (rs_slice (mmap b) OUTPUT_BUFFER_OFFSET (OUTPUT_BUFFER_OFFSET + out_len)) (\<lambda>err_bytes.
              case str_from_utf8 err_bytes of
                Ok err_str \<Rightarrow> SharedMemory (''Server error: '' @ err_str)
              | _ \<Rightarrow> SharedMemory ''Server returned STATE_ERROR'')
          else SharedMemory ''Server returned STATE_ERROR''))"

definition receive_response :: "u32 \<Rightarrow> shared_memory \<Rightarrow> shared_memory \<times> bytes rust" where
  "receive_response sent_seq b =
     (if get_state b = STATE_ERROR then receive_error b
      else
        let b = reset_to_idle (b\<lparr>h_res_event := False\<rparr>); out_len = read_output_len b in
        (b, if out_len > TOTAL_BUFFER_SIZE - OUTPUT_BUFFER_OFFSET then
              SharedMemory (''Response length '' @ dec_of_nat out_len @ '' exceeds output buffer'')
            else if out_len = 0 then SharedMemory ''Server returned empty response (out_len=0)''
            else
              let echoed_seq = read_u32 REQUEST_SEQ_OFFSET (mmap b) in
              if echoed_seq \<noteq> sent_seq then
                StaleResponse (''Expected seq '' @ dec_of_nat (unat sent_seq) @ '', got ''
                               @ dec_of_nat (unat echoed_seq))
              else rs_slice (mmap b) OUTPUT_BUFFER_OFFSET (OUTPUT_BUFFER_OFFSET + out_len)))"

subsection \<open>The fields keep their contract\<close>

interpretation state_input: two_fields 0 "Suc 0" "read_u8 0" "write_u8 0" "Suc 0" 4 "read_u32 (Suc 0)" "write_u32 (Suc 0)"
  by (intro two_fields.intro mem_field_u8 mem_field_u32 two_fields_axioms.intro) simp

interpretation state_output: two_fields 0 "Suc 0" "read_u8 0" "write_u8 0" 5 4 "read_u32 5" "write_u32 5"
  by (intro two_fields.intro mem_field_u8 mem_field_u32 two_fields_axioms.intro) simp

interpretation state_seq: two_fields 0 "Suc 0" "read_u8 0" "write_u8 0" 9 4 "read_u32 9" "write_u32 9"
  by (intro two_fields.intro mem_field_u8 mem_field_u32 two_fields_axioms.intro) simp

interpretation input_output: two_fields "Suc 0" 4 "read_u32 (Suc 0)" "write_u32 (Suc 0)" 5 4 "read_u32 5" "write_u32 5"
  by (intro two_fields.intro mem_field_u32 two_fields_axioms.intro) simp

interpretation input_seq: two_fields "Suc 0" 4 "read_u32 (Suc 0)" "write_u32 (Suc 0)" 9 4 "read_u32 9" "write_u32 9"
  by (intro two_fields.intro mem_field_u32 two_fields_axioms.intro) simp

interpretation output_seq: two_fields 5 4 "read_u32 5" "write_u32 5" 9 4 "read_u32 9" "write_u32 9"
  by (intro two_fields.intro mem_field_u32 two_fields_axioms.intro) simp

text \<open>A region of the memory holds a given message at its start.\<close>

definition holds :: "nat \<Rightarrow> bytes \<Rightarrow> bytes \<Rightarrow> bool" where
  "holds off d m \<longleftrightarrow> off + length d \<le> length m \<and> take (length d) (drop off m) = d"

abbreviation mapped :: "bytes \<Rightarrow> bool" where
  "mapped m \<equiv> length m = 65536"

lemmas header_reads =
  state_input.one.rd_wr state_input.two.rd_wr state_output.two.rd_wr state_seq.two.rd_wr
  state_input.keeps_first state_input.keeps_second state_output.keeps_first state_output.keeps_second
  state_seq.keeps_first state_seq.keeps_second input_output.keeps_first input_output.keeps_second
  input_seq.keeps_first input_seq.keeps_second output_seq.keeps_first output_seq.keeps_second

lemmas header_lengths =
  state_input.one.wr_length state_input.two.wr_length state_output.two.wr_length state_seq.two.wr_length

text \<open>The header ends below both regions, so header writes leave messages alone.\<close>

lemma header_holds:
  assumes "mapped m" "16 \<le> off"
  shows "holds off d (write_u8 0 x m) \<longleftrightarrow> holds off d m" "holds off d (write_u32 (Suc 0) y m) \<longleftrightarrow> holds off d m"
    "holds off d (write_u32 5 y m) \<longleftrightarrow> holds off d m" "holds off d (write_u32 9 y m) \<longleftrightarrow> holds off d m"
proof -
  have sl: "holds off d (f m) \<longleftrightarrow> holds off d m" if "length (f m) = length m"
    "off + length d \<le> 65536 \<Longrightarrow> take (off + length d - off) (drop off (f m)) = take (off + length d - off) (drop off m)"
    for f :: "bytes \<Rightarrow> bytes"
    using that assms(1) by (auto simp: holds_def)
  show "holds off d (write_u8 0 x m) \<longleftrightarrow> holds off d m"
    using assms by (intro sl state_input.one.wr_slice) (simp_all add: header_lengths)
  show "holds off d (write_u32 (Suc 0) y m) \<longleftrightarrow> holds off d m"
    using assms by (intro sl state_input.two.wr_slice) (simp_all add: header_lengths)
  show "holds off d (write_u32 5 y m) \<longleftrightarrow> holds off d m"
    using assms by (intro sl state_output.two.wr_slice) (simp_all add: header_lengths)
  show "holds off d (write_u32 9 y m) \<longleftrightarrow> holds off d m"
    using assms by (intro sl state_seq.two.wr_slice) (simp_all add: header_lengths)
qed

text \<open>Conversely, writing a region leaves the header and the other region alone.\<close>

lemma region_slice:
  assumes "off + length d \<le> length m" "a + w \<le> off \<or> off + length d \<le> a" "a + w \<le> length m"
  shows "take w (drop a (mem_write off d m)) = take w (drop a m)"
  using assms by (intro nth_equalityI) (auto simp: mem_write_nth)

lemma region_header:
  assumes "mapped m" "16 \<le> off" "off + length d \<le> 65536"
  shows "read_u8 0 (mem_write off d m) = read_u8 0 m"
    "read_u32 (Suc 0) (mem_write off d m) = read_u32 (Suc 0) m"
    "read_u32 5 (mem_write off d m) = read_u32 5 m" "read_u32 9 (mem_write off d m) = read_u32 9 m"
  unfolding read_u8_def read_u32_def using assms by (subst region_slice; simp)+

lemma region_holds:
  assumes "mapped m" "off + length d \<le> 65536"
  shows "holds off d (mem_write off d m)"
    "off' + length d' \<le> off \<or> off + length d \<le> off' \<Longrightarrow> holds off' d' (mem_write off d m) \<longleftrightarrow> holds off' d' m"
  using assms mem_write_same [of off d m] region_slice [of off d m off' "length d'"]
  by (auto simp: holds_def)

subsection \<open>The operations in terms of the fields\<close>

lemmas shmem_defs = get_state_def set_state_def get_input_len_def set_input_len_def get_output_len_def
  set_output_len_def get_request_seq_def set_request_seq_def signal_request_def signal_response_def

lemma read_input_raw_holds:
  assumes "mapped (mmap b)" "holds 16 d (mmap b)" "get_input_len b = word_of_nat (length d)" "length d \<le> 4080"
  shows "read_input_raw b = Ok d"
  using assms by (simp add: read_input_raw_def unat_of_nat rs_slice_def holds_def)

lemma send_request_Ok:
  assumes "mapped (mmap b)" "length d \<le> 4080"
  shows "\<exists>b'. send_request d c b = Ok (next_seq c, c\<lparr>next_seq := next_seq c + 1\<rparr>, b')
    \<and> mapped (mmap b') \<and> holds 16 d (mmap b') \<and> get_input_len b' = word_of_nat (length d)
    \<and> get_request_seq b' = next_seq c \<and> get_state b' = STATE_REQ_READY
    \<and> h_req_event b' \<and> h_res_event b' = h_res_event b
    \<and> (\<forall>r. length r \<le> 61440 \<longrightarrow> holds 4096 r (mmap b') = holds 4096 r (mmap b))"
  using assms
  by (simp add: send_request_def shmem_defs Let_def mem_write_copy header_lengths header_reads header_holds
      region_header region_holds)

lemma write_output_raw_Ok:
  assumes "mapped (mmap b)" "length r \<le> 61440"
  shows "\<exists>b'. write_output_raw r b = (b', Ok ()) \<and> mapped (mmap b') \<and> holds 4096 r (mmap b')
    \<and> get_output_len b' = word_of_nat (length r) \<and> get_request_seq b' = get_request_seq b
    \<and> get_state b' = get_state b \<and> get_input_len b' = get_input_len b
    \<and> h_req_event b' = h_req_event b \<and> h_res_event b' = h_res_event b
    \<and> (\<forall>d. length d \<le> 4080 \<longrightarrow> holds 16 d (mmap b') = holds 16 d (mmap b))"
  using assms
  by (simp add: write_output_raw_def shmem_defs mem_write_copy header_lengths header_reads header_holds
      region_header region_holds)

lemma write_output_raw_too_long:
  assumes "mapped (mmap b)" "length r > 61440"
  shows "\<exists>b'. write_output_raw r b = (b', Err ''Response length exceeds output buffer limit'')
    \<and> mapped (mmap b') \<and> get_output_len b' = 0 \<and> get_request_seq b' = get_request_seq b
    \<and> get_state b' = get_state b \<and> h_req_event b' = h_req_event b \<and> h_res_event b' = h_res_event b"
  using assms
  by (simp add: write_output_raw_def shmem_defs header_lengths header_reads)

lemma write_output_is_raw: "write_output s b = write_output_raw (as_bytes s) b"
  by (simp add: write_output_def write_output_raw_def Let_def)

lemma set_state_facts [simp]:
  assumes "mapped (mmap b)"
  shows "get_state (set_state st b) = st" "mapped (mmap (set_state st b))"
    "get_input_len (set_state st b) = get_input_len b" "get_output_len (set_state st b) = get_output_len b"
    "get_request_seq (set_state st b) = get_request_seq b"
    "holds 16 d (mmap (set_state st b)) \<longleftrightarrow> holds 16 d (mmap b)"
    "holds 4096 d (mmap (set_state st b)) \<longleftrightarrow> holds 4096 d (mmap b)"
  using assms by (simp_all add: shmem_defs header_lengths header_reads header_holds)

lemma set_state_events [simp]:
  "h_req_event (set_state st b) = h_req_event b" "h_res_event (set_state st b) = h_res_event b"
  by (simp_all add: set_state_def)

lemma signal_facts [simp]:
  "mmap (signal_response b) = mmap b" "mmap (signal_request b) = mmap b"
  "get_state (signal_response b) = get_state b" "get_output_len (signal_response b) = get_output_len b"
  "get_request_seq (signal_response b) = get_request_seq b" "get_input_len (signal_response b) = get_input_len b"
  by (simp_all add: shmem_defs)

end
