(* ===== verification/Shmem_Protocol.thy ===== *)
theory Shmem_Protocol
  imports Shmem
begin

text \<open>
  The exchange of requests and responses through the shared memory, as a step relation that
  interleaves the client's \<open>send_raw\<close> (publish, wait, receive, or give up after the timeout) with
  the iterations of the server loop (\<open>run_shmem_loop_inner\<close>): wake up, take the request, reply.
  What the server computes for a request is a parameter: the output bytes and whether the
  handler reported an error. The log records the result of every completed call of \<open>send_raw\<close>.
\<close>

subsection \<open>Steps of the server loop\<close>

text \<open>Taking the request: the state moves to processing before the input is read.\<close>

definition server_take :: "shared_memory \<Rightarrow> shared_memory \<times> bytes rust" where
  "server_take b = (let b = set_state STATE_PROCESSING b in (b, read_input_raw b))"

text \<open>
  Replying: write the output, publish the state, signal. A response that does not fit is
  turned into the error state by the loop.
\<close>

definition server_reply :: "bool \<times> bytes \<Rightarrow> shared_memory \<Rightarrow> shared_memory" where
  "server_reply r b =
     (case write_output_raw (snd r) b of
        (b', Ok _) \<Rightarrow> signal_response (set_state (if fst r then STATE_ERROR else STATE_RES_READY) b')
      | (b', _) \<Rightarrow> signal_response (set_state STATE_ERROR b'))"

subsection \<open>The system\<close>

datatype client_phase = Ready | Awaiting u32 bytes
datatype server_phase = Polling | Handling bytes

record system =
  shm :: shared_memory
  client :: shmem_client
  cphase :: client_phase
  sphase :: server_phase
  log :: "(bytes \<times> bytes rust) list"

inductive shm_step :: "bool \<Rightarrow> (bytes \<Rightarrow> bool \<times> bytes) \<Rightarrow> system \<Rightarrow> system \<Rightarrow> bool" for timeouts reply where
  c_send: "cphase s = Ready \<Longrightarrow> send_request d (client s) (shm s) = Ok (seq, c, b) \<Longrightarrow>
     shm_step timeouts reply s (s\<lparr>shm := b, client := c, cphase := Awaiting seq d\<rparr>)"
| c_receive: "cphase s = Awaiting seq d \<Longrightarrow> response_ready (shm s) \<Longrightarrow>
     receive_response seq (shm s) = (b, r) \<Longrightarrow>
     shm_step timeouts reply s (s\<lparr>shm := b, cphase := Ready, log := log s @ [(d, r)]\<rparr>)"
| c_timeout: "timeouts \<Longrightarrow> cphase s = Awaiting seq d \<Longrightarrow>
     shm_step timeouts reply s (s\<lparr>shm := cleanup_after_timeout (shm s), cphase := Ready,
       log := log s @ [(d, TimedOut)]\<rparr>)"
| s_take: "sphase s = Polling \<Longrightarrow> wait_for_request (shm s) = Some b \<Longrightarrow> get_state b = STATE_REQ_READY \<Longrightarrow>
     server_take b = (b', Ok raw) \<Longrightarrow>
     shm_step timeouts reply s (s\<lparr>shm := b', sphase := Handling raw\<rparr>)"
| s_spurious: "sphase s = Polling \<Longrightarrow> wait_for_request (shm s) = Some b \<Longrightarrow> get_state b \<noteq> STATE_REQ_READY \<Longrightarrow>
     shm_step timeouts reply s (s\<lparr>shm := b\<rparr>)"
| s_reply: "sphase s = Handling raw \<Longrightarrow>
     shm_step timeouts reply s (s\<lparr>shm := server_reply (reply raw) (shm s), sphase := Polling\<rparr>)"

inductive_cases shm_step_elim: "shm_step timeouts reply s s'"

text \<open>A freshly opened buffer: the server polls, the client has sent nothing.\<close>

definition initial :: "bytes \<Rightarrow> bool \<Rightarrow> bool \<Rightarrow> system" where
  "initial file req res =
     \<lparr>shm = create_or_open file req res, client = \<lparr>next_seq = 1\<rparr>, cphase = Ready, sphase = Polling, log = []\<rparr>"

inductive shm_reachable :: "bool \<Rightarrow> (bytes \<Rightarrow> bool \<times> bytes) \<Rightarrow> system \<Rightarrow> bool" for timeouts reply where
  start: "shm_reachable timeouts reply (initial file req res)"
| more: "shm_reachable timeouts reply s \<Longrightarrow> shm_step timeouts reply s s' \<Longrightarrow> shm_reachable timeouts reply s'"

text \<open>The answer a call of \<open>send_raw\<close> should return for a request.\<close>

definition answer :: "bool \<times> bytes \<Rightarrow> bytes rust" where
  "answer r =
     (let out = snd r in
      if length out > TOTAL_BUFFER_SIZE - OUTPUT_BUFFER_OFFSET then SharedMemory ''Server returned STATE_ERROR''
      else if fst r then
        (if out \<noteq> [] then (case str_from_utf8 out of Ok s \<Rightarrow> SharedMemory (''Server error: '' @ s)
                             | _ \<Rightarrow> SharedMemory ''Server returned STATE_ERROR'')
         else SharedMemory ''Server returned STATE_ERROR'')
      else if out = [] then SharedMemory ''Server returned empty response (out_len=0)''
      else Ok out)"

subsection \<open>The invariant without timeouts\<close>

text \<open>The output area carries the reply to a request, and the state says which kind it is.\<close>

definition replied :: "bool \<times> bytes \<Rightarrow> shared_memory \<Rightarrow> bool" where
  "replied r b \<longleftrightarrow>
     (if length (snd r) > 61440 then get_state b = STATE_ERROR \<and> get_output_len b = 0
      else get_state b = (if fst r then STATE_ERROR else STATE_RES_READY)
         \<and> get_output_len b = word_of_nat (length (snd r)) \<and> holds 4096 (snd r) (mmap b))"

fun phase_inv :: "(bytes \<Rightarrow> bool \<times> bytes) \<Rightarrow> client_phase \<Rightarrow> server_phase \<Rightarrow> shared_memory \<Rightarrow> bool" where
  "phase_inv reply Ready sp b \<longleftrightarrow> sp = Polling \<and> get_state b = STATE_IDLE"
| "phase_inv reply (Awaiting seq d) sp b \<longleftrightarrow>
     length d \<le> 4080 \<and> get_request_seq b = seq
     \<and> (get_state b = STATE_REQ_READY \<and> sp = Polling \<and> holds 16 d (mmap b)
           \<and> get_input_len b = word_of_nat (length d)
      \<or> get_state b = STATE_PROCESSING \<and> sp = Handling d
      \<or> sp = Polling \<and> replied (reply d) b)"

definition exchange_inv :: "(bytes \<Rightarrow> bool \<times> bytes) \<Rightarrow> system \<Rightarrow> bool" where
  "exchange_inv reply s \<longleftrightarrow> mapped (mmap (shm s)) \<and> phase_inv reply (cphase s) (sphase s) (shm s)
     \<and> (\<forall>(d, r) \<in> set (log s). r = answer (reply d))"

lemma server_reply_replied:
  assumes "mapped (mmap b)"
  shows "replied r (server_reply r b) \<and> mapped (mmap (server_reply r b))
    \<and> get_request_seq (server_reply r b) = get_request_seq b"
proof (cases "length (snd r) \<le> 61440")
  case True
  from write_output_raw_Ok [OF assms True] obtain b' where
    b': "write_output_raw (snd r) b = (b', Ok ())" "mapped (mmap b')" "holds 4096 (snd r) (mmap b')"
      "get_output_len b' = word_of_nat (length (snd r))" "get_request_seq b' = get_request_seq b"
    by blast
  with True show ?thesis by (simp add: server_reply_def replied_def)
next
  case False
  then have "61440 < length (snd r)" by simp
  from write_output_raw_too_long [OF assms this] obtain b' where
    b': "write_output_raw (snd r) b = (b', Err ''Response length exceeds output buffer limit'')"
      "mapped (mmap b')" "get_output_len b' = 0" "get_request_seq b' = get_request_seq b"
    by blast
  with False show ?thesis by (simp add: server_reply_def replied_def)
qed

lemma replied_state: "replied r b \<Longrightarrow> get_state b = STATE_RES_READY \<or> get_state b = STATE_ERROR"
  by (auto simp: replied_def split: if_splits)

lemma output_slice:
  "mapped (mmap b) \<Longrightarrow> holds 4096 out (mmap b) \<Longrightarrow> rs_slice (mmap b) 4096 (4096 + length out) = Ok out"
  by (simp add: holds_def rs_slice_def)

lemma read_output_len_get: "read_output_len b = unat (get_output_len b)"
  by (simp add: read_output_len_def get_output_len_def)

lemma no_res_event [simp]: "mmap (b\<lparr>h_res_event := x\<rparr>) = mmap b" "get_state (b\<lparr>h_res_event := x\<rparr>) = get_state b"
  "get_output_len (b\<lparr>h_res_event := x\<rparr>) = get_output_len b" "get_request_seq (b\<lparr>h_res_event := x\<rparr>) = get_request_seq b"
  "get_state (b\<lparr>h_req_event := x\<rparr>) = get_state b" "get_request_seq (b\<lparr>h_req_event := x\<rparr>) = get_request_seq b"
  "get_output_len (b\<lparr>h_req_event := x\<rparr>) = get_output_len b" "get_input_len (b\<lparr>h_req_event := x\<rparr>) = get_input_len b"
  by (simp_all add: shmem_defs)

lemma receive_replied:
  assumes "mapped (mmap b)" "replied r b" "get_request_seq b = seq"
  shows "\<exists>b'. receive_response seq b = (b', answer r) \<and> mapped (mmap b') \<and> get_state b' = STATE_IDLE"
proof (cases "length (snd r) \<le> 61440")
  case False
  with assms show ?thesis
    by (simp add: receive_response_def receive_error_def replied_def reset_to_idle_def read_output_len_get
        answer_def Let_def)
next
  case True
  then have len: "unat (word_of_nat (length (snd r)) :: u32) = length (snd r)" by (simp add: unat_of_nat)
  let ?b = "set_state STATE_IDLE b" and ?b' = "set_state STATE_IDLE (b\<lparr>h_res_event := False\<rparr>)"
  have sl: "rs_slice (mmap x) 4096 (4096 + length (snd r)) = Ok (snd r)" if "x = ?b \<or> x = ?b'" for x
    using that assms True by (intro output_slice) (auto simp: replied_def)
  have seq: "read_u32 9 (mmap (set_state x (b\<lparr>h_res_event := False\<rparr>))) = seq" for x
    using assms(1,3) by (simp add: shmem_defs header_reads)
  from assms True show ?thesis
    by (auto simp: receive_response_def receive_error_def replied_def reset_to_idle_def read_output_len_get
        answer_def Let_def len sl seq split: rust.splits)
qed

lemma initial_inv: "exchange_inv reply (initial file req res)"
proof -
  let ?m = "take TOTAL_BUFFER_SIZE (file @ replicate TOTAL_BUFFER_SIZE 0)"
  let ?b = "set_output_len 0 (set_input_len 0 \<lparr>mmap = ?m, h_req_event = req, h_res_event = res\<rparr>)"
  have "mapped (mmap ?b)" by (simp add: shmem_defs header_lengths)
  then show ?thesis by (simp add: exchange_inv_def initial_def create_or_open_def)
qed

lemma send_inv:
  assumes "mapped (mmap b)" "send_request d c b = Ok (seq, c', b')"
  shows "mapped (mmap b') \<and> phase_inv reply (Awaiting seq d) Polling b'"
proof -
  have len: "length d \<le> 4080"
    using assms(2) by (auto simp: send_request_def Let_def SharedMemory_def split: if_splits)
  from send_request_Ok [OF assms(1) len, of c] assms(2) len show ?thesis by auto
qed

lemma wait_cases:
  assumes "wait_for_request b = Some b'"
  shows "mmap b' = mmap b" "get_state b' = get_state b" "get_request_seq b' = get_request_seq b"
    "get_output_len b' = get_output_len b" "get_input_len b' = get_input_len b"
  using assms by (auto simp: wait_for_request_def split: if_splits)

lemma replied_wait: "wait_for_request b = Some b' \<Longrightarrow> replied r b' \<longleftrightarrow> replied r b"
  using wait_cases [of b b'] by (simp add: replied_def)

lemma take_inv:
  assumes "mapped (mmap b)" "phase_inv reply cp Polling b" "get_state b = STATE_REQ_READY"
    "server_take b = (b', Ok raw)"
  shows "mapped (mmap b') \<and> phase_inv reply cp (Handling raw) b'"
proof (cases cp)
  case Ready
  with assms show ?thesis by simp
next
  case (Awaiting seq d)
  with assms replied_state [of "reply d" b] have h: "holds 16 d (mmap b)"
    "get_input_len b = word_of_nat (length d)" "length d \<le> 4080" "get_request_seq b = seq" by auto
  then have "read_input_raw (set_state STATE_PROCESSING b) = Ok d"
    using assms(1) by (intro read_input_raw_holds) auto
  with assms h Awaiting show ?thesis by (auto simp: server_take_def Let_def)
qed

lemma phase_wait:
  assumes "wait_for_request b = Some b'" "phase_inv reply cp sp b"
  shows "phase_inv reply cp sp b'"
  using assms wait_cases [OF assms(1)] replied_wait [OF assms(1)] by (cases cp) auto

lemma step_inv:
  assumes "shm_step False reply s s'" "exchange_inv reply s"
  shows "exchange_inv reply s'"
  using assms(1)
proof cases
  case (c_send d seq c b)
  with assms(2) send_inv [of "shm s" d "client s" seq c b reply] show ?thesis by (simp add: exchange_inv_def)
next
  case (c_receive seq d b r)
  then have "sphase s = Polling" "replied (reply d) (shm s)" "get_request_seq (shm s) = seq"
    using assms(2) by (auto simp: exchange_inv_def response_ready_def)
  with c_receive assms(2) receive_replied [of "shm s" "reply d" seq] show ?thesis
    by (auto simp: exchange_inv_def)
next
  case (s_take b b' raw)
  have "mapped (mmap b)" "phase_inv reply (cphase s) Polling b"
    using s_take assms(2) phase_wait [OF s_take(3), of reply "cphase s" Polling] wait_cases(1) [OF s_take(3)]
    by (auto simp: exchange_inv_def)
  from take_inv [OF this s_take(4,5)] s_take assms(2) show ?thesis by (simp add: exchange_inv_def)
next
  case (s_spurious b)
  with assms(2) phase_wait [OF s_spurious(3)] wait_cases(1) [OF s_spurious(3)] show ?thesis
    by (auto simp: exchange_inv_def)
next
  case (s_reply raw)
  with assms(2) obtain seq d where c: "cphase s = Awaiting seq d" "raw = d" "length d \<le> 4080"
    "get_request_seq (shm s) = seq"
    by (cases "cphase s") (auto simp: exchange_inv_def)
  with s_reply assms(2) server_reply_replied [of "shm s" "reply raw"] show ?thesis by (simp add: exchange_inv_def)
qed simp

lemma reachable_inv: "shm_reachable False reply s \<Longrightarrow> exchange_inv reply s"
  by (induction rule: shm_reachable.induct) (auto intro: initial_inv step_inv)

subsection \<open>Progress\<close>

text \<open>The path from each phase of a pending call to its completion.\<close>

definition completes :: "(bytes \<Rightarrow> bool \<times> bytes) \<Rightarrow> bytes \<Rightarrow> system \<Rightarrow> bool" where
  "completes reply d s \<longleftrightarrow> (\<exists>s'. (shm_step False reply)\<^sup>*\<^sup>* s s' \<and> cphase s' = Ready
     \<and> log s' = log s @ [(d, answer (reply d))])"

lemma completes_step:
  assumes "shm_step False reply s s1" "completes reply d s1" "log s1 = log s"
  shows "completes reply d s"
  using assms unfolding completes_def by (metis converse_rtranclp_into_rtranclp)

lemma completes_replied:
  assumes "mapped (mmap (shm s))" "cphase s = Awaiting seq d" "replied (reply d) (shm s)"
    "get_request_seq (shm s) = seq"
  shows "completes reply d s"
proof -
  obtain b where b: "receive_response seq (shm s) = (b, answer (reply d))"
    using receive_replied [OF assms(1,3,4)] by blast
  have "response_ready (shm s)" using replied_state [OF assms(3)] by (simp add: response_ready_def)
  let ?s' = "s\<lparr>shm := b, cphase := Ready, log := log s @ [(d, answer (reply d))]\<rparr>"
  have "shm_step False reply s ?s'" by (rule shm_step.c_receive [OF assms(2) \<open>response_ready (shm s)\<close> b])
  then show ?thesis
    unfolding completes_def by (intro exI [of _ ?s'] conjI) auto
qed

lemma completes_handling:
  assumes "mapped (mmap (shm s))" "cphase s = Awaiting seq d" "sphase s = Handling d"
    "get_request_seq (shm s) = seq"
  shows "completes reply d s"
proof -
  let ?s1 = "s\<lparr>shm := server_reply (reply d) (shm s), sphase := Polling\<rparr>"
  have "completes reply d ?s1"
    using assms server_reply_replied [OF assms(1), of "reply d"] by (intro completes_replied [of _ seq]) auto
  with shm_step.s_reply [OF assms(3)] show ?thesis by (rule completes_step) simp
qed

lemma completes_pending:
  assumes "exchange_inv reply s" "cphase s = Awaiting seq d"
  shows "completes reply d s"
proof -
  from assms consider (req) "get_state (shm s) = STATE_REQ_READY" "sphase s = Polling" "holds 16 d (mmap (shm s))"
      "get_input_len (shm s) = word_of_nat (length d)" "length d \<le> 4080"
    | (proc) "sphase s = Handling d" | (rep) "replied (reply d) (shm s)"
    by (auto simp: exchange_inv_def)
  then show ?thesis
  proof cases
    case req
    let ?b = "set_state STATE_PROCESSING (shm s)"
    have m: "mapped (mmap (shm s))" "get_request_seq (shm s) = seq" using assms by (auto simp: exchange_inv_def)
    have "wait_for_request (shm s) = Some (shm s)" using req by (simp add: wait_for_request_def)
    moreover have "server_take (shm s) = (?b, Ok d)"
      using req m read_input_raw_holds [of ?b d] by (simp add: server_take_def)
    ultimately have "shm_step False reply s (s\<lparr>shm := ?b, sphase := Handling d\<rparr>)"
      using req by (intro shm_step.s_take) auto
    moreover have "completes reply d (s\<lparr>shm := ?b, sphase := Handling d\<rparr>)"
      using m assms(2) by (intro completes_handling [of _ seq]) auto
    ultimately show ?thesis by (rule completes_step) simp
  qed (use assms in \<open>auto simp: exchange_inv_def intro: completes_handling completes_replied\<close>)
qed

subsection \<open>Late replies\<close>

text \<open>
  The server never writes the sequence field, so the check of the echoed sequence number in
  \<open>receive_response\<close> compares the field with what the same client wrote last.
\<close>

lemma reach_handling:
  assumes "length d \<le> 4080"
  shows "\<exists>s seq. shm_reachable timeouts reply s \<and> mapped (mmap (shm s)) \<and> cphase s = Awaiting seq d
    \<and> sphase s = Handling d \<and> log s = []"
proof -
  let ?i = "initial [] False False"
  have i: "shm_reachable timeouts reply ?i" "mapped (mmap (shm ?i))" "cphase ?i = Ready" "sphase ?i = Polling" "log ?i = []"
    using initial_inv [of reply "[]" False False] shm_reachable.start [of timeouts reply "[]" False False]
    by (simp_all add: exchange_inv_def) (simp_all add: initial_def)
  obtain seq c b where b: "send_request d (client ?i) (shm ?i) = Ok (seq, c, b)" "mapped (mmap b)"
    "holds 16 d (mmap b)" "get_input_len b = word_of_nat (length d)" "get_state b = STATE_REQ_READY"
    using send_request_Ok [OF i(2) assms, of "client ?i"] by blast
  let ?s = "?i\<lparr>shm := b, client := c, cphase := Awaiting seq d\<rparr>" and ?b = "set_state STATE_PROCESSING b"
  have s: "shm_reachable timeouts reply ?s" using i(1) shm_step.c_send [OF i(3) b(1)] by (rule shm_reachable.more)
  have "server_take b = (?b, Ok d)"
    using b assms read_input_raw_holds [of ?b d] by (simp add: server_take_def)
  then have "shm_step timeouts reply ?s (?s\<lparr>shm := ?b, sphase := Handling d\<rparr>)"
    using b(5) i(4) by (intro shm_step.s_take) (auto simp: wait_for_request_def)
  with s have "shm_reachable timeouts reply (?s\<lparr>shm := ?b, sphase := Handling d\<rparr>)" by (rule shm_reachable.more)
  then show ?thesis using b(2) i(5)
    by (intro exI [of _ "?s\<lparr>shm := ?b, sphase := Handling d\<rparr>"] exI [of _ seq]) simp
qed

text \<open>The client gives up and sends the next request while the server handles the first.\<close>

lemma resend_while_handling:
  assumes "shm_reachable True reply s" "mapped (mmap (shm s))" "cphase s = Awaiting seq d1"
    "sphase s = Handling d1" "length d2 \<le> 4080"
  shows "\<exists>s' seq'. shm_reachable True reply s' \<and> mapped (mmap (shm s')) \<and> cphase s' = Awaiting seq' d2
    \<and> sphase s' = Handling d1 \<and> get_request_seq (shm s') = seq' \<and> log s' = log s @ [(d1, TimedOut)]"
proof -
  let ?b = "cleanup_after_timeout (shm s)"
  let ?s = "s\<lparr>shm := ?b, cphase := Ready, log := log s @ [(d1, TimedOut)]\<rparr>"
  have s: "shm_reachable True reply ?s"
    using assms(1) shm_step.c_timeout [OF TrueI assms(3)] by (rule shm_reachable.more)
  have "mapped (mmap ?b)" using assms(2) by (simp add: cleanup_after_timeout_def reset_to_idle_def)
  from send_request_Ok [OF this assms(5), of "client s"] obtain seq' c b where
    b: "send_request d2 (client s) ?b = Ok (seq', c, b)" "mapped (mmap b)" "get_request_seq b = seq'"
    by blast
  let ?s' = "?s\<lparr>shm := b, client := c, cphase := Awaiting seq' d2\<rparr>"
  have "shm_step True reply ?s ?s'" using b(1) by (intro shm_step.c_send) simp_all
  with s have "shm_reachable True reply ?s'" by (rule shm_reachable.more)
  then show ?thesis using b assms(4) by (intro exI [of _ ?s'] exI [of _ seq']) simp
qed

lemma late_reply_received:
  assumes "shm_reachable True reply s" "mapped (mmap (shm s))" "cphase s = Awaiting seq d2"
    "sphase s = Handling d1" "get_request_seq (shm s) = seq"
  shows "\<exists>s'. shm_reachable True reply s' \<and> log s' = log s @ [(d2, answer (reply d1))]"
proof -
  let ?b = "server_reply (reply d1) (shm s)"
  let ?s = "s\<lparr>shm := ?b, sphase := Polling\<rparr>"
  have s: "shm_reachable True reply ?s" using assms(1) shm_step.s_reply [OF assms(4)] by (rule shm_reachable.more)
  have b: "replied (reply d1) ?b" "mapped (mmap ?b)" "get_request_seq ?b = seq"
    using server_reply_replied [OF assms(2), of "reply d1"] assms(5) by simp_all
  then obtain b' where b': "receive_response seq ?b = (b', answer (reply d1))"
    using receive_replied [OF b(2,1,3)] by blast
  let ?s' = "?s\<lparr>shm := b', cphase := Ready, log := log ?s @ [(d2, answer (reply d1))]\<rparr>"
  have "shm_step True reply ?s ?s'"
    using replied_state [OF b(1)] b' assms(3)
    by (intro shm_step.c_receive [of _ seq]) (simp_all add: response_ready_def)
  with s have "shm_reachable True reply ?s'" by (rule shm_reachable.more)
  then show ?thesis by (intro exI [of _ ?s']) simp
qed

subsection \<open>Properties\<close>


lemma reachable_steps: "(shm_step t reply)\<^sup>*\<^sup>* s s' \<Longrightarrow> shm_reachable t reply s \<Longrightarrow> shm_reachable t reply s'"
  by (induction rule: rtranclp_induct) (auto intro: shm_reachable.more)

text \<open>A state in which the first call of a client is pending.\<close>

lemma first_call_pending:
  "\<exists>s. shm_reachable t reply s \<and> cphase s = Awaiting 1 [7] \<and> log s = []"
proof -
  let ?i = "initial [] False False"
  have i: "mapped (mmap (shm ?i))" "cphase ?i = Ready" "client ?i = \<lparr>next_seq = 1\<rparr>" "log ?i = []"
    using initial_inv [of reply "[]" False False] by (auto simp: exchange_inv_def initial_def)
  obtain b where b: "send_request [7] (client ?i) (shm ?i) = Ok (1, \<lparr>next_seq = 2\<rparr>, b)"
    using send_request_Ok [OF i(1), of "[7]" "client ?i"] i(3) by auto
  let ?s = "?i\<lparr>shm := b, client := \<lparr>next_seq = 2\<rparr>, cphase := Awaiting 1 [7]\<rparr>"
  have "shm_reachable t reply ?s"
    using shm_step.c_send [OF i(2) b] by (rule shm_reachable.more [OF shm_reachable.start])
  then show ?thesis using i(4) by (intro exI [of _ ?s]) simp
qed




text \<open>C39: once the client may give up waiting, the check of the sequence number does not protect it: if
  the reply to a request arrives after its timeout and after the next request was published, the
  next call returns that late reply as its own result.\<close>

theorem late_reply_accepted:
  assumes "length d1 \<le> 4080" "length d2 \<le> 4080" "reply d1 = (False, out)" "out \<noteq> []" "length out \<le> 61440"
  shows "\<exists>s. shm_reachable True reply s \<and> log s = [(d1, TimedOut), (d2, Ok out)]"
proof -
  obtain s seq where s: "shm_reachable True reply s" "mapped (mmap (shm s))" "cphase s = Awaiting seq d1"
    "sphase s = Handling d1" "log s = []"
    using reach_handling [OF assms(1)] by blast
  obtain s' seq' where s': "shm_reachable True reply s'" "mapped (mmap (shm s'))" "cphase s' = Awaiting seq' d2"
    "sphase s' = Handling d1" "get_request_seq (shm s') = seq'" "log s' = [(d1, TimedOut)]"
    using resend_while_handling [OF s(1-4) assms(2)] s(5) by auto
  have "answer (reply d1) = Ok out" using assms(3-5) by (simp add: answer_def)
  then show ?thesis using late_reply_received [OF s'(1-5)] s'(6) by auto
qed

theorem late_reply_accepted_witness:
  "\<exists>s. shm_reachable True (\<lambda>d. (False, d)) s \<and> log s = [([1], TimedOut), ([2], Ok [1])]"
  by (rule late_reply_accepted) simp_all

end
