(* ===== verification/Client_Codec.thy ===== *)
theory Client_Codec
  imports Nda_Laws
begin

text \<open>
  The codec of the client library (\<open>client/src/transport/nda_codec.rs\<close>), a separate
  implementation of the same wire format: encoder, decoder (without the depth and size limits of
  the server), request builder and response parser. The two implementations are shown to agree:
  each side reads what the other side writes.

  The decoder recurses on the nesting of its input; the depth of the machine stack is not
  modelled.
\<close>

subsection \<open>Errors and method codes\<close>

text \<open>The variant \<open>Error::NdaProtocol\<close>, with its displayed form.\<close>

definition NdaProtocol :: "string \<Rightarrow> 'a rust" where
  "NdaProtocol msg = Err (''NDA protocol error: '' @ msg)"

definition method_to_code :: "string \<Rightarrow> u8 option" where
  "method_to_code method =
     (if method = ''initialize'' then Some METHOD_INITIALIZE
      else if method = ''tools/list'' then Some METHOD_TOOLS_LIST
      else if method = ''tools/call'' then Some METHOD_TOOLS_CALL
      else if method = ''ping'' then Some METHOD_PING
      else if method = ''logging/setLevel'' then Some METHOD_LOGGING_SET_LEVEL
      else if method = ''health/check'' then Some METHOD_HEALTH_CHECK
      else if method = ''resources/list'' then Some METHOD_RESOURCES_LIST
      else if method = ''resources/read'' then Some METHOD_RESOURCES_READ
      else if method = ''resources/templates/list'' then Some METHOD_RESOURCE_TEMPLATES_LIST
      else if method = ''prompts/list'' then Some METHOD_PROMPTS_LIST
      else if method = ''prompts/get'' then Some METHOD_PROMPTS_GET
      else if method = ''sampling/createMessage'' then Some METHOD_SAMPLING_CREATE
      else if method = ''notifications/initialized'' then Some NOTIF_INITIALIZED
      else if method = ''notifications/cancelled'' then Some NOTIF_CANCELLED
      else None)"

subsection \<open>Encoding\<close>

definition key_over_u16 :: "nat \<Rightarrow> 'a rust" where
  "key_over_u16 n = NdaProtocol (''TLV object key length '' @ dec_of_nat n @ '' exceeds u16 max'')"

fun encode_tlv_value :: "value \<Rightarrow> bytes \<Rightarrow> bytes \<times> unit rust"
  and encode_tlv_items :: "value list \<Rightarrow> bytes \<Rightarrow> bytes \<times> unit rust"
  and encode_tlv_entries :: "jmap \<Rightarrow> bytes \<Rightarrow> bytes \<times> unit rust" where
  "encode_tlv_value (String s) buf =
     (buf @ [0x01] @ len_u32 (length s) @ as_bytes s, Ok ())"
| "encode_tlv_value (Number n) buf =
     ((case number_as_i64 n of
         Some i \<Rightarrow> buf @ [0x02] @ u64_to_be_bytes i
       | None \<Rightarrow> (case number_as_f64 n of
           Some f \<Rightarrow> buf @ [0x07] @ u64_to_be_bytes f
         | None \<Rightarrow> buf @ [0x02] @ u64_to_be_bytes 0)), Ok ())"
| "encode_tlv_value (Bool b) buf = (buf @ [0x03] @ [if b then 1 else 0], Ok ())"
| "encode_tlv_value Null buf = (buf @ [0x04], Ok ())"
| "encode_tlv_value (Array arr) buf =
     encode_tlv_items arr (buf @ [0x05] @ len_u32 (length arr))"
| "encode_tlv_value (Object obj) buf =
     encode_tlv_entries obj (buf @ [0x06] @ len_u32 (length obj))"
| "encode_tlv_items [] buf = (buf, Ok ())"
| "encode_tlv_items (item # arr) buf =
     (case encode_tlv_value item buf of
        (buf', Ok _) \<Rightarrow> encode_tlv_items arr buf'
      | (buf', e) \<Rightarrow> (buf', e))"
| "encode_tlv_entries [] buf = (buf, Ok ())"
| "encode_tlv_entries ((key, val) # obj) buf =
     (if length key > 65535 then (buf, key_over_u16 (length key))
      else (case encode_tlv_value val (buf @ len_u16 (length key) @ as_bytes key) of
              (buf', Ok _) \<Rightarrow> encode_tlv_entries obj buf'
            | (buf', e) \<Rightarrow> (buf', e)))"

subsection \<open>Decoding\<close>

definition tlv_utf8 :: "string \<Rightarrow> bytes \<Rightarrow> string rust" where
  "tlv_utf8 what raw =
     (case str_from_utf8 raw of
        Ok s \<Rightarrow> Ok s
      | Err e \<Rightarrow> NdaProtocol (what @ '': invalid UTF-8: '' @ e)
      | Panic \<Rightarrow> Panic)"

definition client_count :: "string \<Rightarrow> bytes \<Rightarrow> nat rust" where
  "client_count kind bs =
     (if length bs < 5 then NdaProtocol (''TLV '' @ kind @ '': truncated count'')
      else rbind (rs_slice bs 1 5) (\<lambda>b. Ok (unat (u32_from_be_bytes b))))"

definition client_string :: "bytes \<Rightarrow> (value \<times> nat) rust" where
  "client_string bs =
     (if length bs < 5 then NdaProtocol ''TLV string: truncated length''
      else rbind (rs_slice bs 1 5) (\<lambda>b.
        let len = unat (u32_from_be_bytes b) in
        if length bs < 5 + len then NdaProtocol ''TLV string: truncated body''
        else rbind (rs_slice bs 5 (5 + len)) (\<lambda>raw.
          rbind (tlv_utf8 ''TLV string'' raw) (\<lambda>s. Ok (String s, 5 + len)))))"

primrec client_array_loop ::
  "(bytes \<Rightarrow> (value \<times> nat) rust) \<Rightarrow> nat \<Rightarrow> bytes \<Rightarrow> value list \<Rightarrow> nat \<Rightarrow> (value \<times> nat) rust" where
  "client_array_loop dec 0 bs arr off = Ok (Array arr, off)"
| "client_array_loop dec (Suc k) bs arr off =
     rbind (rs_slice_from bs off) (\<lambda>rest.
       rbind (dec rest) (\<lambda>(v, n). client_array_loop dec k bs (arr @ [v]) (off + n)))"

primrec client_object_loop ::
  "(bytes \<Rightarrow> (value \<times> nat) rust) \<Rightarrow> nat \<Rightarrow> bytes \<Rightarrow> jmap \<Rightarrow> nat \<Rightarrow> (value \<times> nat) rust" where
  "client_object_loop dec 0 bs obj off = Ok (Object obj, off)"
| "client_object_loop dec (Suc k) bs obj off =
     (if length bs < off + 2 then NdaProtocol ''TLV object: truncated key length''
      else rbind (rs_slice bs off (off + 2)) (\<lambda>kb.
        let klen = unat (u16_from_be_bytes kb); off = off + 2 in
        if length bs < off + klen then NdaProtocol ''TLV object: truncated key''
        else rbind (rs_slice bs off (off + klen)) (\<lambda>raw.
          rbind (tlv_utf8 ''TLV object key'' raw) (\<lambda>key.
            let off = off + klen in
            rbind (rs_slice_from bs off) (\<lambda>rest.
              rbind (dec rest) (\<lambda>(v, n).
                client_object_loop dec k bs (jmap_insert key v obj) (off + n)))))))"

text \<open>The loops call the decoder only on suffixes of the buffer that start behind the offset.\<close>

lemma client_array_loop_cong [fundef_cong]:
  assumes "k = k'" "bs = bs'" "arr = arr'" "off = off'"
    and "\<And>x. length x + off' \<le> length bs' \<Longrightarrow> dec x = dec' x"
  shows "client_array_loop dec k bs arr off = client_array_loop dec' k' bs' arr' off'"
  using assms(5) unfolding assms(1-4)
proof (induction k' arbitrary: arr' off')
  case (Suc k)
  show ?case
  proof (cases "off' \<le> length bs'")
    case True
    then have "dec (drop off' bs') = dec' (drop off' bs')" by (intro Suc.prems) simp
    moreover have "client_array_loop dec k bs' a (off' + n) = client_array_loop dec' k bs' a (off' + n)" for a n
      using Suc.prems by (intro Suc.IH) simp
    ultimately show ?thesis using True by (auto simp: rs_slice_from_def intro!: rbind_cong)
  qed (simp add: rs_slice_from_def)
qed simp

lemma client_object_loop_cong [fundef_cong]:
  assumes "k = k'" "bs = bs'" "obj = obj'" "off = off'"
    and "\<And>x. length x + off' \<le> length bs' \<Longrightarrow> dec x = dec' x"
  shows "client_object_loop dec k bs obj off = client_object_loop dec' k' bs' obj' off'"
  using assms(5) unfolding assms(1-4)
proof (induction k' arbitrary: obj' off')
  case (Suc k)
  have tail: "rbind (rs_slice_from bs' (off' + 2 + kl)) (\<lambda>rest. rbind (dec rest) (\<lambda>(v, n).
      client_object_loop dec k bs' (jmap_insert key v obj') (off' + 2 + kl + n)))
    = rbind (rs_slice_from bs' (off' + 2 + kl)) (\<lambda>rest. rbind (dec' rest) (\<lambda>(v, n).
      client_object_loop dec' k bs' (jmap_insert key v obj') (off' + 2 + kl + n)))" for kl key
  proof (cases "off' + 2 + kl \<le> length bs'")
    case True
    then have "dec (drop (off' + 2 + kl) bs') = dec' (drop (off' + 2 + kl) bs')" by (intro Suc.prems) simp
    moreover have "client_object_loop dec k bs' o1 (off' + 2 + kl + n)
        = client_object_loop dec' k bs' o1 (off' + 2 + kl + n)" for o1 n
      using Suc.prems by (intro Suc.IH) simp
    ultimately show ?thesis using True by (auto simp: rs_slice_from_def intro!: rbind_cong)
  qed (simp add: rs_slice_from_def)
  show ?case by (simp only: client_object_loop.simps Let_def tail)
qed simp

function decode_tlv_value :: "bytes \<Rightarrow> (value \<times> nat) rust" where
  "decode_tlv_value bs =
     (if bs = [] then NdaProtocol ''TLV: empty value''
      else rbind (rs_index bs 0) (\<lambda>tag.
        if tag = 0x01 then client_string bs
        else if tag = 0x02 then
          (if length bs < 9 then NdaProtocol ''TLV i64: truncated''
           else rbind (rs_slice bs 1 9) (\<lambda>b. Ok (json_i64 (u64_from_be_bytes b), 9)))
        else if tag = 0x03 then
          (if length bs < 2 then NdaProtocol ''TLV bool: truncated''
           else rbind (rs_index bs 1) (\<lambda>b. Ok (Bool (b \<noteq> 0), 2)))
        else if tag = 0x04 then Ok (Null, 1)
        else if tag = 0x05 then
          rbind (client_count ''array'' bs) (\<lambda>count. client_array_loop (\<lambda>rest. decode_tlv_value rest) count bs [] 5)
        else if tag = 0x06 then
          rbind (client_count ''object'' bs) (\<lambda>count. client_object_loop (\<lambda>rest. decode_tlv_value rest) count bs [] 5)
        else if tag = 0x07 then
          (if length bs < 9 then NdaProtocol ''TLV f64: truncated''
           else rbind (rs_slice bs 1 9) (\<lambda>b. Ok (json_f64 (u64_from_be_bytes b), 9)))
        else NdaProtocol (''TLV: unknown tag 0x'' @ hex02 tag)))"
  by pat_completeness auto
termination
  by (relation "measure length") auto

declare decode_tlv_value.simps [simp del]

subsection \<open>Frames\<close>

definition client_build_nda_frame :: "'c crypto \<Rightarrow> bytes \<Rightarrow> bytes" where
  "client_build_nda_frame C payload = NDA_MAGIC @ sha256 C payload @ payload"

definition client_build_nda_request :: "'c crypto \<Rightarrow> u8 \<Rightarrow> value \<Rightarrow> value \<Rightarrow> bytes rust" where
  "client_build_nda_request C method request_id data =
     try_buf (encode_tlv_value request_id [method]) (\<lambda>payload.
       if \<not> is_null data then
         try_buf (encode_tlv_value data payload) (\<lambda>payload. Ok (client_build_nda_frame C payload))
       else Ok (client_build_nda_frame C payload))"

record nda_response =
  nresp_status :: u8
  nresp_request_id :: "value"
  nresp_result :: "value"

definition parse_nda_response :: "'c crypto \<Rightarrow> bytes \<Rightarrow> nda_response rust" where
  "parse_nda_response C frame =
     (if length frame < FRAME_HEADER_SIZE + 1 then
        NdaProtocol (''NDA response too small ('' @ dec_of_nat (length frame) @ '' bytes)'')
      else if take 4 frame \<noteq> NDA_MAGIC then NdaProtocol ''bad NDA magic''
      else
        let payload = drop FRAME_HEADER_SIZE frame; merkle_field = take 32 (drop 4 frame) in
        if \<not> list_all (\<lambda>b. b = 0) merkle_field \<and> merkle_field \<noteq> sha256 C payload
        then NdaProtocol ''NDA Merkle root mismatch''
        else rbind (rs_index payload 0) (\<lambda>status.
          rbind (rs_slice_from payload 1) (\<lambda>rest.
            rbind (decode_tlv_value rest) (\<lambda>(request_id, consumed).
              let offset = 1 + consumed in
              rbind (if offset < length payload
                     then rbind (rs_slice_from payload offset) (\<lambda>rest.
                       rbind (decode_tlv_value rest) (\<lambda>(val, _). Ok val))
                     else Ok (json_obj []))
                (\<lambda>result. Ok \<lparr>nresp_status = status, nresp_request_id = request_id,
                                nresp_result = result\<rparr>)))))"

subsection \<open>The two encoders write the same bytes\<close>

lemma client_encode_fits:
  "keys_fit v \<Longrightarrow> encode_tlv_value v buf = (buf @ tlv v, Ok ())"
  "keys_fit_items xs \<Longrightarrow> encode_tlv_items xs buf = (buf @ tlv_items xs, Ok ())"
  "keys_fit_entries m \<Longrightarrow> encode_tlv_entries m buf = (buf @ tlv_entries m, Ok ())"
  by (induction v buf and xs buf and m buf
      rule: encode_tlv_value_encode_tlv_items_encode_tlv_entries.induct)
    (auto simp: encode_number_def split: option.split)

lemma client_encode_tlv: "tlv_encodable v \<Longrightarrow> encode_tlv_value v buf = (buf @ tlv v, Ok ())"
  by (simp add: tlv_encodable_def client_encode_fits tlv_fits_keys_fit)

subsection \<open>The client decodes what the server decodes\<close>

text \<open>One decoder answers wherever another does, with the same answer.\<close>

definition extends :: "(bytes \<Rightarrow> ('a \<times> nat) rust) \<Rightarrow> (bytes \<Rightarrow> ('a \<times> nat) rust) \<Rightarrow> bool" where
  "extends dec' dec \<longleftrightarrow> (\<forall>buf v n. dec buf = Ok (v, n) \<longrightarrow> dec' buf = Ok (v, n))"

lemma extendsD: "extends dec' dec \<Longrightarrow> dec buf = Ok (v, n) \<Longrightarrow> dec' buf = Ok (v, n)"
  by (simp add: extends_def)

lemma client_array_loop_extends:
  "extends dec' dec \<Longrightarrow> decode_array_loop dec k buf items off = Ok r \<Longrightarrow>
   client_array_loop dec' k buf items off = Ok r"
  by (induction k arbitrary: items off) (auto simp: rbind_eq_Ok dest: extendsD)

lemma tlv_utf8_Ok [simp]: "tlv_utf8 what raw = Ok s \<longleftrightarrow> str_from_utf8 raw = Ok s"
  by (auto simp: tlv_utf8_def NdaProtocol_def split: rust.splits)

lemma tlv_utf8_no_panic [simp]: "tlv_utf8 what raw \<noteq> Panic"
  by (auto simp: tlv_utf8_def NdaProtocol_def split: rust.splits)

lemma client_object_loop_step:
  assumes "off + 2 \<le> length buf" "off + 2 + kl \<le> length buf"
    and "kl = unat (u16_from_be_bytes [buf ! off, buf ! (off + 1)])"
  shows "client_object_loop dec (Suc n) buf m off =
    rbind (tlv_utf8 ''TLV object key'' (take kl (drop (off + 2) buf))) (\<lambda>key.
      rbind (dec (drop (off + 2 + kl) buf)) (\<lambda>(v, c).
        client_object_loop dec n buf (jmap_insert key v m) (off + 2 + kl + c)))"
proof -
  have "take 2 (drop off buf) = [buf ! off, buf ! (off + 1)]"
    using assms(1) by (simp add: numeral_2_eq_2 Cons_nth_drop_Suc [symmetric] take_Suc_conv_app_nth)
  with assms show ?thesis by (simp add: rs_slice_def rs_slice_from_def Let_def)
qed

lemma client_object_loop_stop:
  assumes "\<not> off + 2 \<le> length buf \<or>
     \<not> off + 2 + unat (u16_from_be_bytes [buf ! off, buf ! (off + 1)]) \<le> length buf"
  shows "\<exists>e. client_object_loop dec (Suc n) buf m off = Err e"
proof (cases "off + 2 \<le> length buf")
  case True
  then have "take 2 (drop off buf) = [buf ! off, buf ! (off + 1)]"
    by (simp add: numeral_2_eq_2 Cons_nth_drop_Suc [symmetric] take_Suc_conv_app_nth)
  with assms True show ?thesis by (auto simp: rs_slice_def Let_def NdaProtocol_def)
qed (simp add: NdaProtocol_def)

lemma client_object_loop_extends:
  assumes "extends dec' dec"
  shows "decode_object_loop dec k buf m off = Ok r \<Longrightarrow> client_object_loop dec' k buf m off = Ok r"
proof (induction k arbitrary: m off)
  case (Suc k)
  let ?kl = "unat (u16_from_be_bytes [buf ! off, buf ! (off + 1)])"
  have fit: "off + 2 \<le> length buf" "off + 2 + ?kl \<le> length buf"
    using decode_object_loop_stop [of off buf dec k m] Suc.prems by (auto simp del: decode_object_loop.simps)
  from Suc show ?case
    by (auto simp: decode_object_loop_step [OF fit refl] client_object_loop_step [OF fit refl] rbind_eq_Ok
        simp del: decode_object_loop.simps client_object_loop.simps dest!: extendsD [OF assms])
qed simp

lemma client_count_extends: "decode_tlv_count kind buf = Ok c \<Longrightarrow> client_count kind buf = Ok c"
  using slice_1_5 [of buf]
  by (auto simp: decode_tlv_count_def client_count_def rs_array_def rs_slice_def Let_def split: if_splits)

lemma client_string_extends: "decode_tlv_string buf = Ok r \<Longrightarrow> client_string buf = Ok r"
  using slice_1_5 [of buf]
  by (auto simp: decode_tlv_string_def client_string_def rs_array_def rs_slice_def Let_def rbind_eq_Ok split: if_splits)

lemma slice_1_9: "9 \<le> length buf \<Longrightarrow> take 8 (drop 1 buf) = map (\<lambda>i. buf ! i) [1, 2, 3, 4, 5, 6, 7, 8]"
  by (intro nth_equalityI) (auto simp: less_Suc_eq numeral_eq_Suc)

lemma client_extends_inner: "extends decode_tlv_value (\<lambda>buf. decode_json_value_inner buf depth)"
proof (induction depth rule: depth_induct)
  case (level depth)
  show ?case unfolding extends_def
  proof (intro allI impI)
    fix buf v n
    assume d: "decode_json_value_inner buf depth = Ok (v, n)"
    have depth: "depth \<le> 32" "buf \<noteq> []"
      using d by (subst (asm) decode_json_value_inner.simps, simp split: if_splits)+
    note dec = level [OF depth(1)]
    from d depth slice_1_9 [of buf] client_string_extends [of buf "(v, n)"]
      client_array_loop_extends [OF dec, of _ buf "[]" 5 "(v, n)"]
      client_object_loop_extends [OF dec, of _ buf "[]" 5 "(v, n)"]
      client_count_extends [of _ buf]
    show "decode_tlv_value buf = Ok (v, n)"
      by (subst decode_tlv_value.simps, subst (asm) decode_json_value_inner.simps)
        (auto simp: rs_index_def rs_slice_def rs_array_def decode_tlv_integer_def decode_tlv_float_def
          decode_tlv_bool_def rbind_eq_Ok split: if_splits)
  qed
qed

lemma client_decodes: "decode_json_value buf = Ok (v, n) \<Longrightarrow> decode_tlv_value buf = Ok (v, n)"
  using extendsD [OF client_extends_inner] by (simp add: decode_json_value_def)

interpretation client_tlv: prefix_codec tlv decode_tlv_value tlv_encodable
  by unfold_locales (rule client_decodes [OF decode_tlv])

subsection \<open>Totality of the client decoder\<close>

lemma client_array_loop_within:
  assumes "\<And>x. length x + off \<le> length buf \<Longrightarrow> decodes_within x (dec x)" "0 < off" "off \<le> length buf"
  shows "decodes_within buf (client_array_loop dec k buf items off)"
  using assms
proof (induction k arbitrary: items off)
  case (Suc k)
  have w: "decodes_within (drop off buf) (dec (drop off buf))" using Suc.prems by simp
  have "decodes_within buf (client_array_loop dec k buf (items @ [v]) (off + c))"
    if "dec (drop off buf) = Ok (v, c)" for v c
    using w that Suc.prems by (intro Suc.IH) auto
  with w Suc.prems(3) show ?case
    by (cases "dec (drop off buf)") (auto simp: rs_slice_from_def)
qed simp

lemma client_object_loop_within:
  assumes "\<And>x. length x + off \<le> length buf \<Longrightarrow> decodes_within x (dec x)" "0 < off" "off \<le> length buf"
  shows "decodes_within buf (client_object_loop dec k buf m off)"
  using assms
proof (induction k arbitrary: m off)
  case (Suc k)
  let ?kl = "unat (u16_from_be_bytes [buf ! off, buf ! (off + 1)])"
  show ?case
  proof (cases "off + 2 \<le> length buf \<and> off + 2 + ?kl \<le> length buf")
    case False
    then show ?thesis using client_object_loop_stop [of off buf dec k m] by auto
  next
    case True
    let ?rest = "drop (off + 2 + ?kl) buf"
    have w: "decodes_within ?rest (dec ?rest)" using Suc.prems True by simp
    have "decodes_within buf (client_object_loop dec k buf m' (off + 2 + ?kl + c))"
      if d: "dec ?rest = Ok (v, c)" for v c m'
    proof -
      have "c \<le> length ?rest" using w d by simp
      then have "off + 2 + ?kl + c \<le> length buf" using True [THEN conjunct2] unfolding length_drop by linarith
      then show ?thesis using Suc.prems by (intro Suc.IH) auto
    qed
    with w show ?thesis
      using True tlv_utf8_no_panic [of "''TLV object key''" "take ?kl (drop (off + 2) buf)"]
      by (auto simp: client_object_loop_step [OF _ _ refl] rbind_def simp del: client_object_loop.simps
          split: rust.splits)
  qed
qed simp

lemma client_string_within: "decodes_within buf (client_string buf)"
  by (auto simp: client_string_def rs_slice_def Let_def rbind_def NdaProtocol_def split: rust.split)

lemma client_count_cases:
  "client_count kind buf = Ok c \<Longrightarrow> 5 \<le> length buf" "client_count kind buf \<noteq> Panic"
  by (auto simp: client_count_def NdaProtocol_def rs_slice_def split: if_splits)

lemma client_within: "decodes_within buf (decode_tlv_value buf)"
proof (induction buf rule: length_induct)
  case (1 buf)
  have dec: "decodes_within x (decode_tlv_value x)" if "length x + 5 \<le> length buf" for x
    using that by (intro 1 [rule_format]) linarith
  have "decodes_within buf (client_array_loop decode_tlv_value c buf [] 5)" if "5 \<le> length buf" for c
    using that by (intro client_array_loop_within dec) auto
  then have arr: "decodes_within buf (rbind (client_count ''array'' buf) (\<lambda>c. client_array_loop decode_tlv_value c buf [] 5))"
    using client_count_cases [of "''array''" buf] by (cases "client_count ''array'' buf") auto
  have "decodes_within buf (client_object_loop decode_tlv_value c buf [] 5)" if "5 \<le> length buf" for c
    using that by (intro client_object_loop_within dec) auto
  then have obj: "decodes_within buf (rbind (client_count ''object'' buf) (\<lambda>c. client_object_loop decode_tlv_value c buf [] 5))"
    using client_count_cases [of "''object''" buf] by (cases "client_count ''object'' buf") auto
  from arr obj client_string_within [of buf] show ?case
    by (subst decode_tlv_value.simps) (auto simp: NdaProtocol_def rs_index_def rs_slice_def Suc_le_eq)
qed

lemma client_parse_no_panic: "parse_nda_response C f \<noteq> Panic"
proof -
  have np: "decode_tlv_value buf \<noteq> Panic" for buf using client_within [of buf] by auto
  have "n \<le> length buf" if "decode_tlv_value buf = Ok (v, n)" for buf v n
    using client_within [of buf] that by simp
  then show ?thesis
    by (fastforce simp: parse_nda_response_def Let_def rbind_eq_Panic NdaProtocol_def np rs_index_def
        rs_slice_from_def split: if_splits)
qed

subsection \<open>Requests and responses across the two implementations\<close>

lemma client_request_frame:
  assumes "tlv_encodable i" "tlv_encodable d"
  shows "client_build_nda_request C m i d = Ok (framed NDA_MAGIC (sha256 C (request_payload m i d)) (request_payload m i d))"
  using assms
  by (simp add: client_build_nda_request_def client_encode_tlv request_payload_def client_build_nda_frame_def framed_def)

lemma parse_response_framed:
  assumes "tlv_encodable i" "tlv_encodable r"
  shows "parse_nda_response C (framed NDA_MAGIC (replicate 32 0) (s # tlv i @ tlv r))
    = Ok \<lparr>nresp_status = s, nresp_request_id = i, nresp_result = r\<rparr>"
proof -
  have "0 < length (tlv r)" by (rule server_tlv.enc_nonempty [OF assms(2)])
  then show ?thesis
    using client_tlv.dec_enc [OF assms(1), of "tlv r"] client_tlv.dec_enc_exact [OF assms(2)]
    by (simp add: parse_nda_response_def rs_index_def rs_slice_from_def Let_def list_all_iff)
qed

lemma response_frames:
  "build_nda_response_raw s it rt = framed NDA_MAGIC (replicate 32 0) (s # it @ rt)"
  "build_nda_response_raw_text s it t = framed NDA_MAGIC (replicate 32 0) (s # it @ tlv (String t))"
  "build_nda_error_raw it t = framed NDA_MAGIC (replicate 32 0) (1 # it @ tlv (String t))"
  "tlv_encodable i \<Longrightarrow> tlv_encodable r \<Longrightarrow>
   build_nda_response s i r = Ok (framed NDA_MAGIC (replicate 32 0) (s # tlv i @ tlv r))"
  by (simp_all add: build_nda_response_raw_def build_nda_response_raw_text_def build_nda_error_raw_def
      build_nda_response_def build_nda_response_frame_def encode_tlv framed_def)

lemma method_codes_agree: "method_to_code s = Some m \<Longrightarrow> method_from_str s = Some m"
  by (simp add: method_to_code_def method_from_str_def split: if_split_asm)

subsection \<open>Properties\<close>

text \<open>C30: a request the client library builds is accepted by the server's decoding parser, with digest
  checking on or off, and returns the method, identifier and data the client passed.\<close>

theorem client_request_accepted:
  assumes "digests_32 C" "tlv_encodable i" "tlv_encodable d" "method_to_code name = Some m"
  shows "\<exists>f. client_build_nda_request C m i d = Ok f \<and> is_nda_frame f \<and> method_name m = name
    \<and> parse_nda_request C g oauth2 f = Ok \<lparr>nr_method = m, nr_request_id = i, nr_data = d\<rparr>"
proof -
  let ?p = "request_payload m i d"
  let ?f = "framed NDA_MAGIC (sha256 C ?p) ?p"
  have name: "method_from_str name = Some m" by (rule method_codes_agree [OF assms(4)])
  then have known: "method_name m = name" "method_name m \<noteq> ''unknown''"
    by (simp_all add: method_from_str_iff)
  have clear: "and m FLAG_ENCRYPTED = 0"
    using method_name_known [OF known(2)] by (elim insertE emptyE) simp_all
  have "frame_payload C g oauth2 ?f = Ok (False, ?p)"
    using assms(1) by (simp add: frame_payload_plain verify_merkle_def digests_32_def)
  from parse_payload_request [OF this assms(2,3)] show ?thesis
    using client_request_frame [OF assms(2,3)] mask_clear [OF clear] known(1)
    by (intro exI [of _ ?f]) (simp add: is_nda_frame_def)
qed

theorem client_request_accepted_witness:
  "\<exists>f. client_build_nda_request sample_crypto 4 (Number (PosInt 5)) Null = Ok f \<and> is_nda_frame f
    \<and> method_name 4 = ''ping''
    \<and> parse_nda_request sample_crypto (sample_globals None) False f
        = Ok \<lparr>nr_method = 4, nr_request_id = Number (PosInt 5), nr_data = Null\<rparr>"
  by (rule client_request_accepted)
    (simp_all add: sample_digests tlv_encodable_def method_to_code_def)

text \<open>C31: the client reads every form of response the server builds: a response built from values, a
  raw response with a pre-encoded result, a text result, and an error, each with its status, the
  identifier echoed and the result.\<close>

theorem server_response_read:
  assumes "tlv_encodable i" "tlv_encodable r" "tlv_encodable (String t)"
  shows "(\<exists>f. build_nda_response s i r = Ok f
      \<and> parse_nda_response C f = Ok \<lparr>nresp_status = s, nresp_request_id = i, nresp_result = r\<rparr>)
    \<and> parse_nda_response C (build_nda_response_raw s (tlv i) (tlv r))
        = Ok \<lparr>nresp_status = s, nresp_request_id = i, nresp_result = r\<rparr>
    \<and> parse_nda_response C (build_nda_response_raw_text s (tlv i) t)
        = Ok \<lparr>nresp_status = s, nresp_request_id = i, nresp_result = String t\<rparr>
    \<and> parse_nda_response C (build_nda_error_raw (tlv i) t)
        = Ok \<lparr>nresp_status = STATUS_ERROR, nresp_request_id = i, nresp_result = String t\<rparr>"
  using assms by (simp add: response_frames parse_response_framed del: tlv.simps)

theorem server_response_read_witness:
  "parse_nda_response sample_crypto (build_nda_error_raw (tlv Null) ''no'')
     = Ok \<lparr>nresp_status = 1, nresp_request_id = Null, nresp_result = String ''no''\<rparr>"
  using server_response_read [of Null "Bool True" "''no''" 0 sample_crypto]
  by (simp add: tlv_encodable_def rust_str_ascii)


end
