(* ===== verification/Nmcp_Binary.thy ===== *)
theory Nmcp_Binary
  imports Json_Rpc_Laws Shmem_Protocol Client_Codec
begin

text \<open>
  The dispatchers of the binary and of the shared-memory transport (\<open>protocol/nmcp_binary.rs\<close>):
  the native frame dispatcher, the JSON dispatcher of the shared-memory loop, and one iteration of
  that loop. \<open>handle_nda_frame\<close> of \<open>json_rpc.rs\<close>, which serves native frames on standard
  input, is here too. The phase recorder only measures times, and the delay of a ping is a sleep;
  both are left out. The JSON parser and printer are the record \<open>json_text\<close>; printing a value
  cannot fail.
\<close>

record json_text =
  from_str :: "string \<Rightarrow> string + value"
  to_string :: "value \<Rightarrow> string"

subsection \<open>Helpers\<close>

definition HEX :: "char list" where
  "HEX = ''0123456789abcdef''"

definition hex_encode :: "bytes \<Rightarrow> string" where
  "hex_encode bs = concat (map (\<lambda>b. [HEX ! unat (drop_bit 4 b), HEX ! unat (and b 0xf)]) bs)"

definition decode_req_data :: "bytes \<Rightarrow> value rust" where
  "decode_req_data d = (if d = [] then Ok Null else rbind (decode_json_value d) (\<lambda>(v, _). Ok v))"

definition build_response_value :: "bytes \<Rightarrow> value \<Rightarrow> bytes rust" where
  "build_response_value id_tlv result =
     try_buf (encode_json_value result []) (\<lambda>tlv. Ok (build_nda_response_raw STATUS_OK id_tlv tlv))"

text \<open>The acknowledgement of the methods without a result.\<close>

definition ack :: "bytes \<Rightarrow> bytes" where
  "ack id_tlv = build_nda_response_raw STATUS_OK id_tlv EMPTY_OBJECT_TLV"

subsection \<open>The native dispatcher\<close>

definition nda_initialize :: "bytes \<Rightarrow> bytes rust" where
  "nda_initialize id_tlv =
     (case encode_json_value (build_initialize_response False) [] of
        (result_tlv, Ok _) \<Rightarrow> Ok (build_nda_response_raw STATUS_OK id_tlv result_tlv)
      | (_, Err e) \<Rightarrow> Ok (build_nda_error_raw id_tlv (''Encoding error: '' @ e))
      | (_, Panic) \<Rightarrow> Panic)"

definition nda_tools_list :: "'w backend \<Rightarrow> bytes \<Rightarrow> 'w server \<Rightarrow> bytes rust \<times> 'w server" where
  "nda_tools_list B id_tlv s =
     (case encoded_tools_list_result (bk_generation B) (bk_get_tools B) (sv_nda s) (sv_world s) of (bs, g, w) \<Rightarrow>
        (Ok (build_nda_response_frame ([STATUS_OK] @ id_tlv @ bs)), s\<lparr>sv_nda := g, sv_world := w\<rparr>))"

definition merkle_of :: "bytes \<Rightarrow> 'w server \<Rightarrow> string option" where
  "merkle_of raw s =
     (if merkle_enabled (sv_nda s) \<and> length raw \<ge> 36 then Some (hex_encode (take 32 (drop 4 raw))) else None)"

text \<open>The tool call proper: in binary form when the request carries arguments.\<close>

definition nda_run_tool ::
  "'w backend \<Rightarrow> text_ops \<Rightarrow> readings \<Rightarrow> string option \<Rightarrow> bytes \<Rightarrow> string \<Rightarrow> bytes option \<Rightarrow> 'w server
   \<Rightarrow> bytes \<times> 'w server" where
  "nda_run_tool B T rd merkle id_tlv name args s =
     (case (case args of Some args_tlv \<Rightarrow> bk_call_tool_binary B name args_tlv (sv_world s)
                       | None \<Rightarrow> bk_call_tool B name Null (sv_world s)) of (result, arrived, w) \<Rightarrow>
        let s = s\<lparr>sv_world := w, sv_cancelled := fold insert_cancelled arrived (sv_cancelled s)\<rparr> in
        (case result of
           Inr res \<Rightarrow> (build_nda_response_raw_text STATUS_OK id_tlv res, audit_call_merkle rd name Success merkle s)
         | Inl e \<Rightarrow> (build_nda_error_raw id_tlv (tool_error_text T name e),
                     audit_call_merkle rd name (Error e) merkle s)))"

definition nda_tools_call ::
  "'w backend \<Rightarrow> text_ops \<Rightarrow> readings \<Rightarrow> bytes \<Rightarrow> bytes \<Rightarrow> bytes \<Rightarrow> 'w server \<Rightarrow> bytes rust \<times> 'w server" where
  "nda_tools_call B T rd raw id_tlv data s =
     (let merkle = merkle_of raw s in
      case extract_tools_call_fields data of
        Panic \<Rightarrow> (Panic, s)
      | Err e \<Rightarrow>
          (Ok (build_nda_error_raw id_tlv (''Malformed tools/call payload: '' @ e)),
           audit_call_merkle rd [] (Rejected (''malformed payload: '' @ e)) merkle s)
      | Ok (name_slice, args_slice) \<Rightarrow>
          (let name = (case name_slice of Some n \<Rightarrow> n | None \<Rightarrow> []) in
           case check_rate_limit rd s of (ok, s) \<Rightarrow>
             if \<not> ok then
               (Ok (build_nda_error_raw id_tlv (''Rate limit exceeded for tool '' @ quoted name @ ''.'')),
                audit_call_merkle rd name (Rejected ''rate limited'') merkle s)
             else (case nda_run_tool B T rd merkle id_tlv name args_slice s of (f, s) \<Rightarrow> (Ok f, s))))"

text \<open>The methods that decode their data first.\<close>

definition with_data ::
  "bytes \<Rightarrow> bytes \<Rightarrow> (value \<Rightarrow> 'w server \<Rightarrow> bytes rust \<times> 'w server) \<Rightarrow> 'w server \<Rightarrow> bytes rust \<times> 'w server" where
  "with_data id_tlv data f s =
     (case decode_req_data data of
        Ok v \<Rightarrow> f v s
      | Err e \<Rightarrow> (Ok (build_nda_error_raw id_tlv (''Invalid request data: '' @ e)), s)
      | Panic \<Rightarrow> (Panic, s))"

definition cursor_of :: "value \<Rightarrow> string option" where
  "cursor_of data = Option.bind (value_get data ''cursor'') as_str"

definition reply_value :: "bytes \<Rightarrow> value \<times> 'w server \<Rightarrow> bytes rust \<times> 'w server" where
  "reply_value id_tlv r = (build_response_value id_tlv (fst r), snd r)"

definition reply_value_or_error :: "text_ops \<Rightarrow> bytes \<Rightarrow> (string + value) \<times> 'w server \<Rightarrow> bytes rust \<times> 'w server" where
  "reply_value_or_error T id_tlv r =
     (case r of
        (Inr result, s) \<Rightarrow> (build_response_value id_tlv result, s)
      | (Inl e, s) \<Rightarrow> (Ok (build_nda_error_raw id_tlv (sanitize_error T e)), s))"

definition nda_data_method ::
  "'w backend \<Rightarrow> text_ops \<Rightarrow> u8 \<Rightarrow> bytes \<Rightarrow> value \<Rightarrow> 'w server \<Rightarrow> bytes rust \<times> 'w server" where
  "nda_data_method B T method id_tlv d s =
     (if method = METHOD_RESOURCES_LIST then
        reply_value id_tlv (with_world (bk_resources_list B (cursor_of d)) s)
      else if method = METHOD_RESOURCES_READ then
        reply_value_or_error T id_tlv (with_world (bk_resources_read B (str_or (value_index d ''uri'') [])) s)
      else if method = METHOD_RESOURCE_TEMPLATES_LIST then
        reply_value id_tlv (with_world (bk_templates_list B (cursor_of d)) s)
      else if method = METHOD_PROMPTS_LIST then
        reply_value id_tlv (with_world (bk_prompts_list B (cursor_of d)) s)
      else if method = METHOD_PROMPTS_GET then
        reply_value_or_error T id_tlv
          (with_world (bk_prompts_get B (str_or (value_index d ''name'') []) (value_index d ''arguments'')) s)
      else reply_value_or_error T id_tlv (with_world (bk_sampling B d) s))"

definition data_methods :: "u8 list" where
  "data_methods = [METHOD_RESOURCES_LIST, METHOD_RESOURCES_READ, METHOD_RESOURCE_TEMPLATES_LIST,
     METHOD_PROMPTS_LIST, METHOD_PROMPTS_GET, METHOD_SAMPLING_CREATE]"

definition nda_progress :: "'w backend \<Rightarrow> bytes \<Rightarrow> bytes \<Rightarrow> 'w server \<Rightarrow> bytes rust \<times> 'w server" where
  "nda_progress B id_tlv data s =
     (case decode_req_data data of
        Ok d \<Rightarrow> (Ok (ack id_tlv), s\<lparr>sv_world := bk_progress B d (sv_world s)\<rparr>)
      | Err _ \<Rightarrow> (Ok (ack id_tlv), s)
      | Panic \<Rightarrow> (Panic, s))"

text \<open>The log level and the identifier of a cancellation are decoded for the log lines only.\<close>

definition decode_for_log :: "bytes \<Rightarrow> bytes rust \<Rightarrow> bytes rust" where
  "decode_for_log d r = (if d = [] then r else case decode_json_value d of Panic \<Rightarrow> Panic | _ \<Rightarrow> r)"

definition dispatch_method ::
  "'w backend \<Rightarrow> text_ops \<Rightarrow> readings \<Rightarrow> bytes \<Rightarrow> nda_request_ref \<Rightarrow> 'w server \<Rightarrow> bytes rust \<times> 'w server" where
  "dispatch_method B T rd raw req s =
     (let method = rr_method req; id_tlv = rr_id_tlv req; d = rr_data req in
      if method = METHOD_PING then (Ok (ack id_tlv), s)
      else if method = METHOD_INITIALIZE then (nda_initialize id_tlv, s)
      else if method = NOTIF_INITIALIZED then (Ok (ack id_tlv), s)
      else if method = METHOD_LOGGING_SET_LEVEL then (decode_for_log d (Ok (ack id_tlv)), s)
      else if method = METHOD_TOOLS_LIST then nda_tools_list B id_tlv s
      else if method = METHOD_TOOLS_CALL then nda_tools_call B T rd raw id_tlv d s
      else if method = METHOD_HEALTH_CHECK then
        (Ok (build_nda_response_raw STATUS_OK id_tlv health_result_tlv), s)
      else if method \<in> set data_methods then with_data id_tlv d (nda_data_method B T method id_tlv) s
      else if method = NOTIF_CANCELLED then (decode_for_log id_tlv (Ok (ack id_tlv)), s)
      else if method = NOTIF_PROGRESS then nda_progress B id_tlv d s
      else (Ok (build_nda_error_raw id_tlv (''Unknown method: 0x'' @ hex02 method)), s))"

definition dispatch_nda_request ::
  "'c crypto \<Rightarrow> 'w backend \<Rightarrow> text_ops \<Rightarrow> bool \<Rightarrow> readings \<Rightarrow> bytes \<Rightarrow> 'w server \<Rightarrow> bytes rust \<times> 'w server" where
  "dispatch_nda_request C B T oauth2 rd raw s =
     (case parse_nda_request_inplace C (sv_nda s) oauth2 raw of
        Ok req \<Rightarrow> dispatch_method B T rd raw req s
      | Err e \<Rightarrow> (Err e, s)
      | Panic \<Rightarrow> (Panic, s))"

text \<open>Native frames on standard input: a refused frame is answered by an error frame.\<close>

definition handle_nda_frame ::
  "'c crypto \<Rightarrow> 'w backend \<Rightarrow> text_ops \<Rightarrow> bool \<Rightarrow> readings \<Rightarrow> bytes \<Rightarrow> 'w server \<Rightarrow> bytes rust \<times> 'w server" where
  "handle_nda_frame C B T oauth2 rd raw s =
     (case dispatch_nda_request C B T oauth2 rd raw s of
        (Err e, s) \<Rightarrow> (build_nda_error Null (''Parse error: '' @ e), s)
      | r \<Rightarrow> r)"

subsection \<open>The JSON dispatcher of the shared-memory loop\<close>

definition shmem_tools_call ::
  "'w backend \<Rightarrow> text_ops \<Rightarrow> readings \<Rightarrow> value \<Rightarrow> value \<Rightarrow> 'w server \<Rightarrow> value \<times> 'w server" where
  "shmem_tools_call B T rd request rid s =
     (let name = str_or (param request ''name'') []; arguments = param request ''arguments'' in
      case check_rate_limit rd s of (ok, s) \<Rightarrow>
        if \<not> ok then
          (rpc_result rid (text_result (''Rate limit exceeded for tool '' @ quoted name @ ''.'') True),
           audit_call rd name (Rejected ''rate limited'') s)
        else case run_tool B T rd name arguments s of (output_text, is_error, s) \<Rightarrow>
          (rpc_result rid (text_result output_text is_error), s))"

definition shmem_resources :: "'w backend \<Rightarrow> text_ops \<Rightarrow> string \<Rightarrow> value \<Rightarrow> value \<Rightarrow> 'w server \<Rightarrow> (value \<times> 'w server) option" where
  "shmem_resources B T method request rid s =
     (let cursor = as_str (param request ''cursor''); uri = str_or (param request ''uri'') [];
          sub_id = str_or (param request ''subscriberId'') ''default'' in
      if method = ''resources/list'' then
        Some (case with_world (bk_resources_list B cursor) s of (r, s) \<Rightarrow> (rpc_result rid r, s))
      else if method = ''resources/read'' then
        Some (case with_world (bk_resources_read B uri) s of (r, s) \<Rightarrow> (reply_or_error T rid r, s))
      else if method = ''resources/templates/list'' then
        Some (case with_world (bk_templates_list B cursor) s of (r, s) \<Rightarrow> (rpc_result rid r, s))
      else if method = ''resources/subscribe'' then
        Some (case with_world (bk_subscribe B uri sub_id) s of (r, s) \<Rightarrow> (reply_or_error T rid r, s))
      else if method = ''resources/unsubscribe'' then
        Some (case with_world (bk_unsubscribe B uri sub_id) s of (r, s) \<Rightarrow> (reply_or_error T rid r, s))
      else None)"

definition shmem_prompts :: "'w backend \<Rightarrow> text_ops \<Rightarrow> string \<Rightarrow> value \<Rightarrow> value \<Rightarrow> 'w server \<Rightarrow> (value \<times> 'w server) option" where
  "shmem_prompts B T method request rid s =
     (if method = ''prompts/list'' then
        Some (case with_world (bk_prompts_list B (as_str (param request ''cursor''))) s of (r, s) \<Rightarrow> (rpc_result rid r, s))
      else if method = ''prompts/get'' then
        Some (case with_world (bk_prompts_get B (str_or (param request ''name'') []) (param request ''arguments'')) s of
                (r, s) \<Rightarrow> (reply_or_error T rid r, s))
      else if method = ''sampling/createMessage'' then
        Some (case with_world (bk_sampling B (value_index request ''params'')) s of
                (r, s) \<Rightarrow> (reply_or_error T rid r, s))
      else None)"

text \<open>The \<open>match\<close> on the method: every request gets a response, notifications included.\<close>

definition shmem_response ::
  "'w backend \<Rightarrow> text_ops \<Rightarrow> readings \<Rightarrow> value \<Rightarrow> 'w server \<Rightarrow> value rust \<times> 'w server" where
  "shmem_response B T rd request s =
     (let method = str_or (value_index request ''method'') []; rid = value_index request ''id'';
          ok = (\<lambda>r. (Ok (fst r), snd r)); empty_ok = rpc_result rid (json_obj []) in
      if method = ''initialize'' then (Ok (rpc_result rid (build_initialize_response True)), s)
      else if method = ''notifications/initialized'' then (Ok empty_ok, s)
      else if method = ''ping'' then (Ok empty_ok, s)
      else if method = ''logging/setLevel'' then
        ok (logging_set_level_response rid (str_or (param request ''level'') ''info'') s)
      else if method = ''tools/list'' then tools_list_page_response B rid (as_str (param request ''cursor'')) s
      else if method = ''tools/call'' then ok (shmem_tools_call B T rd request rid s)
      else if method = ''health/check'' then (Ok (health_response ''shmem'' rid), s)
      else case shmem_resources B T method request rid s of
        Some r \<Rightarrow> ok r
      | None \<Rightarrow>
          (case shmem_prompts B T method request rid s of
             Some r \<Rightarrow> ok r
           | None \<Rightarrow>
               if method = ''notifications/cancelled'' then (Ok empty_ok, s)
               else if method = ''notifications/progress'' then
                 (Ok empty_ok, s\<lparr>sv_world := bk_progress B (value_index request ''params'') (sv_world s)\<rparr>)
               else (Ok (rpc_error rid (- 32601) (''Method '' @ quoted method @ '' not supported'')), s)))"

subsection \<open>Publishing a reply\<close>

text \<open>The state byte is written behind the output, and the event is signalled last.\<close>

definition publish :: "u8 \<Rightarrow> shared_memory \<Rightarrow> shared_memory" where
  "publish st b = signal_response (set_state st b)"

definition handle_nda_native ::
  "'c crypto \<Rightarrow> 'w backend \<Rightarrow> text_ops \<Rightarrow> bool \<Rightarrow> readings \<Rightarrow> bytes \<Rightarrow> shared_memory \<Rightarrow> 'w server
   \<Rightarrow> unit rust \<times> shared_memory \<times> 'w server" where
  "handle_nda_native C B T oauth2 rd raw b s =
     (case dispatch_nda_request C B T oauth2 rd raw s of
        (Panic, s) \<Rightarrow> (Panic, b, s)
      | (Ok frame, s) \<Rightarrow>
          (case write_output_raw frame b of
             (b, Ok _) \<Rightarrow> (Ok (), publish STATE_RES_READY b, s)
           | (b, e) \<Rightarrow> (e, b, s))
      | (Err e, s) \<Rightarrow>
          (let err_msg = ''Parse error: '' @ e;
               err_frame = (case build_nda_error Null err_msg of Ok f \<Rightarrow> f | _ \<Rightarrow> build_nda_error_raw [] err_msg) in
           case write_output_raw err_frame b of
             (b, Ok _) \<Rightarrow> (Ok (), publish STATE_ERROR b, s)
           | (b, e) \<Rightarrow> (e, b, s)))"

text \<open>An error document: a failed write is only logged.\<close>

definition write_error_doc :: "json_text \<Rightarrow> int \<Rightarrow> string \<Rightarrow> shared_memory \<Rightarrow> shared_memory" where
  "write_error_doc J code msg b = publish STATE_ERROR (fst (write_output (to_string J (invalid_line code msg)) b))"

definition handle_json_shmem ::
  "json_text \<Rightarrow> 'w backend \<Rightarrow> text_ops \<Rightarrow> readings \<Rightarrow> string \<Rightarrow> shared_memory \<Rightarrow> 'w server
   \<Rightarrow> unit rust \<times> shared_memory \<times> 'w server" where
  "handle_json_shmem J B T rd input_str b s =
     (case from_str J input_str of
        Inl e \<Rightarrow> (Ok (), write_error_doc J (- 32700) (''Parse error: '' @ e) b, s)
      | Inr request \<Rightarrow>
          (case shmem_response B T rd request s of
             (Ok response, s) \<Rightarrow>
               (case write_output (to_string J response) b of
                  (b, Ok _) \<Rightarrow> (Ok (), publish STATE_RES_READY b, s)
                | (b, e) \<Rightarrow> (e, b, s))
           | (Err e, s) \<Rightarrow> (Err e, b, s)
           | (Panic, s) \<Rightarrow> (Panic, b, s)))"

text \<open>A handler that failed after taking the request leaves the error state.\<close>

definition or_error_state :: "unit rust \<times> shared_memory \<times> 'w server \<Rightarrow> unit rust \<times> shared_memory \<times> 'w server" where
  "or_error_state r = (case r of (Err e, b, s) \<Rightarrow> (Ok (), publish STATE_ERROR b, s) | _ \<Rightarrow> r)"

text \<open>The body of the loop of \<open>run_shmem_loop_inner\<close>, once \<open>wait_for_request\<close> has returned.\<close>

definition shmem_iteration ::
  "'c crypto \<Rightarrow> json_text \<Rightarrow> 'w backend \<Rightarrow> text_ops \<Rightarrow> bool \<Rightarrow> readings \<Rightarrow> shared_memory \<Rightarrow> 'w server
   \<Rightarrow> unit rust \<times> shared_memory \<times> 'w server" where
  "shmem_iteration C J B T oauth2 rd b s =
     (if get_state b = STATE_REQ_READY then
        (let b = set_state STATE_PROCESSING b in
         case read_input_raw b of
           Panic \<Rightarrow> (Panic, b, s)
         | Err e \<Rightarrow> (Ok (), write_error_doc J (- 32603) (''Internal memory error: '' @ e) b, s)
         | Ok raw \<Rightarrow>
             if is_nda_frame raw then or_error_state (handle_nda_native C B T oauth2 rd raw b s)
             else (case from_utf8 raw of
                 Ok input_str \<Rightarrow> or_error_state (handle_json_shmem J B T rd input_str b s)
               | _ \<Rightarrow> (Ok (), write_error_doc J (- 32700) ''Invalid UTF-8 in request'' b, s)))
      else (Ok (), b, s))"

subsection \<open>The stand-alone frame reader\<close>

record nmcp_binary_frame =
  nb_magic :: bytes
  nb_merkle_root :: bytes
  nb_payload :: bytes

definition nmcp_parse :: "bytes \<Rightarrow> nmcp_binary_frame rust" where
  "nmcp_parse bs =
     (if length bs < 36 then Err ''Buffer too small for NMCP binary frame header''
      else rbind (rs_slice bs 0 4) (\<lambda>magic.
        if magic \<noteq> NDA_MAGIC then Err ''Invalid NMCP magic signature''
        else rbind (rs_slice bs 4 36) (\<lambda>merkle_root.
          rbind (rs_slice_from bs 36) (\<lambda>payload.
            if length magic \<noteq> 4 then Err ''invalid magic size''
            else if length merkle_root \<noteq> 32 then Err ''invalid merkle size''
            else Ok \<lparr>nb_magic = magic, nb_merkle_root = merkle_root, nb_payload = payload\<rparr>))))"

end
