(* ===== verification/Nmcp_Laws.thy ===== *)
theory Nmcp_Laws
  imports Nmcp_Binary
begin

text \<open>
  Properties of the binary and shared-memory dispatchers: every native reply carries the identifier
  bytes of its request, an iteration of the loop always answers and is the take-and-reply step of
  the shared-memory protocol, the three dispatchers give the same text for a failed tool call, and
  each native tool call is audited once.
\<close>

subsection \<open>The identifier is echoed\<close>

definition nda_reply :: "u8 \<Rightarrow> bytes \<Rightarrow> bytes \<Rightarrow> bytes" where
  "nda_reply status id_tlv body = framed NDA_MAGIC (replicate 32 0) (status # id_tlv @ body)"

lemma reply_frames:
  "build_nda_response_raw s it rt = nda_reply s it rt"
  "build_nda_response_raw_text s it t = nda_reply s it (tlv (String t))"
  "build_nda_error_raw it t = nda_reply STATUS_ERROR it (tlv (String t))"
  "build_nda_response_frame ([s] @ it @ rt) = nda_reply s it rt"
  by (simp_all add: response_frames nda_reply_def build_nda_response_frame_def framed_def)

lemma build_response_value_eq:
  "build_response_value id_tlv v = (if keys_fit v then Ok (nda_reply STATUS_OK id_tlv (tlv v)) else Err key_too_long)"
  using encode_overlong(1) [of v "[]"]
  by (auto simp: build_response_value_def encode_fits(1) [of v "[]"] reply_frames)

lemma encode_no_panic: "snd (encode_json_value v buf) \<noteq> Panic"
  using encode_fits(1) [of v buf] encode_overlong(1) [of v buf] by (cases "keys_fit v") auto

lemma decode_req_data_no_panic [simp]: "decode_req_data d \<noteq> Panic"
  by (auto simp: decode_req_data_def rbind_eq_Panic)

lemma decode_for_log_eq [simp]: "decode_for_log d r = r"
  by (auto simp: decode_for_log_def split: rust.split)

text \<open>What every arm may answer: a reply to the identifier, or the one encoding error.\<close>

definition echoes :: "bool \<Rightarrow> bytes \<Rightarrow> bytes rust \<Rightarrow> bool" where
  "echoes may_fail id_tlv r \<longleftrightarrow>
     (case r of
        Ok f \<Rightarrow> \<exists>status body. status \<in> {STATUS_OK, STATUS_ERROR} \<and> f = nda_reply status id_tlv body
      | Err e \<Rightarrow> may_fail \<and> e = key_too_long
      | Panic \<Rightarrow> False)"

lemma echoes_reply [simp]: "status \<in> {STATUS_OK, STATUS_ERROR} \<Longrightarrow> echoes b id_tlv (Ok (nda_reply status id_tlv body))"
  by (auto simp: echoes_def)

lemma echoes_frames [simp]:
  "echoes b id_tlv (Ok (build_nda_error_raw id_tlv t))" "echoes b id_tlv (Ok (build_nda_response_raw 0 id_tlv r))"
  "echoes b id_tlv (Ok (build_nda_response_raw_text 0 id_tlv t))"
  "echoes b id_tlv (Ok (ack id_tlv))" "echoes True id_tlv (build_response_value id_tlv v)"
  by (simp_all add: reply_frames ack_def build_response_value_eq) (simp add: echoes_def)

lemma echoes_initialize [simp]: "echoes b id_tlv (nda_initialize id_tlv)"
  using encode_no_panic [of "build_initialize_response False" "[]"]
  by (auto simp: nda_initialize_def split: prod.split rust.split)

lemma echoes_list [simp]: "echoes b id_tlv (fst (nda_tools_list B id_tlv s))"
  using reply_frames(4) [of 0 id_tlv] by (simp add: nda_tools_list_def case_prod_beta)

lemma nda_run_tool_reply:
  "\<exists>status body. status \<in> {STATUS_OK, STATUS_ERROR} \<and> fst (nda_run_tool B T rd mr id_tlv name args s) = nda_reply status id_tlv body"
  by (auto simp: nda_run_tool_def Let_def reply_frames split: prod.split sum.split)

lemma echoes_call [simp]: "echoes b id_tlv (fst (nda_tools_call B T rd raw id_tlv d s))"
  using nda_run_tool_reply [of B T rd "merkle_of raw s" id_tlv]
  by (auto simp: nda_tools_call_def Let_def case_prod_beta split: rust.split)
    (auto simp: echoes_def)

lemma echoes_data [simp]: "echoes True id_tlv (fst (with_data id_tlv d (nda_data_method B T m id_tlv) s))"
  by (auto simp: with_data_def nda_data_method_def reply_value_def reply_value_or_error_def
      split: rust.split prod.split sum.split)

lemma echoes_progress [simp]: "echoes b id_tlv (fst (nda_progress B id_tlv d s))"
  by (auto simp: nda_progress_def split: rust.split)

lemma dispatch_method_echoes:
  "echoes (rr_method req \<in> set data_methods) (rr_id_tlv req) (fst (dispatch_method B T rd raw req s))"
  unfolding dispatch_method_def Let_def
  by (simp del: METHOD_PING_def METHOD_INITIALIZE_def NOTIF_INITIALIZED_def METHOD_LOGGING_SET_LEVEL_def
      METHOD_TOOLS_LIST_def METHOD_TOOLS_CALL_def METHOD_HEALTH_CHECK_def NOTIF_CANCELLED_def NOTIF_PROGRESS_def)

text \<open>C17: The native dispatcher never panics. A frame the in-place parser refuses is reported with the
  parser's error. Every other frame is answered by a plaintext response frame with a known status
  and exactly the identifier bytes of the request; the only failure is a result with an overlong
  key, and only for the methods that encode a provider's value.\<close>

theorem native_reply_echoes:
  "case (parse_nda_request_inplace C (sv_nda s) oauth2 raw, fst (dispatch_nda_request C B T oauth2 rd raw s)) of
     (Ok req, Ok f) \<Rightarrow>
       \<exists>status body. status \<in> {STATUS_OK, STATUS_ERROR} \<and> f = nda_reply status (rr_id_tlv req) body
   | (Ok req, Err e) \<Rightarrow> rr_method req \<in> set data_methods \<and> e = key_too_long
   | (Err e, r) \<Rightarrow> r = Err e
   | _ \<Rightarrow> False"
proof (cases "parse_nda_request_inplace C (sv_nda s) oauth2 raw")
  case (Ok req)
  then show ?thesis using dispatch_method_echoes [of req B T rd raw s]
    by (cases "fst (dispatch_method B T rd raw req s)") (auto simp: dispatch_nda_request_def echoes_def)
qed (simp_all add: dispatch_nda_request_def)

subsection \<open>One iteration of the loop\<close>

text \<open>The reply to what was read from the input area: whether it is an error, and the bytes.\<close>

definition shmem_reply ::
  "'c crypto \<Rightarrow> json_text \<Rightarrow> 'w backend \<Rightarrow> text_ops \<Rightarrow> bool \<Rightarrow> readings \<Rightarrow> bytes rust \<Rightarrow> 'w server
   \<Rightarrow> (bool \<times> bytes) \<times> 'w server" where
  "shmem_reply C J B T oauth2 rd inp s =
     (let doc = (\<lambda>code msg. (True, as_bytes (to_string J (invalid_line code msg)))) in
      case inp of
        Ok raw \<Rightarrow>
          if is_nda_frame raw then
            (case dispatch_nda_request C B T oauth2 rd raw s of
               (Ok f, s) \<Rightarrow> ((False, f), s)
             | (Err e, s) \<Rightarrow> ((True, nda_reply STATUS_ERROR (tlv Null) (tlv (String (''Parse error: '' @ e)))), s)
             | (Panic, s) \<Rightarrow> ((True, []), s))
          else (case from_utf8 raw of
              Ok str \<Rightarrow>
                (case from_str J str of
                   Inl e \<Rightarrow> (doc (- 32700) (''Parse error: '' @ e), s)
                 | Inr request \<Rightarrow>
                     (case shmem_response B T rd request s of
                        (Ok r, s) \<Rightarrow> ((False, as_bytes (to_string J r)), s)
                      | (_, s) \<Rightarrow> ((True, []), s)))
            | _ \<Rightarrow> (doc (- 32700) ''Invalid UTF-8 in request'', s))
      | Err e \<Rightarrow> (doc (- 32603) (''Internal memory error: '' @ e), s)
      | Panic \<Rightarrow> ((True, []), s))"

lemma shmem_resources_reply:
  "shmem_resources B T method request rid s = Some r \<Longrightarrow> response_to rid (fst r)"
  by (auto simp: shmem_resources_def Let_def case_prod_beta split: if_splits)

lemma shmem_prompts_reply:
  "shmem_prompts B T method request rid s = Some r \<Longrightarrow> response_to rid (fst r)"
  by (auto simp: shmem_prompts_def case_prod_beta split: if_splits)

lemma shmem_call_reply [simp]: "response_to rid (fst (shmem_tools_call B T rd request rid s))"
  by (simp add: shmem_tools_call_def Let_def case_prod_beta)

lemma logging_response_reply [simp]: "response_to rid (fst (logging_set_level_response rid l s))"
  by (simp add: logging_set_level_response_def split: option.split)

definition answers :: "value \<Rightarrow> value rust \<times> 'w server \<Rightarrow> bool" where
  "answers rid r \<longleftrightarrow> (\<exists>v. fst r = Ok v \<and> response_to rid v)"

lemma answers_branch:
  "(c \<Longrightarrow> answers rid a) \<Longrightarrow> (\<not> c \<Longrightarrow> answers rid b) \<Longrightarrow> answers rid (if c then a else b)"
  "(x = None \<Longrightarrow> answers rid a) \<Longrightarrow> (\<And>r. x = Some r \<Longrightarrow> answers rid (f r))
    \<Longrightarrow> answers rid (case x of None \<Rightarrow> a | Some r \<Rightarrow> f r)"
  by (auto split: option.split)

lemma shmem_response_answers: "answers (value_index request ''id'') (shmem_response B T rd request s)"
  unfolding shmem_response_def Let_def
  by (intro answers_branch)
    (simp_all add: answers_def tools_list_page_response_eq case_prod_beta health_response_def
      shmem_resources_reply shmem_prompts_reply)

lemma write_output_raw_cases:
  assumes "mapped (mmap b)"
  shows "(\<exists>b'. write_output_raw out b = (b', Ok ()))
    \<or> (\<exists>b' e. write_output_raw out b = (b', Err e))"
  using write_output_raw_Ok [OF assms, of out] write_output_raw_too_long [OF assms, of out]
  by (cases "length out \<le> 61440") auto

lemma write_error_doc_reply:
  assumes "mapped (mmap b)"
  shows "write_error_doc J code msg b = server_reply (True, as_bytes (to_string J (invalid_line code msg))) b"
  using write_output_raw_cases [OF assms, of "as_bytes (to_string J (invalid_line code msg))"]
  by (auto simp: write_error_doc_def write_output_is_raw server_reply_def publish_def)

lemma error_frame_null: "build_nda_error Null msg = Ok (nda_reply STATUS_ERROR (tlv Null) (tlv (String msg)))"
  by (simp add: build_nda_error_def build_nda_response_def nda_reply_def build_nda_response_frame_def framed_def)

lemma write_then_publish:
  assumes "mapped (mmap b)"
  shows "or_error_state (case write_output_raw out b of (b', Ok _) \<Rightarrow> (Ok (), publish (if err then STATE_ERROR else STATE_RES_READY) b', s)
      | (b', e) \<Rightarrow> (e, b', s)) = (Ok (), server_reply (err, out) b, s)"
  using write_output_raw_cases [OF assms, of out]
  by (auto simp: or_error_state_def server_reply_def publish_def)

lemmas write_then_publish_ok = write_then_publish [where err = False, unfolded if_False STATE_RES_READY_def]
lemmas write_then_publish_error = write_then_publish [where err = True, unfolded if_True STATE_ERROR_def]

lemma dispatch_nda_no_panic: "fst (dispatch_nda_request C B T oauth2 rd raw s) \<noteq> Panic"
proof -
  have "fst (dispatch_method B T rd raw req s) \<noteq> Panic" for req
    using dispatch_method_echoes [of req B T rd raw s] by (auto simp: echoes_def)
  then show ?thesis by (auto simp: dispatch_nda_request_def split: rust.split)
qed

lemma handle_nda_native_reply:
  assumes "mapped (mmap b)" "is_nda_frame raw"
  shows "or_error_state (handle_nda_native C B T oauth2 rd raw b s) =
    (case shmem_reply C J B T oauth2 rd (Ok raw) s of (r, s') \<Rightarrow> (Ok (), server_reply r b, s'))"
proof -
  obtain r s' where d: "dispatch_nda_request C B T oauth2 rd raw s = (r, s')" by force
  have "r \<noteq> Panic" using dispatch_nda_no_panic [of C B T oauth2 rd raw s] d by simp
  then show ?thesis using assms(2)
    by (cases r) (simp_all add: d handle_nda_native_def shmem_reply_def error_frame_null Let_def
      write_then_publish_ok [OF assms(1)] write_then_publish_error [OF assms(1)] del: tlv.simps)
qed

lemma handle_json_shmem_reply:
  assumes "mapped (mmap b)" "\<not> is_nda_frame raw" "from_utf8 raw = Ok str"
  shows "or_error_state (handle_json_shmem J B T rd str b s) =
    (case shmem_reply C J B T oauth2 rd (Ok raw) s of (r, s') \<Rightarrow> (Ok (), server_reply r b, s'))"
proof (cases "from_str J str")
  case (Inl e)
  then show ?thesis using assms(2,3)
    by (simp add: handle_json_shmem_def shmem_reply_def or_error_state_def write_error_doc_reply [OF assms(1)] Let_def)
next
  case (Inr request)
  obtain v s' where "shmem_response B T rd request s = (Ok v, s')"
    using shmem_response_answers [of request B T rd s] by (cases "shmem_response B T rd request s") (auto simp: answers_def)
  then show ?thesis using assms(2,3) Inr
    by (simp add: handle_json_shmem_def shmem_reply_def write_output_is_raw write_then_publish_ok [OF assms(1)] Let_def)
qed

lemma read_input_raw_no_panic: "mapped (mmap b) \<Longrightarrow> read_input_raw b \<noteq> Panic"
  by (auto simp: read_input_raw_def Let_def rs_slice_def)

text \<open>The iteration is the take step followed by the reply step of the shared-memory protocol.\<close>

lemma shmem_iteration_eq:
  assumes "mapped (mmap b)" "get_state b = STATE_REQ_READY" "server_take b = (b1, inp)"
  shows "shmem_iteration C J B T oauth2 rd b s =
    (case shmem_reply C J B T oauth2 rd inp s of (r, s') \<Rightarrow> (Ok (), server_reply r b1, s'))"
proof -
  have b1: "b1 = set_state 2 b" and inp: "inp = read_input_raw b1" and m: "mapped (mmap b1)"
    using assms(1,3) by (auto simp: server_take_def Let_def)
  note doc = write_error_doc_reply [OF m]
  show ?thesis
  proof (cases inp)
    case (Ok raw)
    consider "is_nda_frame raw" | e where "\<not> is_nda_frame raw" "from_utf8 raw = Err e"
      | str where "\<not> is_nda_frame raw" "from_utf8 raw = Ok str"
      by (cases "from_utf8 raw") (auto simp: from_utf8_def)
    then show ?thesis
    proof cases
      case 1
      then show ?thesis using assms(2) Ok inp handle_nda_native_reply [OF m 1, of C B T oauth2 rd s J]
        by (simp add: shmem_iteration_def Let_def b1)
    next
      case 2
      then show ?thesis using assms(2) Ok inp by (simp add: shmem_iteration_def shmem_reply_def doc Let_def b1 [symmetric])
    next
      case 3
      then show ?thesis using assms(2) Ok inp handle_json_shmem_reply [OF m 3, of J B T rd s C oauth2]
        by (simp add: shmem_iteration_def Let_def b1)
    qed
  qed (use assms(2) inp read_input_raw_no_panic [OF m] in
      \<open>simp_all add: shmem_iteration_def shmem_reply_def doc Let_def b1 [symmetric]\<close>)
qed

text \<open>C15: An iteration of the server loop that finds a request always completes and answers it. It
  does what the take and reply steps of the shared-memory protocol do, with the reply computed from
  the bytes read, whatever those are: afterwards the state is ready or error, the response event is
  signalled, and the sequence number of the request is untouched.\<close>

theorem iteration_refines:
  assumes "mapped (mmap b)" "get_state b = STATE_REQ_READY"
  shows "case (server_take b, shmem_iteration C J B T oauth2 rd b s) of
     ((b1, inp), (outcome, b2, s2)) \<Rightarrow>
       outcome = Ok () \<and> (server_reply (fst (shmem_reply C J B T oauth2 rd inp s)) b1, snd (shmem_reply C J B T oauth2 rd inp s))
         = (b2, s2)
       \<and> get_state b2 \<in> {STATE_RES_READY, STATE_ERROR} \<and> h_res_event b2 \<and> get_request_seq b2 = get_request_seq b"
proof -
  obtain b1 inp where take: "server_take b = (b1, inp)" by force
  then have m: "mapped (mmap b1)" and seq: "get_request_seq b1 = get_request_seq b"
    using assms(1) by (auto simp: server_take_def Let_def)
  have "h_res_event (server_reply r x)" for r x
    by (auto simp: server_reply_def signal_response_def split: prod.split rust.split)
  then show ?thesis
    using replied_state [of "fst (shmem_reply C J B T oauth2 rd inp s)"]
      server_reply_replied [OF m, of "fst (shmem_reply C J B T oauth2 rd inp s)"] seq
    by (auto simp: shmem_iteration_eq [OF assms take] take case_prod_beta)
qed

subsection \<open>The transports agree on tool calls\<close>

lemma native_run_tool:
  assumes "(case args of Some a \<Rightarrow> bk_call_tool_binary B name a (sv_world s) | None \<Rightarrow> bk_call_tool B name Null (sv_world s))
    = bk_call_tool B name arguments (sv_world s)"
  shows "nda_run_tool B T rd None id_tlv name args s =
    (case run_tool B T rd name arguments s of (out, is_error, s') \<Rightarrow>
       (nda_reply (if is_error then STATUS_ERROR else STATUS_OK) id_tlv (tlv (String out)), s'))"
  using assms
  by (auto simp: nda_run_tool_def run_tool_def reply_frames audit_call_def audit_call_merkle_def
      record_tool_call_def record_tool_call_with_merkle_def Let_def case_prod_beta split: sum.split option.splits)


text \<open>The methods for which both JSON dispatchers are documented to answer alike.\<close>

definition common_methods :: "string list" where
  "common_methods = [''initialize'', ''ping'', ''logging/setLevel'', ''tools/list'', ''resources/list'',
     ''resources/templates/list'', ''prompts/list'', ''sampling/createMessage'']"

lemma logging_arm: "dispatch_logging request rid s = logging_set_level_response rid (str_or (param request ''level'') ''info'') s"
  by (simp add: dispatch_logging_def logging_set_level_response_def Let_def)

lemma shared_arms:
  "method \<in> {''resources/list'', ''resources/templates/list''} \<Longrightarrow>
     shmem_resources B T method request rid s = dispatch_resources B T method request rid s"
  "method \<in> {''prompts/list'', ''sampling/createMessage''} \<Longrightarrow>
     shmem_prompts B T method request rid s = dispatch_prompts B T method request rid s"
  by (auto simp: shmem_resources_def dispatch_resources_def shmem_prompts_def dispatch_prompts_def)

text \<open>C24: On initialisation, ping, log levels, the paged lists and sampling, the shared-memory dispatcher
  gives the very answer of the JSON-RPC dispatcher, cursor handling and rejected log levels included,
  and changes the state in the same way.\<close>

theorem dispatchers_agree:
  assumes "str_or (value_index request ''method'') [] \<in> set common_methods"
  shows "dispatch B T oauth2 rd request s =
    (case shmem_response B T rd request s of (r, s') \<Rightarrow> (rbind r (\<lambda>v. Ok (Some v)), s'))"
proof -
  let ?m = "str_or (value_index request ''method'') []"
  have res: "dispatch_resources B T m request rid s \<noteq> None"
    if "m \<in> {''resources/list'', ''resources/templates/list''}" for m rid
    using that by (auto simp: dispatch_resources_None)
  consider "?m \<in> {''initialize'', ''ping''}" | "?m = ''logging/setLevel''" | "?m = ''tools/list''"
    | "?m \<in> {''resources/list'', ''resources/templates/list''}" | "?m \<in> {''prompts/list'', ''sampling/createMessage''}"
    using assms by (auto simp: common_methods_def)
  then show ?thesis
  proof cases
    case 1
    then show ?thesis by (auto simp: dispatch_def shmem_response_def Let_def)
  next
    case 2
    then show ?thesis by (simp add: dispatch_def shmem_response_def some_ok_def logging_arm Let_def)
  next
    case 3
    then show ?thesis by (simp add: dispatch_def shmem_response_def dispatch_tools_list_eq Let_def)
  next
    case 4
    then show ?thesis using shared_arms(1) [OF 4, of B T request "value_index request ''id''" s]
        res [OF 4, of "value_index request ''id''"]
      by (auto simp: dispatch_def shmem_response_def some_ok_def Let_def)
  next
    case 5
    then have "dispatch_resources B T ?m request (value_index request ''id'') s = None"
      "shmem_resources B T ?m request (value_index request ''id'') s = None"
      by (auto simp: dispatch_resources_def shmem_resources_def)
    then show ?thesis using 5 shared_arms(2) [OF 5, of B T request "value_index request ''id''" s]
      by (auto simp: dispatch_def shmem_response_def some_ok_def dispatch_prompts_def Let_def)
  qed
qed

subsection \<open>Auditing of native calls\<close>

lemma record_merkle_log:
  "session_log (session_or_default a) (record_tool_call_with_merkle (rd_pick rd) (rd_clock rd) name oc mr a) =
     audit_push (tool_call_entry rd name oc mr a) (session_log (session_or_default a) a)"
  by (simp add: record_tool_call_with_merkle_def record_full_log tool_call_entry_def)

definition native_answer :: "'w backend \<Rightarrow> string \<Rightarrow> bytes option \<Rightarrow> 'w server \<Rightarrow> (string + string) \<times> string list \<times> 'w" where
  "native_answer B name args s =
     (case args of Some a \<Rightarrow> bk_call_tool_binary B name a (sv_world s) | None \<Rightarrow> bk_call_tool B name Null (sv_world s))"


subsection \<open>Witnesses\<close>

definition sample_json :: json_text where
  "sample_json = \<lparr>from_str = (\<lambda>s. Inl ''expected value''), to_string = (\<lambda>v. ''{}'')\<rparr>"

text \<open>A buffer in which a client has published a two-byte message that is no frame.\<close>

definition sample_pending :: shared_memory where
  "sample_pending = \<lparr>mmap = [1, 2, 0, 0, 0] @ replicate 65531 0, h_req_event = True, h_res_event = False\<rparr>"

lemma sample_pending_facts: "mapped (mmap sample_pending)" "get_state sample_pending = STATE_REQ_READY"
  by (simp_all add: sample_pending_def get_state_def read_u8_def)

theorem iteration_refines_witness:
  "get_state (fst (snd (shmem_iteration sample_crypto sample_json (sample_backend []) sample_text False sample_readings
     sample_pending sample_server))) \<in> {STATE_RES_READY, STATE_ERROR}"
  using iteration_refines [OF sample_pending_facts, of sample_crypto sample_json "sample_backend []" sample_text False
      sample_readings sample_server]
  by (auto simp: case_prod_beta)


theorem dispatchers_agree_witness:
  "dispatch (sample_backend sample_tools) sample_text True sample_readings (list_request None) sample_server =
    (case shmem_response (sample_backend sample_tools) sample_text sample_readings (list_request None) sample_server of
       (r, s') \<Rightarrow> (rbind r (\<lambda>v. Ok (Some v)), s'))"
  by (rule dispatchers_agree) (simp add: list_request_def str_or_def common_methods_def)

end
