(* ===== verification/Spec2Isabelle.thy ===== *)
theory Spec2Isabelle
  imports Flat_Codec Rate_Limit Registry_Laws Nmcp_Laws
begin

text \<open>
  A verification development of the V.E.L.O.C.I.T.Y. MCP server, a tool server that speaks the Model
  Context Protocol as JSON-RPC over standard input, HTTP and WebSocket, and in a native binary format
  over shared memory and standard input. It covers the wire formats, the shared-memory transport, the
  dispatchers and the state they share. Paths below are relative to \<open>src/\<close> of the repository.

  \<^bold>\<open>Conventions.\<close> Rust's \<open>Result\<close> is the type \<open>'a rust\<close> with \<open>Ok\<close>, \<open>Err\<close> (the displayed message) and
  \<open>Panic\<close>, so that slicing out of range is a value and its absence a theorem. Machine integers are words
  where they are encoded or may wrap; lengths and \<open>usize\<close> are natural numbers, saturating where the
  source saturates. A Rust string is a list of characters whose codes are its UTF-8 bytes. A mutable
  static is a field of a state record that is passed explicitly. SHA-256, AES-GCM, the JSON parser and
  printer, the two regular expressions of \<open>sanitize_error\<close>, the LRU cache, the iteration order of a hash
  map and the clocks are arguments; what the properties need of them is a named hypothesis
  (\<open>digests_32\<close>, \<open>seals\<close>, \<open>lru_laws\<close>, \<open>picks_key\<close>, \<open>iterates\<close>, \<open>counts_runs\<close>) with an instance in the witness.

  \<^bold>\<open>Theories.\<close>
  \<^item> \<open>Prelude\<close>: bytes and words, the result type, slices, UTF-8, decimal numbers.
  \<^item> \<open>Json_Value\<close>: \<open>serde_json::Value\<close> with its ordered maps and the accessors in use.
  \<^item> \<open>Codec_Interface\<close>: the locales \<open>prefix_codec\<close> and \<open>codec_with_skip\<close>, interpreted on the server's TLV codec
    (\<open>server_tlv\<close>), the flat format (\<open>flat_codec\<close>) and the client's TLV codec (\<open>client_tlv\<close>).
  \<^item> \<open>Tlv_Codec\<close>, \<open>Tlv_Laws\<close>: the TLV encoder, decoder, in-place walker and field extractors of
    \<open>src/protocol/nda_native.rs\<close>: round trip, totality and bounds on arbitrary bytes, agreement of the walker
    and of the extractors with the decoder.
  \<^item> \<open>Nda_Frame\<close>, \<open>Nda_Laws\<close>: native frames, both request parsers, the encrypted variant and the tool list
    encoder with its cache: round trips, agreement of the parsers, refusal of wrong digests.
  \<^item> \<open>Flat_Codec\<close>: the flat request and response format of the same file.
  \<^item> \<open>Client_Codec\<close>: \<open>client/src/transport/nda_codec.rs\<close>, with its compatibility with the server in both directions.
  \<^item> \<open>Memory_Interface\<close>, \<open>Shmem\<close>, \<open>Shmem_Protocol\<close>: \<open>src/ipc/shmem.rs\<close> and \<open>client/src/transport/shmem.rs\<close> on one
    shared state; the locales \<open>mem_field\<close> and \<open>two_fields\<close> carry the layout of the header. The step relation
    \<open>shm_step\<close> interleaves client and server; its invariant gives safety and progress without timeouts, and a
    run with a timeout shows how a late reply is taken for the next one.
  \<^item> \<open>Rate_Limit\<close>: \<open>src/rate_limit.rs\<close>, sequentially and as interleaved threads.
  \<^item> \<open>Audit_Log\<close>: \<open>src/audit.rs\<close>, the bounded per-session logs (locale \<open>bounded_log\<close>) and their exports.
  \<^item> \<open>Server_State\<close>: the state the dispatchers share and the error texts of \<open>src/sandbox.rs\<close> and
    \<open>src/protocol/json_rpc.rs\<close>. Registry, resources, prompts, sampling and connectors are reached through the
    record \<open>backend\<close>, whose operations work on an abstract world.
  \<^item> \<open>Builtin_Tools\<close>, \<open>Registry\<close>, \<open>Registry_Laws\<close>: \<open>src/registry.rs\<close>: the built-in tools, registration, the generation
    counter and the cached list, converted frames, and the dispatch of binary calls. The locale \<open>versioned\<close>
    states what a cache may rely on; it is interpreted for the cached list and for the encoded list of
    \<open>Nda_Frame\<close>. Both caches are exact, the list shows every name once, and a binary call runs its tool at
    most once except on one path of the retry.
  \<^item> \<open>Json_Rpc\<close>, \<open>Json_Rpc_Laws\<close>: \<open>src/protocol/json_rpc.rs\<close> and the builders of \<open>src/protocol/mod.rs\<close>: replies are
    well formed and owed to requests only, paging is complete, cancellation, auditing, the invariant of
    the shared state.
  \<^item> \<open>Nmcp_Binary\<close>, \<open>Nmcp_Laws\<close>: \<open>src/protocol/nmcp_binary.rs\<close>: the native dispatcher, the shared-memory
    dispatcher and the loop, which refines the protocol of \<open>Shmem_Protocol\<close>; the transports agree.
  \<^item> This theory: a tool call from the client library through the shared memory and back.

  \<^bold>\<open>Bounds and fuel.\<close> The decoders recurse on the depth limit of the source or on the length of the
  buffer and are total. The only fuel is that of the paging client of \<open>Json_Rpc_Laws\<close>; the theorem states
  how much suffices. The limits 4080 and 61440 are the sizes of the input and the output area.

  \<^bold>\<open>Not modelled.\<close> The execution of tools by name, the external engine, resources and prompts, streaming, sampling, the
  path sandbox, OAuth2, plugins and their marketplace, the WebAssembly runtimes, the HTTP and WebSocket
  transports, middleware and configuration, the NDA document tools, the edge crates and the command
  line. Log lines, memory fences, page flushes, sleeps, and the recovery from poisoned locks are left
  out. Planned next: the registry as provider of the backend's tool operations, streaming, resources, sampling, the sandbox's path checks, OAuth2 tokens, and the document format.
\<close>

subsection \<open>A native tool call from end to end\<close>

text \<open>A native request travels through the shared memory and its reply back.\<close>

lemma client_frame_in_place:
  assumes "digests_32 C" "tlv_encodable i" "tlv_encodable d" "client_build_nda_request C m i d = Ok f"
  shows "is_nda_frame f" "parse_nda_request_inplace C g oauth2 f =
    Ok \<lparr>rr_method = m, rr_id_tlv = tlv i, rr_data = (if is_null d then [] else tlv d), rr_owned_payload = None\<rparr>"
proof -
  let ?p = "request_payload m i d"
  have f: "f = framed NDA_MAGIC (sha256 C ?p) ?p"
    using client_request_frame [OF assms(2,3), of C m] assms(4) by simp
  then show "is_nda_frame f" by (simp add: is_nda_frame_def)
  have "frame_payload C g oauth2 f = Ok (False, ?p)"
    using assms(1) by (simp add: f frame_payload_plain verify_merkle_def digests_32_def)
  from inplace_payload_request [OF this assms(2)]
  show "parse_nda_request_inplace C g oauth2 f =
    Ok \<lparr>rr_method = m, rr_id_tlv = tlv i, rr_data = (if is_null d then [] else tlv d), rr_owned_payload = None\<rparr>"
    by (simp add: method_of_def)
qed

lemma shmem_exchange:
  assumes "mapped (mmap b)" "length f \<le> 4080" "send_request f c b = Ok (seq, c1, b1)"
    "shmem_iteration C J B T oauth2 rd b1 s = (r, b2, s2)"
  shows "r = Ok () \<and> s2 = snd (shmem_reply C J B T oauth2 rd (Ok f) s)
    \<and> snd (receive_response seq b2) = answer (fst (shmem_reply C J B T oauth2 rd (Ok f) s))"
proof -
  from send_request_Ok [OF assms(1,2), of c] assms(3) have
    b1: "mapped (mmap b1)" "holds 16 f (mmap b1)" "get_input_len b1 = word_of_nat (length f)"
      "get_request_seq b1 = seq" "get_state b1 = STATE_REQ_READY"
    by auto
  let ?b = "set_state STATE_PROCESSING b1" and ?r = "fst (shmem_reply C J B T oauth2 rd (Ok f) s)"
  have "server_take b1 = (?b, Ok f)"
    using b1 assms(2) read_input_raw_holds [of ?b f] by (simp add: server_take_def Let_def)
  from shmem_iteration_eq [OF b1(1,5) this, of C J B T oauth2 rd s] assms(4)
  have it: "r = Ok ()" "b2 = server_reply ?r ?b" "s2 = snd (shmem_reply C J B T oauth2 rd (Ok f) s)"
    by (auto simp: case_prod_beta)
  have "mapped (mmap ?b)" "get_request_seq ?b = seq" using b1 by simp_all
  with server_reply_replied [of ?b ?r] receive_replied [of b2 ?r seq] it
  show ?thesis by auto
qed

text \<open>The text and the status with which a tool's answer is reported.\<close>

definition reported :: "text_ops \<Rightarrow> string \<Rightarrow> string + string \<Rightarrow> u8 \<times> string" where
  "reported T name r = (case r of Inr res \<Rightarrow> (STATUS_OK, res) | Inl e \<Rightarrow> (STATUS_ERROR, tool_error_text T name e))"

definition call_data :: "string \<Rightarrow> value \<Rightarrow> value" where
  "call_data name arguments = Object [(''arguments'', arguments), (''name'', String name)]"

lemma call_data_fields:
  assumes "tlv_encodable (call_data name arguments)"
  shows "extract_tools_call_fields (tlv (call_data name arguments)) = Ok (Some name, Some (tlv arguments))"
  using extract_tools_call_tlv [of "[(''arguments'', arguments), (''name'', String name)]" "[]"] assms
  by (simp add: call_data_def named_string_def encoded_field_def del: tlv.simps)

lemma native_call_reply:
  assumes "tlv_encodable (call_data name arguments)" "fst (try_acquire (rd_now rd) (sv_limiter s))"
  shows "nda_tools_call B T rd raw it (tlv (call_data name arguments)) s =
    (case (reported T name (fst (native_answer B name (Some (tlv arguments)) s))) of (status, out) \<Rightarrow>
       Ok (nda_reply status it (tlv (String out))),
     snd (nda_tools_call B T rd raw it (tlv (call_data name arguments)) s))"
  using assms(2) call_data_fields [OF assms(1)]
  by (cases "fst (native_answer B name (Some (tlv arguments)) s)")
    (auto simp: nda_tools_call_def nda_run_tool_def native_answer_def reported_def check_rate_limit_def reply_frames
      Let_def case_prod_beta simp del: tlv.simps)

lemma native_call_world:
  assumes "tlv_encodable (call_data name arguments)" "fst (try_acquire (rd_now rd) (sv_limiter s))"
  shows "sv_world (snd (nda_tools_call B T rd raw it (tlv (call_data name arguments)) s))
    = snd (snd (native_answer B name (Some (tlv arguments)) s))"
  using assms(2) call_data_fields [OF assms(1)]
  by (cases "fst (native_answer B name (Some (tlv arguments)) s)")
    (auto simp: nda_tools_call_def nda_run_tool_def native_answer_def check_rate_limit_def audit_call_merkle_def
      Let_def case_prod_beta simp del: tlv.simps)

text \<open>C12: A tool call of the client library over the shared memory, from end to end. The request
  frame fits the input area and the limiter grants the call. One iteration of the server loop
  completes, runs the tool once on the encoded arguments, and the frame the client then receives parses
  to the identifier of the request with, under the status for success, the tool's text or, under the
  status for errors, the rendered error text, provided that the reply fits the output area.\<close>

theorem native_call_end_to_end:
  assumes "digests_32 C" "mapped (mmap b)" "tlv_encodable i" "tlv_encodable (call_data name arguments)"
    "client_build_nda_request C METHOD_TOOLS_CALL i (call_data name arguments) = Ok f" "length f \<le> 4080"
    "fst (try_acquire (rd_now rd) (sv_limiter s))"
    "bk_call_tool_binary B name (tlv arguments) (sv_world s) = (r, k, w)" "reported T name r = (status, out)"
    "tlv_encodable (String out)" "length (nda_reply status (tlv i) (tlv (String out))) \<le> 61440"
    "send_request f c b = Ok (seq, c1, b1)" "shmem_iteration C J B T oauth2 rd b1 s = (outcome, b2, s2)"
  shows "outcome = Ok () \<and> sv_world s2 = w \<and> (\<exists>reply. snd (receive_response seq b2) = Ok reply
    \<and> parse_nda_response C reply = Ok \<lparr>nresp_status = status, nresp_request_id = i, nresp_result = String out\<rparr>)"
proof -
  let ?frame = "nda_reply status (tlv i) (tlv (String out))"
  let ?call = "nda_tools_call B T rd f (tlv i) (tlv (call_data name arguments)) s"
  have ans: "native_answer B name (Some (tlv arguments)) s = (r, k, w)" using assms(8) by (simp add: native_answer_def)
  have "\<not> is_null (call_data name arguments)" by (simp add: is_null_def call_data_def)
  then have "dispatch_nda_request C B T oauth2 rd f s = ?call"
    using client_frame_in_place(2) [OF assms(1,3,4,5), of "sv_nda s" oauth2]
    by (simp add: dispatch_nda_request_def dispatch_method_def del: tlv.simps)
  also have "\<dots> = (Ok ?frame, snd ?call)"
    using native_call_reply [OF assms(4,7), of B T f "tlv i"] ans assms(9) by (simp del: tlv.simps)
  finally have "shmem_reply C J B T oauth2 rd (Ok f) s = ((False, ?frame), snd ?call)"
    using client_frame_in_place(1) [OF assms(1,3,4,5)] by (simp add: shmem_reply_def del: tlv.simps)
  then have ex: "outcome = Ok ()" "s2 = snd ?call" "snd (receive_response seq b2) = answer (False, ?frame)"
    using shmem_exchange [OF assms(2,6,12,13)] by simp_all
  moreover have "answer (False, ?frame) = Ok ?frame"
    using assms(11) by (simp add: answer_def nda_reply_def framed_def)
  moreover have "parse_nda_response C ?frame = Ok \<lparr>nresp_status = status, nresp_request_id = i, nresp_result = String out\<rparr>"
    using parse_response_framed [OF assms(3,10)] by (simp only: nda_reply_def)
  ultimately show ?thesis using native_call_world [OF assms(4,7), of B T f "tlv i"] ans by (simp del: tlv.simps)
qed

definition fresh_buffer :: shared_memory where
  "fresh_buffer = create_or_open [] False False"

lemma fresh_buffer_mapped: "mapped (mmap fresh_buffer)"
  by (simp add: fresh_buffer_def create_or_open_def shmem_defs header_lengths)

theorem native_call_end_to_end_witness:
  "\<exists>f seq c1 b1 outcome b2 s2 reply.
     client_build_nda_request sample_crypto METHOD_TOOLS_CALL (Number (PosInt 5)) (call_data ''echo'' Null) = Ok f
   \<and> send_request f \<lparr>next_seq = 1\<rparr> fresh_buffer = Ok (seq, c1, b1)
   \<and> shmem_iteration sample_crypto sample_json (sample_backend []) sample_text False sample_readings b1 sample_server
       = (outcome, b2, s2)
   \<and> snd (receive_response seq b2) = Ok reply
   \<and> parse_nda_response sample_crypto reply
       = Ok \<lparr>nresp_status = STATUS_OK, nresp_request_id = Number (PosInt 5), nresp_result = String ''done''\<rparr>"
proof -
  let ?i = "Number (PosInt 5)" and ?d = "call_data ''echo'' Null"
  have enc: "tlv_encodable ?i" "tlv_encodable ?d" "tlv_encodable (String ''done'')"
    by (simp_all add: tlv_encodable_def call_data_def rust_str_ascii jmap_sorted_def)
  obtain f where f: "client_build_nda_request sample_crypto METHOD_TOOLS_CALL ?i ?d = Ok f"
    "f = framed NDA_MAGIC (sha256 sample_crypto (request_payload METHOD_TOOLS_CALL ?i ?d)) (request_payload METHOD_TOOLS_CALL ?i ?d)"
    using client_request_frame [OF enc(1,2)] by blast
  have len: "length f \<le> 4080"
    using sample_digests by (simp add: f(2) digests_32_def request_payload_def call_data_def is_null_def encode_number_def)
  obtain seq c1 b1 where snd: "send_request f \<lparr>next_seq = 1\<rparr> fresh_buffer = Ok (seq, c1, b1)"
    using send_request_Ok [OF fresh_buffer_mapped len] by blast
  obtain outcome b2 s2 where it: "shmem_iteration sample_crypto sample_json (sample_backend []) sample_text False
      sample_readings b1 sample_server = (outcome, b2, s2)" by (metis prod_cases3)
  have lim: "fst (try_acquire (rd_now sample_readings) (sv_limiter sample_server))"
    by (simp add: sample_readings_def sample_server_def new_limiter_def with_limits_def try_acquire_def refill_def Let_def)
  have tool: "bk_call_tool_binary (sample_backend []) ''echo'' (tlv Null) (sv_world sample_server) = (Inr ''done'', [], ())"
    by (simp add: sample_backend_def sample_server_def)
  have rep: "reported sample_text ''echo'' (Inr ''done'') = (STATUS_OK, ''done'')" by (simp add: reported_def)
  have fits: "length (nda_reply STATUS_OK (tlv ?i) (tlv (String ''done''))) \<le> 61440"
    by (simp add: nda_reply_def encode_number_def)
  from native_call_end_to_end [OF sample_digests fresh_buffer_mapped enc(1,2) f(1) len lim tool rep enc(3) fits snd it]
  show ?thesis using f(1) snd it by blast
qed

end
